(* ===== verification/Prelude.thy ===== *)
theory Prelude
  imports Main "HOL-Library.Word" "HOL-Library.Sublist"
begin

text \<open>
  The vocabulary every component shares.

  \<^item> \<open>error\<close> is Go's \<^verbatim>\<open>error\<close> value: a text (\<open>Err\<close>), the library's own
    \<^verbatim>\<open>ConnError\<close> of \<^verbatim>\<open>conn_error.go\<close> (a wrapped error and its \<^verbatim>\<open>Permanent\<close> flag),
    \<^verbatim>\<open>io.EOF\<close>, an error that a package of the standard library returns, and a
    run-time panic. A fallible Go function is a function into \<open>error + 'a\<close>.
  \<^item> \<open>goint\<close> and \<open>gouint\<close> are Go's \<^verbatim>\<open>int\<close> and \<^verbatim>\<open>uint\<close> on a 64-bit platform: the same
    64-bit words, an \<^verbatim>\<open>int\<close> read with \<open>sint\<close> and compared with \<open>\<le>s\<close>.
  \<^item> the collection \<open>model_defs\<close> gathers the definitions that simplification may
    unfold when a concrete run is evaluated.
\<close>

named_theorems model_defs \<open>definitions unfolded when a concrete run is evaluated\<close>

subsection \<open>Errors\<close>

datatype error =
    Err string
  | ConnError error bool
  | IoEOF
  | LibErr string
  | Panic string

definition nil_pointer :: error where
  "nil_pointer = Panic ''invalid memory address or nil pointer dereference''"

definition NewConnError :: "error \<Rightarrow> bool \<Rightarrow> error" where
  "NewConnError err permanent = ConnError err permanent"

text \<open>
  \<^verbatim>\<open>ConnError.Error\<close> prints through \<^verbatim>\<open>xerrors.FormatError\<close>, which writes the message of the
  wrapped error after a colon and a blank.
\<close>

fun error_text :: "error \<Rightarrow> string" where
  "error_text (Err s) = s"
| "error_text (ConnError e _) = '': '' @ error_text e"
| "error_text IoEOF = ''EOF''"
| "error_text (LibErr s) = s"
| "error_text (Panic s) = s"

text \<open>
  \<^verbatim>\<open>xerrors.As(err, &actualErr)\<close> for a \<^verbatim>\<open>ConnError\<close>: the first one of the chain. Only
  \<^verbatim>\<open>ConnError\<close> wraps another error here, so the chain ends at the outermost one.
\<close>

fun as_conn_error :: "error \<Rightarrow> (error \<times> bool) option" where
  "as_conn_error (ConnError e p) = Some (e, p)"
| "as_conn_error _ = None"

fun permanent :: "error \<Rightarrow> bool" where
  "permanent (ConnError _ p) = p"
| "permanent _ = False"

lemma permanent_iff: "permanent e \<longleftrightarrow> (\<exists>e'. as_conn_error e = Some (e', True))"
  by (cases e) auto

declare NewConnError_def [model_defs]

subsection \<open>Fallible results\<close>

fun bind_result :: "'e + 'a \<Rightarrow> ('a \<Rightarrow> 'e + 'b) \<Rightarrow> 'e + 'b" where
  "bind_result (Inl e) f = Inl e"
| "bind_result (Inr a) f = f a"

lemma bind_result_Inr_iff:
  "bind_result m f = Inr b \<longleftrightarrow> (\<exists>a. m = Inr a \<and> f a = Inr b)"
  by (cases m) auto

lemma bind_result_cong [fundef_cong]:
  "m = m' \<Longrightarrow> (\<And>a. m' = Inr a \<Longrightarrow> f a = f' a) \<Longrightarrow> bind_result m f = bind_result m' f'"
  by (cases m') auto

fun is_ok :: "'e + 'a \<Rightarrow> bool" where
  "is_ok (Inr _) = True"
| "is_ok (Inl _) = False"

lemma is_ok_iff: "is_ok r \<longleftrightarrow> (\<exists>a. r = Inr a)"
  by (cases r) auto

subsection \<open>Fallible actions on a state\<close>

text \<open>
  A Go function that may fail and changes a state reached through a pointer: the state is
  passed explicitly, and what was done before an error stays done.
\<close>

type_synonym ('s, 'a) action = "'s \<Rightarrow> (error + 'a) \<times> 's"

definition andThen :: "('s, 'a) action \<Rightarrow> ('a \<Rightarrow> ('s, 'b) action) \<Rightarrow> ('s, 'b) action" where
  "andThen m k s = (case m s of (Inl e, s') \<Rightarrow> (Inl e, s') | (Inr a, s') \<Rightarrow> k a s')"

definition giving :: "error + 'a \<Rightarrow> ('s, 'a) action" where
  "giving r s = (r, s)"

lemma andThen_simps [simp]:
  "m s = (Inl e, s') \<Longrightarrow> andThen m k s = (Inl e, s')"
  "m s = (Inr a, s') \<Longrightarrow> andThen m k s = k a s'"
  by (simp_all add: andThen_def)

lemma giving_simps [simp]: "giving r s = (r, s)"
  by (simp add: giving_def)

lemma andThen_Inr_iff:
  "fst (andThen m k s) = Inr b \<longleftrightarrow> (\<exists>a s'. m s = (Inr a, s') \<and> fst (k a s') = Inr b)"
  by (cases "m s"; cases "fst (m s)") (auto simp: andThen_def)

text \<open>A property of the state that every part of an action keeps.\<close>

definition keeps :: "('s \<Rightarrow> bool) \<Rightarrow> ('s, 'a) action \<Rightarrow> bool" where
  "keeps P m \<longleftrightarrow> (\<forall>s. P s \<longrightarrow> P (snd (m s)))"

lemma keepsD: "keeps P m \<Longrightarrow> P s \<Longrightarrow> P (snd (m s))"
  by (simp add: keeps_def)

lemma keeps_andThen: "keeps P m \<Longrightarrow> (\<And>a. keeps P (k a)) \<Longrightarrow> keeps P (andThen m k)"
  unfolding keeps_def
proof (intro allI impI)
  fix s
  assume m: "\<forall>s. P s \<longrightarrow> P (snd (m s))" and k: "\<And>a. \<forall>s. P s \<longrightarrow> P (snd (k a s))" and s: "P s"
  obtain r s' where r: "m s = (r, s')" by (cases "m s")
  then have "P s'" using m s by (metis snd_conv)
  then show "P (snd (andThen m k s))" using k r by (cases r) (simp_all add: andThen_def)
qed

lemma keeps_giving: "keeps P (giving r)"
  by (simp add: keeps_def)

text \<open>Reading and changing the state.\<close>

definition inspect :: "('s \<Rightarrow> ('s, 'a) action) \<Rightarrow> ('s, 'a) action" where
  "inspect k s = k s s"

definition modify :: "('s \<Rightarrow> 's) \<Rightarrow> ('s, unit) action" where
  "modify f s = (Inr (), f s)"

definition skip :: "('s, unit) action" where
  "skip s = (Inr (), s)"

lemma inspect_simp [simp]: "inspect k s = k s s"
  by (simp add: inspect_def)

lemma modify_simp [simp]: "modify f s = (Inr (), f s)"
  by (simp add: modify_def)

lemma skip_simp [simp]: "skip s = (Inr (), s)"
  by (simp add: skip_def)

lemma keeps_inspect: "(\<And>s. keeps P (k s)) \<Longrightarrow> keeps P (inspect k)"
  by (simp add: keeps_def)

lemma keeps_modify: "(\<And>s. P s \<Longrightarrow> P (f s)) \<Longrightarrow> keeps P (modify f)"
  by (simp add: keeps_def)

lemma keeps_skip: "keeps P skip"
  by (simp add: keeps_def)

lemma keeps_case_sum: "(\<And>a. keeps P (f a)) \<Longrightarrow> (\<And>b. keeps P (g b)) \<Longrightarrow> keeps P (case r of Inl a \<Rightarrow> f a | Inr b \<Rightarrow> g b)"
  by (cases r) simp_all

lemma keeps_case_option: "keeps P m \<Longrightarrow> (\<And>a. keeps P (f a)) \<Longrightarrow> keeps P (case r of None \<Rightarrow> m | Some a \<Rightarrow> f a)"
  by (cases r) simp_all

lemma keeps_if: "keeps P m \<Longrightarrow> keeps P m' \<Longrightarrow> keeps P (if b then m else m')"
  by simp

lemmas keeps_intros = keeps_andThen keeps_giving keeps_inspect keeps_skip keeps_case_sum keeps_case_option keeps_if

text \<open>
  A call whose error is a value that the caller looks at (\<open>attempt\<close>) or drops (\<open>ignoring\<close>). A
  panic is neither.
\<close>

definition attempt :: "('s, 'a) action \<Rightarrow> ('s, error + 'a) action" where
  "attempt m s = (case m s of (Inl (Panic p), s') \<Rightarrow> (Inl (Panic p), s') | (r, s') \<Rightarrow> (Inr r, s'))"

definition ignoring :: "('s, 'a) action \<Rightarrow> ('s, unit) action" where
  "ignoring m = andThen (attempt m) (\<lambda>_. skip)"

lemma keeps_attempt: "keeps P m \<Longrightarrow> keeps P (attempt m)"
proof (unfold keeps_def, intro allI impI)
  fix s assume "\<forall>s. P s \<longrightarrow> P (snd (m s))" "P s"
  then have "P (snd (m s))" by blast
  then show "P (snd (attempt m s))" by (cases "m s") (auto simp: attempt_def split: sum.split error.split)
qed

lemma keeps_ignoring: "keeps P m \<Longrightarrow> keeps P (ignoring m)"
  unfolding ignoring_def by (intro keeps_andThen keeps_attempt keeps_skip)

text \<open>A property of every state in which an action ends without an error.\<close>

definition ends :: "('s \<Rightarrow> bool) \<Rightarrow> ('s, 'a) action \<Rightarrow> bool" where
  "ends P m \<longleftrightarrow> (\<forall>s a s'. m s = (Inr a, s') \<longrightarrow> P s')"

lemma endsD: "ends P m \<Longrightarrow> m s = (Inr a, s') \<Longrightarrow> P s'"
  unfolding ends_def by blast

lemma ends_andThen: "(\<And>a. ends P (k a)) \<Longrightarrow> ends P (andThen m k)"
  unfolding ends_def andThen_def by (auto split: prod.splits sum.splits)

lemma ends_keeps: "ends P m \<Longrightarrow> (\<And>a. keeps P (k a)) \<Longrightarrow> ends P (andThen m k)"
  unfolding ends_def keeps_def andThen_def by (auto split: prod.splits sum.splits) (metis snd_conv)

lemma ends_failing: "ends P (giving (Inl e))"
  by (simp add: ends_def)

lemma ends_inspect: "(\<And>s. ends P (k s)) \<Longrightarrow> ends P (inspect k)"
  unfolding ends_def by auto

lemma ends_case_option: "ends P m \<Longrightarrow> (\<And>a. ends P (f a)) \<Longrightarrow> ends P (case r of None \<Rightarrow> m | Some a \<Rightarrow> f a)"
  by (cases r) simp_all

lemmas ends_intros = ends_andThen ends_failing ends_inspect ends_case_option

subsection \<open>Loops\<close>

text \<open>
  \<^verbatim>\<open>for { ... }\<close>, whose body tells whether to go on, with fuel: \<open>None\<close> is a loop that has not
  ended. A loop whose turns use up its input ends.
\<close>

fun run_loop :: "nat \<Rightarrow> ('c, bool) action \<Rightarrow> 'c \<Rightarrow> ((error + unit) \<times> 'c) option" where
  "run_loop 0 step c = None"
| "run_loop (Suc k) step c =
     (case step c of
        (Inl e, c') \<Rightarrow> Some (Inl e, c')
      | (Inr True, c') \<Rightarrow> run_loop k step c'
      | (Inr False, c') \<Rightarrow> Some (Inr (), c'))"

locale consuming_loop =
  fixes step :: "('c, bool) action"
    and input :: "'c \<Rightarrow> nat"
  assumes step_less: "step c = (Inr True, c') \<Longrightarrow> input c' < input c"
begin

lemma loop_ends: "input c < k \<Longrightarrow> \<exists>r. run_loop k step c = Some r"
proof (induction k arbitrary: c)
  case (Suc k)
  show ?case
  proof (cases "\<exists>c'. step c = (Inr True, c')")
    case True
    then obtain c' where c': "step c = (Inr True, c')" by blast
    with Suc step_less [OF c'] show ?thesis by simp
  next
    case False
    then show ?thesis by (auto split: prod.split sum.split bool.split)
  qed
qed simp

text \<open>More fuel does not change the outcome.\<close>

lemma loop_fuel: "run_loop k step c = Some r \<Longrightarrow> run_loop (k + n) step c = Some r"
  by (induction k step c rule: run_loop.induct) (auto split: prod.splits sum.splits bool.splits)

end

subsection \<open>Machine integers\<close>

type_synonym goint = "64 word"
type_synonym gouint = "64 word"

lemma sint_goint_range: "- (2 ^ 63) \<le> sint (x :: goint)" "sint (x :: goint) < 2 ^ 63"
  using sint_range_size [of x] by (simp_all add: word_size)

lemma sint_goint_of_int:
  "- (2 ^ 63) \<le> k \<Longrightarrow> k < 2 ^ 63 \<Longrightarrow> sint (word_of_int k :: goint) = k"
  by (simp add: sint_sbintrunc' signed_take_bit_int_eq_self)

lemma sint_goint_add1:
  assumes "sint (x :: goint) < 2 ^ 63 - 1"
  shows "sint (x + 1) = sint x + 1"
proof -
  have "x + 1 = word_of_int (sint x + 1)"
    by simp
  moreover have "- (2 ^ 63) \<le> sint x + 1" "sint x + 1 < 2 ^ 63"
    using sint_goint_range(1) [of x] assms by simp_all
  ultimately show ?thesis
    by (metis sint_goint_of_int)
qed

subsection \<open>Lists\<close>

lemma filter_sorted_dropWhile:
  "sorted_wrt (\<lambda>x y. P y \<longrightarrow> P x) xs \<Longrightarrow> dropWhile P xs = filter (\<lambda>x. \<not> P x) xs"
proof (induction xs)
  case Nil
  then show ?case by simp
next
  case (Cons x xs)
  show ?case
  proof (cases "P x")
    case True
    with Cons show ?thesis by simp
  next
    case False
    with Cons.prems have "\<forall>y \<in> set xs. \<not> P y" by auto
    then have "filter (\<lambda>x. \<not> P x) xs = xs" by (simp add: filter_id_conv)
    with False show ?thesis by simp
  qed
qed

lemma takeWhile_append_stop:
  "(\<And>x. x \<in> set xs \<Longrightarrow> P x) \<Longrightarrow> \<not> P y \<Longrightarrow> takeWhile P (xs @ y # ys) = xs"
  by (induction xs) auto

lemma dropWhile_append_stop:
  "(\<And>x. x \<in> set xs \<Longrightarrow> P x) \<Longrightarrow> \<not> P y \<Longrightarrow> dropWhile P (xs @ y # ys) = y # ys"
  by (induction xs) auto

lemma split_at_first:
  assumes "c \<in> set s"
  shows "takeWhile (\<lambda>x. x \<noteq> c) s @ c # tl (dropWhile (\<lambda>x. x \<noteq> c) s) = s"
  using assms by (induction s) auto

end
