(* ===== verification/GoStrings.thy ===== *)
theory GoStrings
  imports Prelude
begin

text \<open>
  The parts of Go's \<^verbatim>\<open>strings\<close>, \<^verbatim>\<open>strconv\<close>, \<^verbatim>\<open>unicode\<close> and range-over-string semantics
  that the repository uses. A Go string is a sequence of bytes, as \<open>string\<close> is here;
  \<open>runes\<close> is what \<^verbatim>\<open>for _, r := range s\<close> yields (an invalid byte yields
  \<^verbatim>\<open>utf8.RuneError\<close>, one byte at a time). All definitions are executable.
\<close>

subsection \<open>UTF-8\<close>

definition cont_byte :: "nat \<Rightarrow> bool" where
  "cont_byte b \<longleftrightarrow> 128 \<le> b \<and> b \<le> 191"

definition rune_error :: nat where
  "rune_error = 65533"

text \<open>The range of the second byte that \<^verbatim>\<open>utf8.DecodeRune\<close> accepts after a leading byte.\<close>

definition second_lo :: "nat \<Rightarrow> nat" where
  "second_lo b = (if b = 224 then 160 else if b = 240 then 144 else 128)"

definition second_hi :: "nat \<Rightarrow> nat" where
  "second_hi b = (if b = 237 then 159 else if b = 244 then 143 else 191)"

text \<open>
  Two-, three- and four-byte sequences, after the leading byte \<open>b\<close>: the rune and its
  width, or an invalid byte of width 1.
\<close>

fun decode_tail2 :: "nat \<Rightarrow> nat \<Rightarrow> nat \<times> nat" where
  "decode_tail2 b b1 = ((b - 192) * 64 + (b1 - 128), 2)"

fun decode_tail3 :: "nat \<Rightarrow> nat \<Rightarrow> nat list \<Rightarrow> nat \<times> nat" where
  "decode_tail3 b b1 (b2 # _) =
     (if cont_byte b2 then ((b - 224) * 4096 + (b1 - 128) * 64 + (b2 - 128), 3) else (rune_error, 1))"
| "decode_tail3 b b1 [] = (rune_error, 1)"

fun decode_tail4 :: "nat \<Rightarrow> nat \<Rightarrow> nat list \<Rightarrow> nat \<times> nat" where
  "decode_tail4 b b1 (b2 # b3 # _) =
     (if cont_byte b2 \<and> cont_byte b3
      then ((b - 240) * 262144 + (b1 - 128) * 4096 + (b2 - 128) * 64 + (b3 - 128), 4)
      else (rune_error, 1))"
| "decode_tail4 b b1 _ = (rune_error, 1)"

definition decode_multi :: "nat \<Rightarrow> nat list \<Rightarrow> nat \<times> nat" where
  "decode_multi b bs =
     (case bs of
        [] \<Rightarrow> (rune_error, 1)
      | b1 # rest \<Rightarrow>
          if b < 194 \<or> 244 < b \<or> b1 < second_lo b \<or> second_hi b < b1 then (rune_error, 1)
          else if b < 224 then decode_tail2 b b1
          else if b < 240 then decode_tail3 b b1 rest
          else decode_tail4 b b1 rest)"

definition decode_rune :: "nat \<Rightarrow> nat list \<Rightarrow> nat \<times> nat" where
  "decode_rune b bs = (if b < 128 then (b, 1) else decode_multi b bs)"

text \<open>Every rune takes at least one byte, and a rune of a byte from 128 on takes only such bytes.\<close>

definition multi_ok :: "nat \<Rightarrow> nat list \<Rightarrow> nat \<times> nat \<Rightarrow> bool" where
  "multi_ok b bs r \<longleftrightarrow> 128 \<le> fst r \<and> 1 \<le> snd r \<and> (\<forall>x \<in> set (take (snd r) (b # bs)). 128 \<le> x)"

lemma take_2_3_4:
  "take 1 (x # xs) = [x]" "take 2 (x # y # xs) = [x, y]" "take 3 (x # y # z # xs) = [x, y, z]"
  "take 4 (x # y # z # u # xs) = [x, y, z, u]"
  by (simp_all add: eval_nat_numeral)

lemma multi_ok_error: "128 \<le> b \<Longrightarrow> multi_ok b bs (rune_error, Suc 0)"
  by (simp add: multi_ok_def rune_error_def)

lemma decode_tail3_ok:
  assumes "224 \<le> b" "second_lo b \<le> b1"
  shows "multi_ok b (b1 # bs) (decode_tail3 b b1 bs)"
proof (cases "\<exists>b2 rest. bs = b2 # rest \<and> cont_byte b2")
  case True
  then obtain b2 rest where bs: "bs = b2 # rest" "cont_byte b2" by blast
  have lo: "128 \<le> b1" "b = 224 \<Longrightarrow> 160 \<le> b1"
    using assms by (auto simp: second_lo_def split: if_splits)
  have "128 \<le> (b - 224) * 4096 + (b1 - 128) * 64"
    using assms(1) lo by (cases "b = 224") auto
  then have "128 \<le> fst (decode_tail3 b b1 bs)"
    using bs by simp
  with bs assms(1) lo(1) show ?thesis
    by (simp add: multi_ok_def take_2_3_4 cont_byte_def)
next
  case False
  then have "decode_tail3 b b1 bs = (rune_error, 1)" by (cases bs) auto
  with assms(1) show ?thesis by (simp add: multi_ok_error)
qed

lemma decode_tail4_ok:
  assumes "240 \<le> b" "second_lo b \<le> b1"
  shows "multi_ok b (b1 # bs) (decode_tail4 b b1 bs)"
proof (cases "\<exists>b2 b3 rest. bs = b2 # b3 # rest \<and> cont_byte b2 \<and> cont_byte b3")
  case True
  then obtain b2 b3 rest where bs: "bs = b2 # b3 # rest" "cont_byte b2" "cont_byte b3" by blast
  have lo: "128 \<le> b1" "b = 240 \<Longrightarrow> 144 \<le> b1"
    using assms by (auto simp: second_lo_def split: if_splits)
  have "128 \<le> (b - 240) * 262144 + (b1 - 128) * 4096"
    using assms(1) lo by (cases "b = 240") auto
  then have "128 \<le> fst (decode_tail4 b b1 bs)"
    using bs by simp
  with bs assms(1) lo(1) show ?thesis
    by (simp add: multi_ok_def take_2_3_4 cont_byte_def)
next
  case False
  then have "decode_tail4 b b1 bs = (rune_error, 1)"
    by (cases "(b, b1, bs)" rule: decode_tail4.cases) auto
  with assms(1) show ?thesis by (simp add: multi_ok_error)
qed

lemma decode_tail2_ok:
  assumes "194 \<le> b" "second_lo b \<le> b1"
  shows "multi_ok b (b1 # bs) (decode_tail2 b b1)"
proof -
  have "128 \<le> b1" using assms by (auto simp: second_lo_def split: if_splits)
  moreover have "128 \<le> (b - 192) * 64" using assms(1) by simp
  ultimately show ?thesis using assms(1) by (simp add: multi_ok_def take_2_3_4)
qed

lemma decode_multi_ok:
  assumes "128 \<le> b"
  shows "multi_ok b bs (decode_multi b bs)"
proof (cases bs)
  case Nil
  with assms show ?thesis by (simp add: decode_multi_def multi_ok_error)
next
  case (Cons b1 rest)
  show ?thesis
  proof (cases "b < 194 \<or> 244 < b \<or> b1 < second_lo b \<or> second_hi b < b1")
    case True
    with assms Cons show ?thesis by (simp add: decode_multi_def multi_ok_error)
  next
    case False
    then have le: "194 \<le> b" "second_lo b \<le> b1" by auto
    from False Cons have "decode_multi b bs = (if b < 224 then decode_tail2 b b1
        else if b < 240 then decode_tail3 b b1 rest else decode_tail4 b b1 rest)"
      by (simp add: decode_multi_def)
    with Cons le show ?thesis
      by (simp add: decode_tail2_ok decode_tail3_ok decode_tail4_ok del: decode_tail2.simps)
  qed
qed

lemma decode_rune_width: "1 \<le> snd (decode_rune b bs)"
  using decode_multi_ok [of b bs] by (auto simp: decode_rune_def multi_ok_def)

function decode_runes :: "nat list \<Rightarrow> nat list" where
  "decode_runes [] = []"
| "decode_runes (b # bs) =
     fst (decode_rune b bs) # decode_runes (drop (snd (decode_rune b bs)) (b # bs))"
  by pat_completeness auto
termination
proof (relation "measure length")
  fix b and bs :: "nat list"
  show "(drop (snd (decode_rune b bs)) (b # bs), b # bs) \<in> measure length"
    using decode_rune_width [of b bs] by simp
qed simp

definition runes :: "string \<Rightarrow> nat list" where
  "runes s = decode_runes (map of_char s)"

definition is_ascii :: "string \<Rightarrow> bool" where
  "is_ascii s \<longleftrightarrow> list_all (\<lambda>c. (of_char c :: nat) < 128) s"

lemma decode_runes_ascii: "list_all (\<lambda>b. b < 128) bs \<Longrightarrow> decode_runes bs = bs"
  by (induction bs) (auto simp: decode_rune_def)

lemma runes_ascii: "is_ascii s \<Longrightarrow> runes s = map of_char s"
  by (simp add: runes_def is_ascii_def decode_runes_ascii list.pred_map comp_def)

text \<open>
  No byte below 128 is ever part of a longer sequence, so an ASCII character occurs among
  the runes of a string exactly when it occurs among its bytes.
\<close>

lemma ascii_in_decode_rune:
  assumes "a < 128"
  shows "a \<in> set (b # bs) \<longleftrightarrow>
    a = fst (decode_rune b bs) \<or> a \<in> set (drop (snd (decode_rune b bs)) (b # bs))"
proof (cases "b < 128")
  case True
  then show ?thesis by (simp add: decode_rune_def)
next
  case False
  then have ok: "multi_ok b bs (decode_rune b bs)"
    using decode_multi_ok [of b bs] by (simp add: decode_rune_def)
  let ?n = "snd (decode_rune b bs)"
  have "set (b # bs) = set (take ?n (b # bs)) \<union> set (drop ?n (b # bs))"
    by (metis append_take_drop_id set_append)
  with ok assms show ?thesis by (force simp: multi_ok_def)
qed

lemma ascii_in_decode_runes:
  "a < 128 \<Longrightarrow> a \<in> set (decode_runes xs) \<longleftrightarrow> a \<in> set xs"
proof (induction xs rule: decode_runes.induct)
  case 1
  then show ?case by simp
next
  case (2 b bs)
  then show ?case using ascii_in_decode_rune [of a b bs] by simp
qed

lemma ascii_in_runes:
  assumes "(of_char c :: nat) < 128"
  shows "of_char c \<in> set (runes s) \<longleftrightarrow> c \<in> set s"
  using ascii_in_decode_runes [OF assms, of "map of_char s"]
  by (auto simp: runes_def)

text \<open>\<^verbatim>\<open>unicode.IsSpace\<close>: the Latin-1 cases, then Unicode's \<^verbatim>\<open>White_Space\<close> property.\<close>

definition IsSpace :: "nat \<Rightarrow> bool" where
  "IsSpace r \<longleftrightarrow> (9 \<le> r \<and> r \<le> 13) \<or> r = 32 \<or> r = 133 \<or> r = 160 \<or> r = 5760
     \<or> (8192 \<le> r \<and> r \<le> 8202) \<or> r = 8232 \<or> r = 8233 \<or> r = 8239 \<or> r = 8287 \<or> r = 12288"

text \<open>\<^verbatim>\<open>strings.TrimSpace(s) == ""\<close>, the only way the repository uses \<^verbatim>\<open>TrimSpace\<close>.\<close>

definition TrimSpace_is_empty :: "string \<Rightarrow> bool" where
  "TrimSpace_is_empty s \<longleftrightarrow> list_all IsSpace (runes s)"

lemma TrimSpace_is_empty_Nil [simp]: "TrimSpace_is_empty []"
  by (simp add: TrimSpace_is_empty_def runes_def)

text \<open>
  \<^verbatim>\<open>strings.ToLower\<close> maps an ASCII string byte by byte; for any other string it consults the
  Unicode case tables, which are the parameter \<open>uni_lower\<close>.
\<close>

definition lower_char :: "char \<Rightarrow> char" where
  "lower_char c = (let b = of_char c :: nat in if 65 \<le> b \<and> b \<le> 90 then char_of (b + 32) else c)"

definition ToLower :: "(string \<Rightarrow> string) \<Rightarrow> string \<Rightarrow> string" where
  "ToLower uni_lower s = (if is_ascii s then map lower_char s else uni_lower s)"

subsection \<open>Searching and splitting\<close>

definition HasPrefix :: "string \<Rightarrow> string \<Rightarrow> bool" where
  "HasPrefix s p \<longleftrightarrow> take (length p) s = p"

lemma HasPrefix_iff: "HasPrefix s p \<longleftrightarrow> (\<exists>t. s = p @ t)"
  by (metis HasPrefix_def append_eq_conv_conj append_take_drop_id)

text \<open>\<^verbatim>\<open>strings.SplitN(s, sep, 2)\<close> for a separator of one byte.\<close>

definition SplitN2 :: "string \<Rightarrow> char \<Rightarrow> string list" where
  "SplitN2 s c =
     (if c \<in> set s then [takeWhile (\<lambda>x. x \<noteq> c) s, tl (dropWhile (\<lambda>x. x \<noteq> c) s)] else [s])"

lemma SplitN2_notin [simp]: "c \<notin> set s \<Longrightarrow> SplitN2 s c = [s]"
  by (simp add: SplitN2_def)

lemma SplitN2_append: "c \<notin> set a \<Longrightarrow> SplitN2 (a @ c # b) c = [a, b]"
proof -
  assume "c \<notin> set a"
  then have "\<And>x. x \<in> set a \<Longrightarrow> x \<noteq> c" by auto
  then show ?thesis by (simp add: SplitN2_def takeWhile_append_stop dropWhile_append_stop)
qed

lemma SplitN2_cases:
  obtains (one) "c \<notin> set s" "SplitN2 s c = [s]"
  | (two) a b where "s = a @ c # b" "c \<notin> set a" "SplitN2 s c = [a, b]"
proof (cases "c \<in> set s")
  case True
  then obtain a b where s: "s = a @ c # b" "c \<notin> set a"
    by (meson split_list_first)
  with that(2) SplitN2_append show ?thesis by blast
next
  case False
  with that(1) show ?thesis by simp
qed

text \<open>\<^verbatim>\<open>strings.Split(s, sep)\<close> and \<^verbatim>\<open>strings.Join\<close> for a separator of one byte.\<close>

fun Split :: "string \<Rightarrow> char \<Rightarrow> string list" where
  "Split [] c = [[]]"
| "Split (x # xs) c =
     (if x = c then [] # Split xs c
      else case Split xs c of [] \<Rightarrow> [[x]] | p # ps \<Rightarrow> (x # p) # ps)"

fun Join :: "string list \<Rightarrow> string \<Rightarrow> string" where
  "Join [] sep = []"
| "Join [s] sep = s"
| "Join (s # t # ss) sep = s @ sep @ Join (t # ss) sep"

lemma Split_nonempty [simp]: "Split s c \<noteq> []"
  by (cases s) (auto split: list.splits)

lemma Split_notin: "c \<notin> set s \<Longrightarrow> Split s c = [s]"
  by (induction s) auto

lemma Split_append: "c \<notin> set a \<Longrightarrow> Split (a @ c # b) c = a # Split b c"
  by (induction a) auto

lemma Split_Join:
  "list_all (\<lambda>p. c \<notin> set p) ps \<Longrightarrow> ps \<noteq> [] \<Longrightarrow> Split (Join ps [c]) c = ps"
  by (induction ps "[c]" rule: Join.induct) (auto simp: Split_append Split_notin)

lemma length_Split: "length (Split s c) = Suc (count_list s c)"
  by (induction s) (auto split: list.splits)

lemma Split_parts: "p \<in> set (Split s c) \<Longrightarrow> c \<notin> set p"
proof (induction s arbitrary: p)
  case Nil
  then show ?case by simp
next
  case (Cons x xs)
  then show ?case by (cases "Split xs c") (auto split: if_splits)
qed

lemma Join_Split: "Join (Split s c) [c] = s"
proof (induction s)
  case Nil
  then show ?case by simp
next
  case (Cons x xs)
  then show ?case
    by (cases "Split xs c"; cases "tl (Split xs c)") auto
qed

text \<open>\<^verbatim>\<open>strings.Count\<close> and \<^verbatim>\<open>strings.LastIndex\<close> for a single byte; \<^verbatim>\<open>-1\<close> when it does not occur.\<close>

definition Count :: "string \<Rightarrow> char \<Rightarrow> nat" where
  "Count s c = count_list s c"

fun LastIndex :: "string \<Rightarrow> char \<Rightarrow> int" where
  "LastIndex [] c = -1"
| "LastIndex (x # xs) c =
     (let i = LastIndex xs c in if i \<noteq> -1 then i + 1 else if x = c then 0 else -1)"

lemma LastIndex_notin: "c \<notin> set s \<Longrightarrow> LastIndex s c = -1"
  by (induction s) auto

lemma LastIndex_ge: "-1 \<le> LastIndex s c"
  by (induction s) (auto simp: Let_def)

lemma LastIndex_nonneg: "c \<in> set s \<Longrightarrow> 0 \<le> LastIndex s c"
proof (induction s)
  case (Cons x s)
  then show ?case using LastIndex_ge [of s c] by (auto simp: Let_def)
qed simp

lemma LastIndex_append_in:
  "c \<in> set t \<Longrightarrow> LastIndex (s @ t) c = int (length s) + LastIndex t c"
proof (induction s)
  case (Cons x s)
  then show ?case using LastIndex_nonneg [of c t] by (auto simp: Let_def)
qed simp

lemma LastIndex_append_notin: "c \<notin> set t \<Longrightarrow> LastIndex (s @ t) c = LastIndex s c"
  by (induction s) (auto simp: LastIndex_notin)

lemma LastIndex_less: "LastIndex s c < int (length s)"
  by (induction s) (auto simp: Let_def)

end
