(* ===== verification/GoStrconv.thy ===== *)
theory GoStrconv
  imports GoStrings
begin

text \<open>
  \<^verbatim>\<open>strconv.Itoa\<close>, \<^verbatim>\<open>strconv.Atoi\<close>, \<^verbatim>\<open>strconv.ParseBool\<close>, \<^verbatim>\<open>fmt\<close>'s \<^verbatim>\<open>%x\<close> and the standard
  \<^verbatim>\<open>encoding/base64\<close> codec, as far as the repository uses them, with their round trips.
\<close>

subsection \<open>Decimal numbers\<close>

definition digit_char :: "nat \<Rightarrow> char" where
  "digit_char d = char_of (48 + d)"

definition digit_val :: "char \<Rightarrow> nat option" where
  "digit_val c = (let b = of_char c :: nat in if 48 \<le> b \<and> b \<le> 57 then Some (b - 48) else None)"

lemma digit_val_char: "d < 10 \<Longrightarrow> digit_val (digit_char d) = Some d"
  by (simp add: digit_val_def digit_char_def Let_def)

fun nat_string :: "nat \<Rightarrow> string" where
  "nat_string n = (if n < 10 then [digit_char n] else nat_string (n div 10) @ [digit_char (n mod 10)])"

declare nat_string.simps [simp del]

fun parse_digits :: "nat \<Rightarrow> string \<Rightarrow> nat option" where
  "parse_digits acc [] = Some acc"
| "parse_digits acc (c # cs) =
     (case digit_val c of None \<Rightarrow> None | Some d \<Rightarrow> parse_digits (10 * acc + d) cs)"

lemma parse_digits_append:
  "parse_digits acc (s @ t) = (case parse_digits acc s of None \<Rightarrow> None | Some a \<Rightarrow> parse_digits a t)"
  by (induction s arbitrary: acc) (auto split: option.splits)

lemma parse_digits_nat_string: "parse_digits 0 (nat_string n) = Some n"
proof (induction n rule: nat_string.induct)
  case (1 n)
  then show ?case
    by (cases "n < 10")
      (simp_all add: nat_string.simps [of n] parse_digits_append digit_val_char)
qed

lemma nat_string_nonempty [simp]: "nat_string n \<noteq> []"
  by (subst nat_string.simps) simp

lemma digit_char_notin:
  "d < 10 \<Longrightarrow> digit_char d \<noteq> CHR ''-'' \<and> digit_char d \<noteq> CHR ''+''
     \<and> digit_char d \<noteq> CHR '':'' \<and> digit_char d \<noteq> CHR '']'' \<and> digit_char d \<noteq> CHR '',''"
  using digit_val_char [of d] by (auto simp: digit_val_def Let_def split: if_splits)

lemma nat_string_chars:
  "c \<in> set (nat_string n) \<Longrightarrow> c \<noteq> CHR ''-'' \<and> c \<noteq> CHR ''+'' \<and> c \<noteq> CHR '':'' \<and> c \<noteq> CHR '']''
     \<and> c \<noteq> CHR '',''"
proof (induction n rule: nat_string.induct)
  case (1 n)
  then show ?case
    by (cases "n < 10") (auto simp: nat_string.simps [of n] digit_char_notin)
qed

definition Itoa :: "int \<Rightarrow> string" where
  "Itoa k = (if k < 0 then CHR ''-'' # nat_string (nat (- k)) else nat_string (nat k))"

definition int_min :: int where
  "int_min = - (2 ^ 63)"

definition int_max :: int where
  "int_max = 2 ^ 63 - 1"

definition Atoi_digits :: "bool \<Rightarrow> string \<Rightarrow> error + int" where
  "Atoi_digits neg s =
     (if s = [] then Inl (LibErr ''strconv.Atoi: parsing: invalid syntax'')
      else case parse_digits 0 s of
        None \<Rightarrow> Inl (LibErr ''strconv.Atoi: parsing: invalid syntax'')
      | Some n \<Rightarrow>
          let k = (if neg then - int n else int n) in
          if int_min \<le> k \<and> k \<le> int_max then Inr k
          else Inl (LibErr ''strconv.Atoi: parsing: value out of range''))"

definition Atoi :: "string \<Rightarrow> error + int" where
  "Atoi s = (case s of
       [] \<Rightarrow> Atoi_digits False []
     | c # cs \<Rightarrow>
         if c = CHR ''-'' then Atoi_digits True cs
         else if c = CHR ''+'' then Atoi_digits False cs
         else Atoi_digits False s)"

lemma Atoi_Itoa:
  assumes "int_min \<le> k" "k \<le> int_max"
  shows "Atoi (Itoa k) = Inr k"
proof (cases "k < 0")
  case True
  with assms show ?thesis
    by (simp add: Itoa_def Atoi_def Atoi_digits_def parse_digits_nat_string)
next
  case False
  then obtain c cs where s: "nat_string (nat k) = c # cs" by (meson neq_Nil_conv nat_string_nonempty)
  then have "c \<noteq> CHR ''-''" "c \<noteq> CHR ''+''"
    using nat_string_chars [of c "nat k"] by auto
  then have "Atoi (Itoa k) = Atoi_digits False (nat_string (nat k))"
    using False s by (simp add: Itoa_def Atoi_def)
  with False assms show ?thesis
    by (simp add: Atoi_digits_def parse_digits_nat_string)
qed

lemma Atoi_range: "Atoi s = Inr k \<Longrightarrow> int_min \<le> k \<and> k \<le> int_max"
  by (auto simp: Atoi_def Atoi_digits_def Let_def split: list.splits if_splits option.splits)

subsection \<open>Booleans and hexadecimal\<close>

definition ParseBool :: "string \<Rightarrow> error + bool" where
  "ParseBool s =
     (if s \<in> {''1'', ''t'', ''T'', ''true'', ''TRUE'', ''True''} then Inr True
      else if s \<in> {''0'', ''f'', ''F'', ''false'', ''FALSE'', ''False''} then Inr False
      else Inl (LibErr ''strconv.ParseBool: parsing: invalid syntax''))"

definition hex_char :: "nat \<Rightarrow> char" where
  "hex_char d = (if d < 10 then char_of (48 + d) else char_of (87 + d))"

fun hex_string :: "nat \<Rightarrow> string" where
  "hex_string n = (if n < 16 then [hex_char n] else hex_string (n div 16) @ [hex_char (n mod 16)])"

declare hex_string.simps [simp del]

definition hex_val :: "char \<Rightarrow> nat" where
  "hex_val c = (let b = of_char c :: nat in if b < 58 then b - 48 else b - 87)"

definition unhex :: "string \<Rightarrow> nat" where
  "unhex s = foldl (\<lambda>n c. 16 * n + hex_val c) 0 s"

lemma hex_val_char: "d < 16 \<Longrightarrow> hex_val (hex_char d) = d"
  by (auto simp: hex_val_def hex_char_def Let_def)

lemma unhex_hex_string: "unhex (hex_string n) = n"
proof (induction n rule: hex_string.induct)
  case (1 n)
  show ?case
  proof (cases "n < 16")
    case True
    then show ?thesis by (simp add: hex_string.simps [of n] unhex_def hex_val_char)
  next
    case False
    with 1 show ?thesis
      by (simp add: hex_string.simps [of n] unhex_def hex_val_char)
  qed
qed

lemma hex_string_inj: "hex_string m = hex_string n \<longleftrightarrow> m = n"
  by (metis unhex_hex_string)

text \<open>\<^verbatim>\<open>hex.EncodeToString\<close>: two digits a byte.\<close>

definition hex_encode :: "string \<Rightarrow> string" where
  "hex_encode bs = concat (map (\<lambda>c. let b = of_char c :: nat in [hex_char (b div 16), hex_char (b mod 16)]) bs)"

lemma hex_string_nonempty [simp]: "hex_string n \<noteq> []"
  by (subst hex_string.simps) simp

text \<open>\<^verbatim>\<open>fmt.Sprintf("%x", n)\<close> for an \<^verbatim>\<open>int\<close>.\<close>

definition hex_int :: "goint \<Rightarrow> string" where
  "hex_int k = (if sint k < 0 then CHR ''-'' # hex_string (nat (- sint k)) else hex_string (nat (sint k)))"

lemma hex_encode_inj: "hex_encode s = hex_encode t \<Longrightarrow> s = t"
proof (induction s arbitrary: t)
  case Nil
  then show ?case by (cases t) (simp_all add: hex_encode_def Let_def)
next
  case (Cons c s)
  then obtain d t' where t: "t = d # t'" by (cases t) (simp_all add: hex_encode_def Let_def)
  have less: "of_char x div 16 < (16 :: nat)" for x :: char
    using nat_of_char_less_256 [of x] by linarith
  have "hex_char (of_char c div 16) = hex_char (of_char d div 16)" "hex_char (of_char c mod 16) = hex_char (of_char d mod 16)"
    using Cons.prems by (simp_all add: hex_encode_def t Let_def)
  then have "of_char c div 16 = (of_char d div 16 :: nat)" "of_char c mod 16 = (of_char d mod 16 :: nat)"
    using less by (metis hex_val_char, metis hex_val_char mod_less_divisor zero_less_numeral)
  then have "of_char c = (of_char d :: nat)" by (metis div_mult_mod_eq)
  then have "c = d" by simp
  then show ?case using Cons.IH [of t'] Cons.prems by (simp add: hex_encode_def t)
qed

lemma length_hex_encode: "length (hex_encode bs) = 2 * length bs"
  by (induction bs) (auto simp: hex_encode_def Let_def)

subsection \<open>Base64\<close>

text \<open>\<^verbatim>\<open>base64.StdEncoding\<close>: the alphabet, padding with \<^verbatim>\<open>=\<close>.\<close>

definition b64_char :: "nat \<Rightarrow> char" where
  "b64_char d = (if d < 26 then char_of (65 + d) else if d < 52 then char_of (71 + d)
     else if d < 62 then char_of (d - 4) else if d = 62 then CHR ''+'' else CHR ''/'')"

definition b64_val :: "char \<Rightarrow> nat option" where
  "b64_val c = (let b = of_char c :: nat in
     if 65 \<le> b \<and> b \<le> 90 then Some (b - 65)
     else if 97 \<le> b \<and> b \<le> 122 then Some (b - 71)
     else if 48 \<le> b \<and> b \<le> 57 then Some (b + 4)
     else if c = CHR ''+'' then Some 62 else if c = CHR ''/'' then Some 63 else None)"

lemma b64_val_char: "d < 64 \<Longrightarrow> b64_val (b64_char d) = Some d"
  by (auto simp: b64_val_def b64_char_def Let_def)

lemma b64_val_less: "b64_val c = Some d \<Longrightarrow> d < 64"
  by (auto simp: b64_val_def Let_def split: if_splits)

lemma b64_val_pad: "b64_val (CHR ''='') = None"
  by (simp add: b64_val_def)

lemma b64_char_neq_pad: "d < 64 \<Longrightarrow> b64_char d \<noteq> CHR ''=''"
  using b64_val_char b64_val_pad by fastforce

fun b64_encode :: "string \<Rightarrow> string" where
  "b64_encode [] = []"
| "b64_encode [x] = (let a = of_char x :: nat in
     [b64_char (a div 4), b64_char (a mod 4 * 16), CHR ''='', CHR ''=''])"
| "b64_encode [x, y] = (let a = of_char x :: nat; b = of_char y :: nat in
     [b64_char (a div 4), b64_char (a mod 4 * 16 + b div 16), b64_char (b mod 16 * 4), CHR ''=''])"
| "b64_encode (x # y # z # rest) =
     (let a = of_char x :: nat; b = of_char y :: nat; c = of_char z :: nat in
      b64_char (a div 4) # b64_char (a mod 4 * 16 + b div 16) # b64_char (b mod 16 * 4 + c div 64)
        # b64_char (c mod 64) # b64_encode rest)"

text \<open>
  \<^verbatim>\<open>DecodeString\<close> skips line breaks and then reads quantums of four characters; padding ends
  the data. The bits left over before padding are not checked (\<^verbatim>\<open>StdEncoding\<close> is not strict).
\<close>

fun b64_quanta :: "string \<Rightarrow> string option" where
  "b64_quanta [] = Some []"
| "b64_quanta (p # q # r # s # rest) =
     (case (b64_val p, b64_val q) of
        (Some a, Some b) \<Rightarrow>
          if r = CHR ''='' then
            if s = CHR ''='' \<and> rest = [] then Some [char_of (a * 4 + b div 16)] else None
          else (case b64_val r of
            None \<Rightarrow> None
          | Some c \<Rightarrow>
              if s = CHR ''='' then
                if rest = [] then Some [char_of (a * 4 + b div 16), char_of (b mod 16 * 16 + c div 4)]
                else None
              else (case (b64_val s, b64_quanta rest) of
                (Some d, Some t) \<Rightarrow>
                  Some (char_of (a * 4 + b div 16) # char_of (b mod 16 * 16 + c div 4)
                    # char_of (c mod 4 * 64 + d) # t)
              | _ \<Rightarrow> None))
      | _ \<Rightarrow> None)"
| "b64_quanta _ = None"

definition is_newline :: "char \<Rightarrow> bool" where
  "is_newline c \<longleftrightarrow> of_char c = (10 :: nat) \<or> of_char c = (13 :: nat)"

definition b64_decode :: "string \<Rightarrow> error + string" where
  "b64_decode s =
     (case b64_quanta (filter (\<lambda>c. \<not> is_newline c) s) of
        Some t \<Rightarrow> Inr t
      | None \<Rightarrow> Inl (LibErr ''illegal base64 data''))"

lemma byte_less: "(of_char (c :: char) :: nat) < 256"
  by (metis mod_less_divisor of_char_mod_256 zero_less_numeral)

lemma quantum_div: "(q :: nat) < m \<Longrightarrow> (r * m + q) div m = r"
  by simp

lemma quantum_first:
  assumes "(b :: nat) < 256"
  shows "a div 4 * 4 + (a mod 4 * 16 + b div 16) div 16 = a"
proof -
  have "b div 16 < 16" using assms by simp
  then show ?thesis by (simp add: quantum_div)
qed

lemma quantum_second:
  assumes "(b :: nat) < 256" "c < 256"
  shows "(a mod 4 * 16 + b div 16) mod 16 * 16 + (b mod 16 * 4 + c div 64) div 4 = b"
proof -
  have "b div 16 < 16" "c div 64 < 4" using assms by simp_all
  then have "(a mod 4 * 16 + b div 16) mod 16 = b div 16" "(b mod 16 * 4 + c div 64) div 4 = b mod 16"
    by (simp_all add: quantum_div)
  then show ?thesis by simp
qed

lemma quantum_third:
  assumes "(c :: nat) < 256"
  shows "(b mod 16 * 4 + c div 64) mod 4 * 64 + c mod 64 = c"
proof -
  have "c div 64 < 4" using assms by simp
  then have "(b mod 16 * 4 + c div 64) mod 4 = c div 64" by simp
  then show ?thesis by simp
qed

lemma quantum_bounds:
  "(a :: nat) < 256 \<Longrightarrow> a div 4 < 64"
  "(b :: nat) < 256 \<Longrightarrow> a mod 4 * 16 + b div 16 < 64"
  "(c :: nat) < 256 \<Longrightarrow> b mod 16 * 4 + c div 64 < 64"
  "(c :: nat) mod 64 < 64" "(a :: nat) mod 4 * 16 < 64" "(b :: nat) mod 16 * 4 < 64"
proof -
  have "a mod 4 < 4" "b mod 16 < 16" by simp_all
  then show "(a :: nat) mod 4 * 16 < 64" "(b :: nat) mod 16 * 4 < 64" by simp_all
  show "(c :: nat) mod 64 < 64" by simp
  show "a div 4 < 64" if "a < 256" using that by simp
  show "a mod 4 * 16 + b div 16 < 64" if "b < 256"
  proof -
    have "b div 16 < 16" using that by simp
    with \<open>a mod 4 < 4\<close> show ?thesis by simp
  qed
  show "b mod 16 * 4 + c div 64 < 64" if "c < 256"
  proof -
    have "c div 64 < 4" using that by simp
    with \<open>b mod 16 < 16\<close> show ?thesis by simp
  qed
qed

lemmas quantum_simps = byte_less quantum_bounds b64_val_char b64_char_neq_pad

lemma b64_quanta_encode: "b64_quanta (b64_encode s) = Some s"
proof (induction s rule: b64_encode.induct)
  case 1
  then show ?case by simp
next
  case (2 x)
  have "(of_char x :: nat) div 4 * 4 + of_char x mod 4 = of_char x" by simp
  then show ?case
    by (simp add: Let_def quantum_simps)
next
  case (3 x y)
  have "b64_char (of_char y mod 16 * 4) \<noteq> CHR ''=''"
    by (simp add: quantum_simps)
  then show ?case
    using quantum_first [OF byte_less, of "of_char x" y] quantum_second [OF byte_less, of 0 "of_char x" y]
    by (simp add: Let_def quantum_simps)
next
  case (4 x y z rest)
  then show ?case
    using quantum_first [OF byte_less, of "of_char x" y]
      quantum_second [OF byte_less byte_less, of "of_char x" y z]
      quantum_third [OF byte_less, of "of_char y" z]
    by (simp add: Let_def quantum_simps)
qed

lemma b64_char_no_newline: "d < 64 \<Longrightarrow> \<not> is_newline (b64_char d)"
  by (auto simp: is_newline_def b64_char_def)

lemma b64_encode_no_newline: "c \<in> set (b64_encode s) \<Longrightarrow> \<not> is_newline c"
proof (induction s rule: b64_encode.induct)
qed (auto simp: Let_def b64_char_no_newline quantum_simps, simp_all add: is_newline_def)

lemma b64_decode_encode: "b64_decode (b64_encode s) = Inr s"
proof -
  have "filter (\<lambda>c. \<not> is_newline c) (b64_encode s) = b64_encode s"
    using b64_encode_no_newline by (auto simp: filter_id_conv)
  then show ?thesis by (simp add: b64_decode_def b64_quanta_encode)
qed

lemma b64_encode_inj: "b64_encode s = b64_encode t \<longleftrightarrow> s = t"
  by (metis b64_decode_encode sum.inject(2))

lemma b64_encode_chars: "c \<in> set (b64_encode s) \<Longrightarrow> b64_val c \<noteq> None \<or> c = CHR ''=''"
proof (induction s rule: b64_encode.induct)
qed (auto simp: Let_def quantum_simps)

lemma b64_encode_Nil_iff [simp]: "b64_encode s = [] \<longleftrightarrow> s = []"
  by (cases s rule: b64_encode.cases) (auto simp: Let_def)

end
