(* ===== verification/Xml.thy ===== *)
theory Xml
  imports Prelude
begin

text \<open>
  The part of Go's \<^verbatim>\<open>encoding/xml\<close> that the library's own decoders call. A decoder is the
  sequence of tokens its connection will deliver, already split and name-translated, the error
  that ends it, and the stack of open elements that \<^verbatim>\<open>xml.Decoder\<close> keeps: \<^verbatim>\<open>Token\<close> checks that
  elements nest, and a custom \<^verbatim>\<open>UnmarshalXML\<close> runs above an end-of-file marker
  (\<^verbatim>\<open>pushEOF\<close>), so that it cannot read past its own element, and must have read all of it
  when it returns (\<^verbatim>\<open>popEOF\<close>).
\<close>

subsection \<open>Names, tokens and trees\<close>

datatype xname = XName (nSpace: string) (nLocal: string)

type_synonym xattr = "xname \<times> string"

text \<open>\<open>OtherToken\<close> is a comment, a processing instruction or a directive.\<close>

datatype xtoken =
    StartElement xname "xattr list"
  | EndElement xname
  | CharData string
  | OtherToken

datatype xml = Elem xname "xattr list" "xml list" | Text string

fun xml_tokens :: "xml \<Rightarrow> xtoken list" where
  "xml_tokens (Elem n attrs kids) = StartElement n attrs # concat (map xml_tokens kids) @ [EndElement n]"
| "xml_tokens (Text s) = [CharData s]"

subsection \<open>The decoder\<close>

datatype stk_item = StkStart xname | StkEOF

record decoder =
  decInput :: "xtoken list"
  decErr :: error
  decStk :: "stk_item list"

definition syntax_error :: "string \<Rightarrow> error" where
  "syntax_error msg = LibErr (''XML syntax error: '' @ msg)"

text \<open>\<^verbatim>\<open>Decoder.Token\<close>, with \<^verbatim>\<open>pushElement\<close> and \<^verbatim>\<open>popElement\<close>.\<close>

definition Token :: "decoder \<Rightarrow> error + xtoken \<times> decoder" where
  "Token d =
     (case decStk d of
        StkEOF # _ \<Rightarrow> Inl IoEOF
      | stk \<Rightarrow>
          (case decInput d of
             [] \<Rightarrow> Inl (if decErr d = IoEOF \<and> stk \<noteq> [] then syntax_error ''unexpected EOF'' else decErr d)
           | StartElement n attrs # rest \<Rightarrow>
               Inr (StartElement n attrs, d\<lparr>decInput := rest, decStk := StkStart n # stk\<rparr>)
           | EndElement n # rest \<Rightarrow>
               (case stk of
                  StkStart m # stk' \<Rightarrow>
                    if m = n then Inr (EndElement n, d\<lparr>decInput := rest, decStk := stk'\<rparr>)
                    else Inl (syntax_error (''element <'' @ nLocal m @ ''> closed by </'' @ nLocal n @ ''>''))
                | _ \<Rightarrow> Inl (syntax_error (''unexpected end element </'' @ nLocal n @ ''>'')))
           | t # rest \<Rightarrow> Inr (t, d\<lparr>decInput := rest\<rparr>)))"

lemma Token_length: "Token d = Inr (t, d') \<Longrightarrow> length (decInput d) = Suc (length (decInput d'))"
  by (auto simp: Token_def split: list.splits stk_item.splits xtoken.splits if_splits)

lemma Token_less: "Token d = Inr (t, d') \<Longrightarrow> length (decInput d') < length (decInput d)"
  using Token_length by fastforce

text \<open>
  The top of the stack where \<^verbatim>\<open>Token\<close> does not stop at a marker.
\<close>

definition not_at_eof :: "stk_item list \<Rightarrow> bool" where
  "not_at_eof stk \<longleftrightarrow> (case stk of StkEOF # _ \<Rightarrow> False | _ \<Rightarrow> True)"

lemma not_at_eof_simps [simp]:
  "not_at_eof []" "not_at_eof (StkStart n # s)" "\<not> not_at_eof (StkEOF # s)"
  by (simp_all add: not_at_eof_def)

lemma Token_simps [simp]:
  "decStk d = StkEOF # stk \<Longrightarrow> Token d = Inl IoEOF"
  "decInput d = StartElement n at # rest \<Longrightarrow> not_at_eof (decStk d) \<Longrightarrow>
     Token d = Inr (StartElement n at, d\<lparr>decInput := rest, decStk := StkStart n # decStk d\<rparr>)"
  "decInput d = CharData s # rest \<Longrightarrow> not_at_eof (decStk d) \<Longrightarrow>
     Token d = Inr (CharData s, d\<lparr>decInput := rest\<rparr>)"
  "decInput d = OtherToken # rest \<Longrightarrow> not_at_eof (decStk d) \<Longrightarrow>
     Token d = Inr (OtherToken, d\<lparr>decInput := rest\<rparr>)"
  "decInput d = EndElement n # rest \<Longrightarrow> decStk d = StkStart n # stk \<Longrightarrow>
     Token d = Inr (EndElement n, d\<lparr>decInput := rest, decStk := stk\<rparr>)"
  "decInput d = [] \<Longrightarrow> decStk d = [] \<Longrightarrow> Token d = Inl (decErr d)"
  by (auto simp: Token_def not_at_eof_def split: list.splits stk_item.splits)

subsection \<open>Reading an element\<close>

text \<open>
  What the reflective \<^verbatim>\<open>unmarshal\<close> and \<^verbatim>\<open>Skip\<close> read of the element whose start has just been
  read: everything up to its end. \<open>stack\<close> holds the elements opened since and their contents
  so far.
\<close>

function read_loop ::
  "(xname \<times> xattr list \<times> xml list) list \<Rightarrow> xml list \<Rightarrow> decoder \<Rightarrow> error + xml list \<times> decoder" where
  "read_loop stack acc d =
     (case Token d of
        Inl e \<Rightarrow> Inl e
      | Inr (StartElement n attrs, d') \<Rightarrow> read_loop ((n, attrs, acc) # stack) [] d'
      | Inr (CharData s, d') \<Rightarrow> read_loop stack (acc @ [Text s]) d'
      | Inr (OtherToken, d') \<Rightarrow> read_loop stack acc d'
      | Inr (EndElement n, d') \<Rightarrow>
          (case stack of
             [] \<Rightarrow> Inr (acc, d')
           | (m, attrs, acc0) # stack' \<Rightarrow> read_loop stack' (acc0 @ [Elem m attrs acc]) d'))"
  by pat_completeness auto
termination
  by (relation "measure (\<lambda>(stack, acc, d). length (decInput d))") (auto simp: Token_less)

declare read_loop.simps [simp del]

lemma read_loop_less:
  "read_loop stack acc d = Inr (r, d') \<Longrightarrow> length (decInput d') < length (decInput d)"
proof (induction stack acc d rule: read_loop.induct)
  case (1 stack acc d)
  from "1.prems" obtain t d1 where t: "Token d = Inr (t, d1)"
    by (subst (asm) read_loop.simps) (auto split: sum.splits)
  note less = Token_less [OF t]
  show ?case
  proof (cases t)
    case (StartElement n at)
    with "1.prems" t have "read_loop ((n, at, acc) # stack) [] d1 = Inr (r, d')"
      by (subst (asm) read_loop.simps) simp
    from "1.IH"(1) [OF t refl StartElement this] less show ?thesis by simp
  next
    case (EndElement n)
    then show ?thesis
    proof (cases stack)
      case Nil
      with "1.prems" t EndElement less show ?thesis by (subst (asm) read_loop.simps) simp
    next
      case (Cons x st)
      obtain m at acc0 where x: "x = (m, at, acc0)" by (cases x)
      with "1.prems" t EndElement Cons
      have "read_loop st (acc0 @ [Elem m at acc]) d1 = Inr (r, d')"
        by (subst (asm) read_loop.simps) simp
      from "1.IH"(2) [OF t refl EndElement Cons x [symmetric] refl this] less show ?thesis by simp
    qed
  next
    case (CharData s)
    with "1.prems" t have "read_loop stack (acc @ [Text s]) d1 = Inr (r, d')"
      by (subst (asm) read_loop.simps) simp
    from "1.IH"(3) [OF t refl CharData this] less show ?thesis by simp
  next
    case OtherToken
    with "1.prems" t have "read_loop stack acc d1 = Inr (r, d')"
      by (subst (asm) read_loop.simps) simp
    from "1.IH"(4) [OF t refl OtherToken this] less show ?thesis by simp
  qed
qed

definition read_element :: "decoder \<Rightarrow> error + xml list \<times> decoder" where
  "read_element d = read_loop [] [] d"

lemma read_element_less: "read_element d = Inr (r, d') \<Longrightarrow> length (decInput d') < length (decInput d)"
  unfolding read_element_def by (rule read_loop_less)

text \<open>Reading back the tokens of a tree.\<close>

lemma read_loop_trees:
  assumes "\<And>t d rest stack acc. t \<in> set ts \<Longrightarrow> not_at_eof (decStk d) \<Longrightarrow> decInput d = xml_tokens t @ rest \<Longrightarrow>
      read_loop stack acc d = read_loop stack (acc @ [t]) (d\<lparr>decInput := rest\<rparr>)"
    and "not_at_eof (decStk d)" "decInput d = concat (map xml_tokens ts) @ rest"
  shows "read_loop stack acc d = read_loop stack (acc @ ts) (d\<lparr>decInput := rest\<rparr>)"
  using assms
proof (induction ts arbitrary: d acc)
  case Nil
  then have "d\<lparr>decInput := rest\<rparr> = d" by simp
  then show ?case by simp
next
  case (Cons t ts)
  let ?d = "d\<lparr>decInput := concat (map xml_tokens ts) @ rest\<rparr>"
  have "read_loop stack acc d = read_loop stack (acc @ [t]) ?d"
    using Cons.prems by (intro Cons.prems(1)) simp_all
  also have "\<dots> = read_loop stack ((acc @ [t]) @ ts) (?d\<lparr>decInput := rest\<rparr>)"
    using Cons.prems by (intro Cons.IH) simp_all
  finally show ?case by simp
qed

lemma read_loop_tree:
  "not_at_eof (decStk d) \<Longrightarrow> decInput d = xml_tokens t @ rest \<Longrightarrow>
     read_loop stack acc d = read_loop stack (acc @ [t]) (d\<lparr>decInput := rest\<rparr>)"
proof (induction t arbitrary: d rest stack acc)
  case (Elem n at kids)
  let ?d1 = "d\<lparr>decInput := concat (map xml_tokens kids) @ EndElement n # rest, decStk := StkStart n # decStk d\<rparr>"
  let ?d2 = "?d1\<lparr>decInput := EndElement n # rest\<rparr>"
  have "read_loop stack acc d = read_loop ((n, at, acc) # stack) [] ?d1"
    using Elem.prems by (subst read_loop.simps) simp
  also have "\<dots> = read_loop ((n, at, acc) # stack) ([] @ kids) ?d2"
    by (rule read_loop_trees [OF Elem.IH]) simp_all
  also have "\<dots> = read_loop stack (acc @ [Elem n at kids]) (d\<lparr>decInput := rest\<rparr>)"
    by (subst read_loop.simps) simp
  finally show ?case .
next
  case (Text s)
  then show ?case by (subst read_loop.simps) simp
qed

lemma read_element_tokens:
  assumes "decInput d = concat (map xml_tokens kids) @ EndElement n # rest" "decStk d = StkStart n # stk"
  shows "read_element d = Inr (kids, d\<lparr>decInput := rest, decStk := stk\<rparr>)"
proof -
  have "read_element d = read_loop [] ([] @ kids) (d\<lparr>decInput := EndElement n # rest\<rparr>)"
    unfolding read_element_def by (rule read_loop_trees [OF read_loop_tree]) (simp_all add: assms)
  also have "\<dots> = Inr (kids, d\<lparr>decInput := rest, decStk := stk\<rparr>)"
    by (subst read_loop.simps) (simp add: assms(2))
  finally show ?thesis .
qed

subsection \<open>DecodeElement\<close>

text \<open>
  \<^verbatim>\<open>DecodeElement\<close> into a type without an \<^verbatim>\<open>UnmarshalXML\<close> of its own: the whole element is
  read, and its contents are stored by the function \<open>f\<close> that the type's field tags stand for.
\<close>

definition decode_struct :: "(xml \<Rightarrow> error + 'a) \<Rightarrow> xname \<Rightarrow> xattr list \<Rightarrow> decoder \<Rightarrow> error + 'a \<times> decoder" where
  "decode_struct f n attrs d =
     bind_result (read_element d) (\<lambda>(kids, d'). bind_result (f (Elem n attrs kids)) (\<lambda>v. Inr (v, d')))"

lemma decode_struct_less:
  "decode_struct f n at d = Inr (v, d') \<Longrightarrow> length (decInput d') < length (decInput d)"
  by (auto simp: decode_struct_def bind_result_Inr_iff dest: read_element_less)

text \<open>
  \<^verbatim>\<open>unmarshalInterface\<close>: the custom \<^verbatim>\<open>UnmarshalXML\<close> of a type, between \<^verbatim>\<open>pushEOF\<close> and
  \<^verbatim>\<open>popEOF\<close>.
\<close>

fun pushEOF :: "stk_item list \<Rightarrow> stk_item list" where
  "pushEOF [] = []"
| "pushEOF (StkStart n # s) = StkStart n # StkEOF # s"
| "pushEOF (StkEOF # s) = StkEOF # pushEOF s"

definition unmarshalInterface ::
  "string \<Rightarrow> (xname \<Rightarrow> xattr list \<Rightarrow> decoder \<Rightarrow> error + 'a \<times> decoder) \<Rightarrow>
     xname \<Rightarrow> xattr list \<Rightarrow> decoder \<Rightarrow> error + 'a \<times> decoder" where
  "unmarshalInterface receiver unm n attrs d =
     bind_result (unm n attrs (d\<lparr>decStk := pushEOF (decStk d)\<rparr>)) (\<lambda>(v, d').
       case decStk d' of
         StkEOF # s \<Rightarrow> Inr (v, d'\<lparr>decStk := s\<rparr>)
       | _ \<Rightarrow> Inl (LibErr (''xml: '' @ receiver @ ''.UnmarshalXML did not consume entire <'' @ nLocal n @ ''> element'')))"

text \<open>
  A custom decoder that only moves forward stays one under \<^verbatim>\<open>unmarshalInterface\<close>.
\<close>

definition forward :: "(xname \<Rightarrow> xattr list \<Rightarrow> decoder \<Rightarrow> error + 'a \<times> decoder) \<Rightarrow> bool" where
  "forward unm \<longleftrightarrow> (\<forall>n at d v d'. unm n at d = Inr (v, d') \<longrightarrow> length (decInput d') < length (decInput d))"

lemma forwardD: "forward unm \<Longrightarrow> unm n at d = Inr (v, d') \<Longrightarrow> length (decInput d') < length (decInput d)"
  by (auto simp: forward_def)

lemma forward_decode_struct: "forward (decode_struct f)"
  using decode_struct_less by (fastforce simp: forward_def)

lemma unmarshalInterface_Inr:
  assumes "unmarshalInterface r unm n at d = Inr (v, d')"
  obtains d1 where "unm n at (d\<lparr>decStk := pushEOF (decStk d)\<rparr>) = Inr (v, d1)" "decStk d1 = StkEOF # decStk d'"
    "decInput d' = decInput d1"
proof -
  from assms obtain v1 d1 where u: "unm n at (d\<lparr>decStk := pushEOF (decStk d)\<rparr>) = Inr (v1, d1)"
    and k: "(case decStk d1 of StkEOF # s \<Rightarrow> Inr (v1, d1\<lparr>decStk := s\<rparr>)
       | _ \<Rightarrow> Inl (LibErr (''xml: '' @ r @ ''.UnmarshalXML did not consume entire <'' @ nLocal n @ ''> element'')))
       = Inr (v, d')"
    by (auto simp: unmarshalInterface_def bind_result_Inr_iff)
  show thesis
  proof (cases "decStk d1")
    case Nil
    with k show ?thesis by simp
  next
    case (Cons a s)
    with k show ?thesis using u that [of d1] by (cases a) auto
  qed
qed

lemma forward_unmarshalInterface: "forward unm \<Longrightarrow> forward (unmarshalInterface r unm)"
  unfolding forward_def [of "unmarshalInterface r unm"]
  by (auto elim!: unmarshalInterface_Inr dest: forwardD)

text \<open>
  When a custom decoder, started inside the element \<open>n\<close>, reads exactly the tokens \<open>body\<close>
  and the end of the element, \<^verbatim>\<open>DecodeElement\<close> returns its value and the decoder after the
  element.
\<close>

lemma unmarshalInterface_ok:
  assumes "decStk d = StkStart n # stk"
    and "unm n at (d\<lparr>decStk := StkStart n # StkEOF # stk\<rparr>) = Inr (v, d\<lparr>decInput := rest, decStk := StkEOF # stk\<rparr>)"
  shows "unmarshalInterface r unm n at d = Inr (v, d\<lparr>decInput := rest, decStk := stk\<rparr>)"
  using assms by (simp add: unmarshalInterface_def)

subsection \<open>Fields of a struct\<close>

text \<open>
  How \<^verbatim>\<open>unmarshal\<close> stores the parts of an element by field tag: an attribute by its local name
  (the last one wins), the character data of an element, and the child elements of a name.
\<close>

definition attr_of :: "string \<Rightarrow> xattr list \<Rightarrow> string" where
  "attr_of l attrs = fold (\<lambda>a v. if nLocal (fst a) = l then snd a else v) attrs []"

definition has_attr :: "string \<Rightarrow> xattr list \<Rightarrow> bool" where
  "has_attr l attrs \<longleftrightarrow> (\<exists>a \<in> set attrs. nLocal (fst a) = l)"

fun chardata :: "xml list \<Rightarrow> string" where
  "chardata [] = []"
| "chardata (Text s # ts) = s @ chardata ts"
| "chardata (Elem n at kids # ts) = chardata ts"

fun is_elem :: "(xname \<Rightarrow> bool) \<Rightarrow> xml \<Rightarrow> bool" where
  "is_elem P (Elem n at kids) = P n"
| "is_elem P (Text s) = False"

definition child_elems :: "(xname \<Rightarrow> bool) \<Rightarrow> xml list \<Rightarrow> xml list" where
  "child_elems P kids = filter (is_elem P) kids"

text \<open>A \<^verbatim>\<open>string\<close> field: every matching child stores its text, so the last one stays.\<close>

fun xml_kids :: "xml \<Rightarrow> xml list" where
  "xml_kids (Elem n at kids) = kids"
| "xml_kids (Text s) = []"

definition string_field :: "(xname \<Rightarrow> bool) \<Rightarrow> xml list \<Rightarrow> string" where
  "string_field P kids = fold (\<lambda>e v. chardata (xml_kids e)) (child_elems P kids) []"

definition decode_string :: "xml \<Rightarrow> error + string" where
  "decode_string e = Inr (chardata (xml_kids e))"

lemma attr_of_simps [simp]:
  "attr_of l [] = []"
  "attr_of l (as @ [a]) = (if nLocal (fst a) = l then snd a else attr_of l as)"
  by (simp_all add: attr_of_def)

declare decode_string_def [model_defs]
end
