(* ===== verification/XmlNode.thy ===== *)
theory XmlNode
  imports Xml
begin

text \<open>
  Generic XML content, \<^verbatim>\<open>stanza/node.go\<close>: \<open>Node\<close>, its decoder with the bound on the depth
  of nesting, and its encoder.
\<close>

datatype node = Node (nodeXMLName: xname) (nodeAttrs: "xattr list") (nodeContent: string) (nodeNodes: "node list")

definition xmlElementMaxDepth :: nat where
  "xmlElementMaxDepth = 128"

definition Node_Namespace :: "node \<Rightarrow> string" where
  "Node_Namespace n = nSpace (nodeXMLName n)"

subsection \<open>Decoding\<close>

definition not_xmlns :: "xattr \<Rightarrow> bool" where
  "not_xmlns a \<longleftrightarrow> nLocal (fst a) \<noteq> ''xmlns''"

text \<open>
  \<^verbatim>\<open>unmarshalXMLDepth\<close>: \<open>node_loop\<close> is its loop over the tokens, with the children and the
  content read so far; a child starts a loop of its own, one level deeper.
\<close>

function (domintros) node_loop ::
  "nat \<Rightarrow> xname \<Rightarrow> xattr list \<Rightarrow> node list \<Rightarrow> string \<Rightarrow> decoder \<Rightarrow> error + node \<times> decoder" where
  "node_loop depth name attrs nodes content d =
     (case Token d of
        Inl e \<Rightarrow> Inl e
      | Inr (StartElement n at, d1) \<Rightarrow>
          (if xmlElementMaxDepth \<le> depth + 1 then Inl (Err ''reached maximum depth of XML stream'')
           else
             (case node_loop (depth + 1) n (filter not_xmlns at) [] [] d1 of
                Inl e \<Rightarrow> Inl e
              | Inr (child, d2) \<Rightarrow> node_loop depth name attrs (nodes @ [child]) content d2))
      | Inr (EndElement n, d1) \<Rightarrow>
          (if n = name then Inr (Node name attrs content nodes, d1)
           else node_loop depth name attrs nodes content d1)
      | Inr (CharData s, d1) \<Rightarrow> node_loop depth name attrs nodes (content @ s) d1
      | Inr (OtherToken, d1) \<Rightarrow> node_loop depth name attrs nodes content d1)"
  by pat_completeness auto

lemma node_loop_less_dom:
  "node_loop_dom (depth, name, attrs, nodes, content, d) \<Longrightarrow>
     node_loop depth name attrs nodes content d = Inr (v, d') \<Longrightarrow> length (decInput d') < length (decInput d)"
proof (induction arbitrary: v d' rule: node_loop.pinduct)
  case (1 depth name attrs nodes content d)
  from "1.prems" obtain t d1 where t: "Token d = Inr (t, d1)"
    by (simp add: node_loop.psimps [OF "1.hyps"] split: sum.splits) (metis surj_pair)
  note less = Token_less [OF t]
  show ?case
  proof (cases t)
    case (StartElement n at)
    with "1.prems" t obtain child d2 where deep: "\<not> xmlElementMaxDepth \<le> depth + 1"
      and c: "node_loop (depth + 1) n (filter not_xmlns at) [] [] d1 = Inr (child, d2)"
      and r: "node_loop depth name attrs (nodes @ [child]) content d2 = Inr (v, d')"
      by (auto simp: node_loop.psimps [OF "1.hyps"] split: sum.splits if_splits)
    from "1.IH"(1) [OF t refl StartElement deep c]
      "1.IH"(2) [OF t refl StartElement deep c refl r] less
    show ?thesis by simp
  next
    case (EndElement n)
    then show ?thesis
      using "1.prems" t less "1.IH"(3) [OF t refl EndElement]
      by (fastforce simp: node_loop.psimps [OF "1.hyps"] split: if_splits)
  next
    case (CharData s)
    with "1.prems" t have "node_loop depth name attrs nodes (content @ s) d1 = Inr (v, d')"
      by (simp add: node_loop.psimps [OF "1.hyps"])
    from "1.IH"(4) [OF t refl CharData this] less show ?thesis by simp
  next
    case OtherToken
    with "1.prems" t have "node_loop depth name attrs nodes content d1 = Inr (v, d')"
      by (simp add: node_loop.psimps [OF "1.hyps"])
    from "1.IH"(5) [OF t refl OtherToken this] less show ?thesis by simp
  qed
qed

termination node_loop
proof (relation "measure (\<lambda>(depth, name, attrs, nodes, content, d). length (decInput d))", goal_cases)
  case (3 depth name attrs nodes content d b x y n at ba child d2)
  then have "Token d = Inr (StartElement n at, y)" by simp
  with 3 node_loop_less_dom Token_less show ?case by fastforce
qed (auto dest!: Token_less)

lemma node_loop_dom_all: "node_loop_dom (depth, name, attrs, nodes, content, d)"
proof (induction depth name attrs nodes content d rule: node_loop.induct)
  case (1 depth name attrs nodes content d)
  show ?case
  proof (rule node_loop.domintros, goal_cases)
    case (1 d1 n at)
    then show ?case using "1.IH"(1) by simp
  next
    case (2 d1 n at child d2)
    then show ?case using "1.IH"(2) by simp
  next
    case (3 d1 n)
    then show ?case using "1.IH"(3) by simp
  next
    case (4 d1 s)
    then show ?case using "1.IH"(4) by simp
  next
    case (5 d1)
    then show ?case using "1.IH"(5) by simp
  qed
qed

declare node_loop.simps [simp del]

lemma node_loop_less:
  "node_loop depth name attrs nodes content d = Inr (v, d') \<Longrightarrow> length (decInput d') < length (decInput d)"
  using node_loop_dom_all by (blast intro: node_loop_less_dom)

definition Node_unmarshalXMLDepth ::
  "nat \<Rightarrow> xname \<Rightarrow> xattr list \<Rightarrow> decoder \<Rightarrow> error + node \<times> decoder" where
  "Node_unmarshalXMLDepth depth name attrs d =
     (if xmlElementMaxDepth \<le> depth then Inl (Err ''reached maximum depth of XML stream'')
      else node_loop depth name (filter not_xmlns attrs) [] [] d)"

definition Node_UnmarshalXML :: "xname \<Rightarrow> xattr list \<Rightarrow> decoder \<Rightarrow> error + node \<times> decoder" where
  "Node_UnmarshalXML name attrs d = Node_unmarshalXMLDepth 1 name attrs d"

definition DecodeNode :: "xname \<Rightarrow> xattr list \<Rightarrow> decoder \<Rightarrow> error + node \<times> decoder" where
  "DecodeNode = unmarshalInterface ''*stanza.Node'' Node_UnmarshalXML"

lemma forward_Node_UnmarshalXML: "forward Node_UnmarshalXML"
  by (auto simp: forward_def Node_UnmarshalXML_def Node_unmarshalXMLDepth_def dest: node_loop_less split: if_splits)

lemma forward_DecodeNode: "forward DecodeNode"
  unfolding DecodeNode_def by (rule forward_unmarshalInterface [OF forward_Node_UnmarshalXML])

subsection \<open>The bound on the depth\<close>

fun node_height :: "node \<Rightarrow> nat" where
  "node_height (Node nm at c ks) = Suc (fold max (map node_height ks) 0)"

lemma fold_max_le: "fold max xs (a :: nat) \<le> m \<longleftrightarrow> a \<le> m \<and> (\<forall>x \<in> set xs. x \<le> m)"
  by (induction xs arbitrary: a) auto

lemma node_height_le: "node_height n \<le> Suc m \<longleftrightarrow> (\<forall>k \<in> set (nodeNodes n). node_height k \<le> m)"
  by (cases n) (simp add: fold_max_le)

lemma node_loop_height:
  "node_loop depth name attrs nodes content d = Inr (v, d') \<Longrightarrow> depth < xmlElementMaxDepth \<Longrightarrow>
     (\<forall>k \<in> set nodes. depth + 1 + node_height k \<le> xmlElementMaxDepth) \<Longrightarrow>
     depth + node_height v \<le> xmlElementMaxDepth"
proof (induction depth name attrs nodes content d arbitrary: v d' rule: node_loop.induct)
  case (1 depth name attrs nodes content d)
  from "1.prems"(1) obtain t d1 where t: "Token d = Inr (t, d1)"
    by (subst (asm) node_loop.simps) (auto split: sum.splits)
  show ?case
  proof (cases t)
    case (StartElement n at)
    with "1.prems"(1) t obtain child d2 where deep: "\<not> xmlElementMaxDepth \<le> depth + 1"
      and c: "node_loop (depth + 1) n (filter not_xmlns at) [] [] d1 = Inr (child, d2)"
      and r: "node_loop depth name attrs (nodes @ [child]) content d2 = Inr (v, d')"
      by (subst (asm) node_loop.simps) (auto split: sum.splits if_splits)
    have "depth + 1 + node_height child \<le> xmlElementMaxDepth"
      using "1.IH"(1) [OF t refl StartElement deep c] deep by simp
    then show ?thesis
      using "1.IH"(2) [OF t refl StartElement deep c refl r] "1.prems"(2,3) by simp
  next
    case (EndElement n)
    show ?thesis
    proof (cases "n = name")
      case True
      with "1.prems"(1) t EndElement have "v = Node name attrs content nodes"
        by (subst (asm) node_loop.simps) simp
      moreover have "\<forall>k \<in> set nodes. node_height k \<le> xmlElementMaxDepth - depth - 1"
        using "1.prems"(3) by fastforce
      moreover have "xmlElementMaxDepth - depth = Suc (xmlElementMaxDepth - depth - 1)"
        using "1.prems"(2) by simp
      ultimately have "node_height v \<le> xmlElementMaxDepth - depth"
        by (metis node.sel(4) node_height_le)
      then show ?thesis using "1.prems"(2) by simp
    next
      case False
      with "1.prems"(1) t EndElement have "node_loop depth name attrs nodes content d1 = Inr (v, d')"
        by (subst (asm) node_loop.simps) simp
      from "1.IH"(3) [OF t refl EndElement False this "1.prems"(2,3)] show ?thesis .
    qed
  next
    case (CharData s)
    with "1.prems"(1) t have "node_loop depth name attrs nodes (content @ s) d1 = Inr (v, d')"
      by (subst (asm) node_loop.simps) simp
    from "1.IH"(4) [OF t refl CharData this "1.prems"(2,3)] show ?thesis .
  next
    case OtherToken
    with "1.prems"(1) t have "node_loop depth name attrs nodes content d1 = Inr (v, d')"
      by (subst (asm) node_loop.simps) simp
    from "1.IH"(5) [OF t refl OtherToken this "1.prems"(2,3)] show ?thesis .
  qed
qed

subsection \<open>Encoding\<close>

text \<open>The tokens that \<^verbatim>\<open>MarshalXML\<close> hands to the encoder, which skips attributes without a name.\<close>

fun node_tokens :: "node \<Rightarrow> xtoken list" where
  "node_tokens (Node nm at c ks) =
     StartElement nm (filter (\<lambda>a. nLocal (fst a) \<noteq> []) at) # concat (map node_tokens ks)
       @ (if c \<noteq> [] then [CharData c] else []) @ [EndElement nm]"

fun node_named :: "node \<Rightarrow> bool" where
  "node_named (Node nm at c ks) \<longleftrightarrow> nLocal nm \<noteq> [] \<and> list_all node_named ks"

definition Node_MarshalXML :: "node \<Rightarrow> error + xtoken list" where
  "Node_MarshalXML n =
     (if node_named n then Inr (node_tokens n) else Inl (LibErr ''xml: start tag with no name''))"

text \<open>
  What a decoder at the other end sees of tokens that an encoder wrote: the encoder declares
  the name space of an element that has one as its default (\<^verbatim>\<open>xmlns\<close>, one more attribute),
  and an element without one takes the default of the element around it (\<open>ns\<close> lists the
  defaults, innermost first). Attributes are those without a name space.
\<close>

fun rescan :: "string list \<Rightarrow> xtoken list \<Rightarrow> xtoken list" where
  "rescan ns [] = []"
| "rescan ns (StartElement n at # ts) =
     (if nSpace n = []
      then let sp = (case ns of [] \<Rightarrow> [] | s # _ \<Rightarrow> s) in
        StartElement (XName sp (nLocal n)) at # rescan (sp # ns) ts
      else StartElement n ((XName [] ''xmlns'', nSpace n) # at) # rescan (nSpace n # ns) ts)"
| "rescan ns (EndElement n # ts) =
     EndElement (XName (case ns of [] \<Rightarrow> nSpace n | s # _ \<Rightarrow> s) (nLocal n)) # rescan (tl ns) ts"
| "rescan ns (t # ts) = t # rescan ns ts"

text \<open>\<^verbatim>\<open>xml.Unmarshal\<close>: the first element of a text.\<close>

definition new_decoder :: "xtoken list \<Rightarrow> decoder" where
  "new_decoder ts = \<lparr>decInput = ts, decErr = IoEOF, decStk = []\<rparr>"

function next_start :: "decoder \<Rightarrow> error + (xname \<times> xattr list) \<times> decoder" where
  "next_start d =
     (case Token d of
        Inl e \<Rightarrow> Inl e
      | Inr (StartElement n at, d') \<Rightarrow> Inr ((n, at), d')
      | Inr (_, d') \<Rightarrow> next_start d')"
  by pat_completeness auto
termination
  by (relation "measure (\<lambda>d. length (decInput d))") (auto simp: Token_less)

declare next_start.simps [simp del]

definition Unmarshal ::
  "(xname \<Rightarrow> xattr list \<Rightarrow> decoder \<Rightarrow> error + 'a \<times> decoder) \<Rightarrow> xtoken list \<Rightarrow> error + 'a" where
  "Unmarshal unm ts =
     bind_result (next_start (new_decoder ts)) (\<lambda>((n, at), d).
       bind_result (unm n at d) (\<lambda>(v, _). Inr v))"

subsection \<open>Round trip\<close>

text \<open>
  The nodes that an encoder can write without loss below an element of name space \<open>sp\<close>:
  every element has a name, no element leaves the name space of the element around it for
  none, and no attribute has a name space or is named \<^verbatim>\<open>xmlns\<close>.
\<close>

definition plain_attr :: "xattr \<Rightarrow> bool" where
  "plain_attr a \<longleftrightarrow> nSpace (fst a) = [] \<and> nLocal (fst a) \<noteq> [] \<and> not_xmlns a"

fun node_plain :: "string \<Rightarrow> node \<Rightarrow> bool" where
  "node_plain sp (Node nm at c ks) \<longleftrightarrow>
     nLocal nm \<noteq> [] \<and> (nSpace nm = [] \<longrightarrow> sp = []) \<and> list_all plain_attr at
     \<and> list_all (node_plain (nSpace nm)) ks"

definition wire_attrs :: "xname \<Rightarrow> xattr list \<Rightarrow> xattr list" where
  "wire_attrs nm at = (if nSpace nm = [] then at else (XName [] ''xmlns'', nSpace nm) # at)"

fun node_wire :: "node \<Rightarrow> xtoken list" where
  "node_wire (Node nm at c ks) =
     StartElement nm (wire_attrs nm at) # concat (map node_wire ks)
       @ (if c \<noteq> [] then [CharData c] else []) @ [EndElement nm]"

lemma node_plain_named: "node_plain sp n \<Longrightarrow> node_named n"
proof (induction n arbitrary: sp)
  case (Node nm at c ks)
  then show ?case by (auto simp: list_all_iff)
qed

lemma rescan_nodes:
  assumes "\<And>n r. n \<in> set ks \<Longrightarrow> rescan ns (node_tokens n @ r) = node_wire n @ rescan ns r"
  shows "rescan ns (concat (map node_tokens ks) @ r) = concat (map node_wire ks) @ rescan ns r"
  using assms by (induction ks) auto

lemma rescan_node:
  "node_plain (case ns of [] \<Rightarrow> [] | s # _ \<Rightarrow> s) n \<Longrightarrow>
     rescan ns (node_tokens n @ r) = node_wire n @ rescan ns r"
proof (induction n arbitrary: ns r)
  case (Node nm at c ks)
  have at: "filter (\<lambda>a. nLocal (fst a) \<noteq> []) at = at"
    using Node.prems by (auto simp: list_all_iff plain_attr_def intro: filter_True)
  have kids: "rescan (nSpace nm # ns) (concat (map node_tokens ks) @ x)
      = concat (map node_wire ks) @ rescan (nSpace nm # ns) x" for x
    using Node by (intro rescan_nodes) (auto simp: list_all_iff)
  have nm: "XName (nSpace nm) (nLocal nm) = nm" by simp
  show ?case
  proof (cases "nSpace nm = []")
    case True
    moreover from this have "(case ns of [] \<Rightarrow> [] | s # _ \<Rightarrow> s) = []"
      using Node.prems by (simp split: list.splits)
    moreover have "XName [] (nLocal nm) = nm" using True nm by simp
    ultimately show ?thesis
      using kids by (simp add: at wire_attrs_def)
  next
    case False
    with kids nm show ?thesis by (simp add: at wire_attrs_def)
  qed
qed

lemma filter_wire_attrs: "list_all plain_attr at \<Longrightarrow> filter not_xmlns (wire_attrs nm at) = at"
  by (auto simp: wire_attrs_def plain_attr_def list_all_iff not_xmlns_def intro: filter_True)

text \<open>
  Decoding the inside of an element that was written by the encoder: first its children, then
  its content and its end.
\<close>

definition decodes_node :: "node \<Rightarrow> bool" where
  "decodes_node n \<longleftrightarrow>
     (\<forall>depth d rest stk. depth + node_height n \<le> xmlElementMaxDepth \<longrightarrow>
        decInput d = tl (node_wire n) @ rest \<longrightarrow> decStk d = StkStart (nodeXMLName n) # stk \<longrightarrow>
        node_loop depth (nodeXMLName n) (nodeAttrs n) [] [] d = Inr (n, d\<lparr>decInput := rest, decStk := stk\<rparr>))"

lemma node_loop_children:
  assumes "\<And>k. k \<in> set ks \<Longrightarrow> decodes_node k \<and> depth + 1 + node_height k \<le> xmlElementMaxDepth
        \<and> list_all plain_attr (nodeAttrs k)"
    and "decInput d = concat (map node_wire ks) @ rest" "not_at_eof (decStk d)"
  shows "node_loop depth nm at nodes c d = node_loop depth nm at (nodes @ ks) c (d\<lparr>decInput := rest\<rparr>)"
  using assms
proof (induction ks arbitrary: nodes d)
  case Nil
  then have "d\<lparr>decInput := rest\<rparr> = d" by simp
  then show ?case by simp
next
  case (Cons k ks)
  obtain knm kat kc kks where k: "k = Node knm kat kc kks" by (cases k)
  let ?d1 = "d\<lparr>decInput := tl (node_wire k) @ concat (map node_wire ks) @ rest,
               decStk := StkStart knm # decStk d\<rparr>"
  let ?d2 = "d\<lparr>decInput := concat (map node_wire ks) @ rest\<rparr>"
  have h: "decodes_node k" "depth + 1 + node_height k \<le> xmlElementMaxDepth" "list_all plain_attr kat"
    using Cons.prems(1) [of k] k by simp_all
  have tok: "Token d = Inr (StartElement knm (wire_attrs knm kat), ?d1)"
    using Cons.prems(2,3) k by simp
  have loop: "node_loop (depth + 1) knm kat [] [] ?d1 = Inr (k, ?d2)"
    using h(1,2) [unfolded decodes_node_def] k by simp
  have "node_height k > 0" using k by simp
  then have "\<not> xmlElementMaxDepth \<le> depth + 1" using h(2) by simp
  then have "node_loop depth nm at nodes c d = node_loop depth nm at (nodes @ [k]) c ?d2"
    using tok loop by (subst node_loop.simps) (simp add: filter_wire_attrs [OF h(3)])
  also have "\<dots> = node_loop depth nm at ((nodes @ [k]) @ ks) c (?d2\<lparr>decInput := rest\<rparr>)"
    using Cons.prems by (intro Cons.IH) simp_all
  finally show ?case by simp
qed

lemma decodes_node: "node_plain sp n \<Longrightarrow> decodes_node n"
proof (induction n arbitrary: sp)
  case (Node nm at c ks)
  show ?case
    unfolding decodes_node_def
  proof (intro allI impI)
    fix depth and d :: decoder and rest stk
    assume h: "depth + node_height (Node nm at c ks) \<le> xmlElementMaxDepth"
      and i: "decInput d = tl (node_wire (Node nm at c ks)) @ rest"
      and s: "decStk d = StkStart (nodeXMLName (Node nm at c ks)) # stk"
    let ?tail = "(if c \<noteq> [] then [CharData c] else []) @ EndElement nm # rest"
    have kids: "decodes_node k \<and> depth + 1 + node_height k \<le> xmlElementMaxDepth
        \<and> list_all plain_attr (nodeAttrs k)" if "k \<in> set ks" for k
    proof -
      have "node_plain (nSpace nm) k" using Node.prems that by (simp add: list_all_iff)
      moreover from this have "list_all plain_attr (nodeAttrs k)" by (cases k) simp
      moreover have "node_height k \<le> fold max (map node_height ks) 0"
        using fold_max_le [of "map node_height ks" 0 "fold max (map node_height ks) 0"] that by simp
      ultimately show ?thesis using Node.IH [OF that] h by simp
    qed
    have "node_loop depth nm at [] [] d = node_loop depth nm at ([] @ ks) [] (d\<lparr>decInput := ?tail\<rparr>)"
      using i s by (intro node_loop_children kids) simp_all
    also have "\<dots> = Inr (Node nm at c ks, d\<lparr>decInput := rest, decStk := stk\<rparr>)"
    proof (cases "c = []")
      case True
      with s show ?thesis by (subst node_loop.simps) simp
    next
      case False
      then have "node_loop depth nm at ks [] (d\<lparr>decInput := ?tail\<rparr>)
          = node_loop depth nm at ks c (d\<lparr>decInput := EndElement nm # rest\<rparr>)"
        using s by (subst node_loop.simps) simp
      also have "\<dots> = Inr (Node nm at c ks, d\<lparr>decInput := rest, decStk := stk\<rparr>)"
        using s by (subst node_loop.simps) simp
      finally show ?thesis by simp
    qed
    finally show "node_loop depth (nodeXMLName (Node nm at c ks)) (nodeAttrs (Node nm at c ks)) [] [] d
        = Inr (Node nm at c ks, d\<lparr>decInput := rest, decStk := stk\<rparr>)" by simp
  qed
qed

lemma DecodeNode_wire:
  assumes "node_plain sp n" "node_height n < xmlElementMaxDepth"
    and "decInput d = tl (node_wire n) @ rest" "decStk d = StkStart (nodeXMLName n) # stk"
  shows "DecodeNode (nodeXMLName n) (wire_attrs (nodeXMLName n) (nodeAttrs n)) d
    = Inr (n, d\<lparr>decInput := rest, decStk := stk\<rparr>)"
  unfolding DecodeNode_def
proof (rule unmarshalInterface_ok)
  have a: "list_all plain_attr (nodeAttrs n)" using assms(1) by (cases n) simp
  show "Node_UnmarshalXML (nodeXMLName n) (wire_attrs (nodeXMLName n) (nodeAttrs n))
      (d\<lparr>decStk := StkStart (nodeXMLName n) # StkEOF # stk\<rparr>)
      = Inr (n, d\<lparr>decInput := rest, decStk := StkEOF # stk\<rparr>)"
    using decodes_node [OF assms(1), unfolded decodes_node_def, rule_format,
        of 1 "d\<lparr>decStk := StkStart (nodeXMLName n) # StkEOF # stk\<rparr>" rest "StkEOF # stk"] assms(2,3)
    by (simp add: Node_UnmarshalXML_def Node_unmarshalXMLDepth_def filter_wire_attrs [OF a] xmlElementMaxDepth_def)
qed (rule assms(4))

text \<open>A node that nests too deeply is refused at its first element beyond the bound.\<close>

definition too_deep :: error where
  "too_deep = Err ''reached maximum depth of XML stream''"

lemma node_height_child: "k \<in> set ks \<Longrightarrow> node_height k < node_height (Node nm at c ks)"
  using fold_max_le [of "map node_height ks" 0 "fold max (map node_height ks) 0"] by (auto simp: less_Suc_eq_le)

lemma node_height_deep:
  assumes "Suc m < node_height (Node nm at c ks)"
  obtains k where "k \<in> set ks" "m < node_height k"
  using assms fold_max_le [of "map node_height ks" 0 m] by (auto simp: not_le)

lemma node_loop_too_deep:
  "node_plain sp n \<Longrightarrow> xmlElementMaxDepth < depth + node_height n \<Longrightarrow> depth < xmlElementMaxDepth \<Longrightarrow>
     decInput d = tl (node_wire n) @ rest \<Longrightarrow> decStk d = StkStart (nodeXMLName n) # stk \<Longrightarrow>
     node_loop depth (nodeXMLName n) (nodeAttrs n) [] [] d = Inl too_deep"
proof (induction n arbitrary: sp depth d rest stk)
  case (Node nm at c ks)
  let ?fits = "\<lambda>k. depth + 1 + node_height k \<le> xmlElementMaxDepth"
  let ?m = "xmlElementMaxDepth - depth - 1"
  have plain: "node_plain (nSpace nm) k" "list_all plain_attr (nodeAttrs k)" if "k \<in> set ks" for k
  proof -
    show "node_plain (nSpace nm) k" using Node.prems(1) that by (simp add: list_all_iff)
    then show "list_all plain_attr (nodeAttrs k)" by (cases k) simp
  qed
  have "Suc ?m < node_height (Node nm at c ks)" using Node.prems(2,3) by simp
  then obtain k0 where "k0 \<in> set ks" "\<not> ?fits k0"
    by (rule node_height_deep) (use Node.prems(3) in auto)
  then have "\<exists>k0 \<in> set ks. \<not> ?fits k0" by blast
  then obtain ks1 k ks2 where ks: "ks = ks1 @ k # ks2" "\<not> ?fits k" "\<forall>x \<in> set ks1. ?fits x"
    using split_list_first_prop [of ks "\<lambda>k. \<not> ?fits k"] by blast
  obtain knm kat kc kks where k: "k = Node knm kat kc kks" by (cases k)
  define rest1 where "rest1 = concat (map node_wire (k # ks2)) @ (if c \<noteq> [] then [CharData c] else []) @ EndElement nm # rest"
  let ?rest2 = "concat (map node_wire ks2) @ (if c \<noteq> [] then [CharData c] else []) @ EndElement nm # rest"
  have "node_loop depth nm at [] [] d = node_loop depth nm at ([] @ ks1) [] (d\<lparr>decInput := rest1\<rparr>)"
  proof (rule node_loop_children)
    show "decodes_node x \<and> ?fits x \<and> list_all plain_attr (nodeAttrs x)" if "x \<in> set ks1" for x
      using that ks plain [of x] decodes_node [of "nSpace nm" x] by auto
  qed (use Node.prems(4,5) ks(1) in \<open>simp_all add: rest1_def\<close>)
  also have "\<dots> = Inl too_deep"
  proof -
    let ?d1 = "d\<lparr>decInput := tl (node_wire k) @ ?rest2, decStk := StkStart knm # StkStart nm # stk\<rparr>"
    have tok: "Token (d\<lparr>decInput := rest1\<rparr>) = Inr (StartElement knm (wire_attrs knm kat), ?d1)"
      using Node.prems(5) k by (simp add: rest1_def)
    have ka: "filter not_xmlns (wire_attrs knm kat) = kat"
      using plain(2) [of k] ks(1) k by (simp add: filter_wire_attrs)
    show ?thesis
    proof (cases "xmlElementMaxDepth \<le> depth + 1")
      case True
      then show ?thesis by (subst node_loop.simps) (simp add: tok too_deep_def)
    next
      case False
      have "node_loop (depth + 1) (nodeXMLName k) (nodeAttrs k) [] [] ?d1 = Inl too_deep"
        by (rule Node.IH [where sp = "nSpace nm" and rest = ?rest2 and stk = "StkStart nm # stk"])
          (use ks False k plain(1) [of k] in auto)
      then have "node_loop (depth + 1) knm kat [] [] ?d1 = Inl too_deep" by (simp add: k)
      then show ?thesis using False by (subst node_loop.simps) (simp add: tok ka)
    qed
  qed
  finally show ?case by simp
qed

text \<open>Whatever the tokens are, also those of no tree, a decoded node stays below the bound.\<close>

lemma Node_UnmarshalXML_height:
  assumes "Node_UnmarshalXML name attrs d = Inr (n, d')"
  shows "node_height n < xmlElementMaxDepth"
proof -
  have "node_loop 1 name (filter not_xmlns attrs) [] [] d = Inr (n, d')"
    using assms by (simp add: Node_UnmarshalXML_def Node_unmarshalXMLDepth_def xmlElementMaxDepth_def)
  from node_loop_height [OF this] show ?thesis
    by (simp add: xmlElementMaxDepth_def)
qed

lemma Unmarshal_node_tokens:
  assumes "node_plain [] n"
  shows "Unmarshal DecodeNode (rescan [] (node_tokens n)) =
    (if node_height n < xmlElementMaxDepth then Inr n else Inl too_deep)"
proof -
  let ?nm = "nodeXMLName n" and ?at = "nodeAttrs n"
  let ?d = "\<lparr>decInput = tl (node_wire n) @ [], decErr = IoEOF, decStk = StkStart ?nm # []\<rparr>"
  have a: "list_all plain_attr ?at" using assms by (cases n) simp
  have "rescan [] (node_tokens n) = node_wire n"
    using rescan_node [of "[]" n "[]"] assms by simp
  moreover have "node_wire n = StartElement ?nm (wire_attrs ?nm ?at) # tl (node_wire n)"
    by (cases n) simp
  ultimately have start: "next_start (new_decoder (rescan [] (node_tokens n))) = Inr ((?nm, wire_attrs ?nm ?at), ?d)"
    by (subst next_start.simps) (simp add: new_decoder_def)
  show ?thesis
  proof (cases "node_height n < xmlElementMaxDepth")
    case True
    then show ?thesis
      using DecodeNode_wire [OF assms True, of ?d "[]" "[]"] start by (simp add: Unmarshal_def)
  next
    case False
    then have "node_loop 1 ?nm ?at [] [] (?d\<lparr>decStk := StkStart ?nm # StkEOF # []\<rparr>) = Inl too_deep"
      by (intro node_loop_too_deep [OF assms]) (simp_all add: xmlElementMaxDepth_def)
    then show ?thesis
      using start False
      by (simp add: Unmarshal_def DecodeNode_def unmarshalInterface_def Node_UnmarshalXML_def
          Node_unmarshalXMLDepth_def filter_wire_attrs [OF a] xmlElementMaxDepth_def)
  qed
qed

text \<open>
  C31. Encoding a node and decoding the text again gives the same node when its nesting is
  below the bound, and the depth error otherwise, for every node whose names the encoder can
  write without loss.
\<close>

theorem Node_roundtrip:
  assumes "node_plain [] n"
  shows "\<exists>ts. Node_MarshalXML n = Inr ts \<and> Unmarshal DecodeNode (rescan [] ts) =
    (if node_height n < xmlElementMaxDepth then Inr n
     else Inl (Err ''reached maximum depth of XML stream''))"
  using Unmarshal_node_tokens [OF assms] node_plain_named [OF assms]
  by (simp add: Node_MarshalXML_def too_deep_def)

definition sample_node :: node where
  "sample_node = Node (XName ''urn:x'' ''item'') [(XName [] ''id'', ''1'')] ''text''
     [Node (XName ''urn:x'' ''a'') [] [] [], Node (XName ''urn:y'' ''b'') [] ''t'' []]"

theorem Node_roundtrip_witness:
  "\<exists>ts. Node_MarshalXML sample_node = Inr ts \<and> Unmarshal DecodeNode (rescan [] ts) = Inr sample_node"
  using Node_roundtrip [of sample_node]
  by (simp add: sample_node_def plain_attr_def not_xmlns_def xmlElementMaxDepth_def)

end
