(* ===== verification/ElemLoop.thy ===== *)
theory ElemLoop
  imports XmlNode
begin

text \<open>
  The loop that every custom \<^verbatim>\<open>UnmarshalXML\<close> of the package \<^verbatim>\<open>stanza\<close> runs over the tokens
  of its element:

  \<^verbatim>\<open>for { t, err := d.Token(); if err != nil { return err }; switch tt := t.(type) {
  case xml.StartElement: ... case xml.EndElement: if tt == start.End() { return nil } } }\<close>

  The body of the first case is the handler \<open>h\<close>, from the state read so far and the decoder
  after the start of a child to the new state and decoder. A handler only reads forward; the
  loop checks this, which makes it terminate for any \<open>h\<close>, and for the handlers of the package
  (\<open>forward_handler\<close>) the check never fails.
\<close>

type_synonym 's elem_handler = "xname \<Rightarrow> xattr list \<Rightarrow> 's \<Rightarrow> decoder \<Rightarrow> error + 's \<times> decoder"

function elem_loop :: "'s elem_handler \<Rightarrow> xname \<Rightarrow> 's \<Rightarrow> decoder \<Rightarrow> error + 's \<times> decoder" where
  "elem_loop h name s d =
     (case Token d of
        Inl e \<Rightarrow> Inl e
      | Inr (StartElement n at, d1) \<Rightarrow>
          (case h n at s d1 of
             Inl e \<Rightarrow> Inl e
           | Inr (s', d2) \<Rightarrow>
               if length (decInput d2) \<le> length (decInput d1) then elem_loop h name s' d2
               else Inl (Panic ''the decoder went backwards''))
      | Inr (EndElement n, d1) \<Rightarrow> (if n = name then Inr (s, d1) else elem_loop h name s d1)
      | Inr (_, d1) \<Rightarrow> elem_loop h name s d1)"
  by pat_completeness auto
termination
  by (relation "measure (\<lambda>(h, name, s, d). length (decInput d))") (auto dest!: Token_less)

declare elem_loop.simps [simp del]

definition forward_handler :: "'s elem_handler \<Rightarrow> bool" where
  "forward_handler h \<longleftrightarrow>
     (\<forall>n at s d s' d'. h n at s d = Inr (s', d') \<longrightarrow> length (decInput d') \<le> length (decInput d))"

lemma forward_handlerD:
  "forward_handler h \<Longrightarrow> h n at s d = Inr (s', d') \<Longrightarrow> length (decInput d') \<le> length (decInput d)"
  by (auto simp: forward_handler_def)

lemma forward_handlerI:
  "(\<And>n at s d s' d'. h n at s d = Inr (s', d') \<Longrightarrow> length (decInput d') \<le> length (decInput d)) \<Longrightarrow>
     forward_handler h"
  by (auto simp: forward_handler_def)

text \<open>The loop of the source, without the check.\<close>

lemma elem_loop_unfold:
  assumes "forward_handler h"
  shows "elem_loop h name s d =
     (case Token d of
        Inl e \<Rightarrow> Inl e
      | Inr (StartElement n at, d1) \<Rightarrow>
          (case h n at s d1 of
             Inl e \<Rightarrow> Inl e
           | Inr (s', d2) \<Rightarrow> elem_loop h name s' d2)
      | Inr (EndElement n, d1) \<Rightarrow> (if n = name then Inr (s, d1) else elem_loop h name s d1)
      | Inr (_, d1) \<Rightarrow> elem_loop h name s d1)"
  by (subst elem_loop.simps)
    (auto split: sum.splits xtoken.splits dest: forward_handlerD [OF assms])

lemma elem_loop_less:
  "elem_loop h name s d = Inr (r, d') \<Longrightarrow> length (decInput d') < length (decInput d)"
proof (induction h name s d rule: elem_loop.induct)
  case (1 h name s d)
  from "1.prems" obtain t d1 where t: "Token d = Inr (t, d1)"
    by (subst (asm) elem_loop.simps) (auto split: sum.splits)
  note less = Token_less [OF t]
  show ?case
  proof (cases t)
    case (StartElement n at)
    with "1.prems" t obtain s' d2 where h: "h n at s d1 = Inr (s', d2)"
      and le: "length (decInput d2) \<le> length (decInput d1)"
      and r: "elem_loop h name s' d2 = Inr (r, d')"
      by (subst (asm) elem_loop.simps) (auto split: sum.splits if_splits)
    from "1.IH"(1) [OF t refl StartElement h refl le r] less le show ?thesis by simp
  next
    case (EndElement n)
    show ?thesis
    proof (cases "n = name")
      case True
      with "1.prems" t EndElement less show ?thesis by (subst (asm) elem_loop.simps) simp
    next
      case False
      with "1.prems" t EndElement have "elem_loop h name s d1 = Inr (r, d')"
        by (subst (asm) elem_loop.simps) simp
      from "1.IH"(2) [OF t refl EndElement False this] less show ?thesis by simp
    qed
  next
    case (CharData x)
    with "1.prems" t have "elem_loop h name s d1 = Inr (r, d')"
      by (subst (asm) elem_loop.simps) simp
    from "1.IH"(3) [OF t refl CharData this] less show ?thesis by simp
  next
    case OtherToken
    with "1.prems" t have "elem_loop h name s d1 = Inr (r, d')"
      by (subst (asm) elem_loop.simps) simp
    from "1.IH"(4) [OF t refl OtherToken this] less show ?thesis by simp
  qed
qed

text \<open>The handler of most children: \<^verbatim>\<open>DecodeElement\<close>, and an update of the state.\<close>

definition decode_child ::
  "(xname \<Rightarrow> xattr list \<Rightarrow> decoder \<Rightarrow> error + 'a \<times> decoder) \<Rightarrow> ('a \<Rightarrow> 's \<Rightarrow> 's) \<Rightarrow> 's elem_handler" where
  "decode_child dec upd n at s d = bind_result (dec n at d) (\<lambda>(v, d'). Inr (upd v s, d'))"

lemma decode_child_le:
  "forward dec \<Longrightarrow> decode_child dec upd n at s d = Inr (s', d') \<Longrightarrow> length (decInput d') \<le> length (decInput d)"
  by (auto simp: decode_child_def bind_result_Inr_iff dest!: forwardD)

definition elem_unmarshal ::
  "(xname \<Rightarrow> xattr list \<Rightarrow> 's) \<Rightarrow> 's elem_handler \<Rightarrow> xname \<Rightarrow> xattr list \<Rightarrow> decoder \<Rightarrow> error + 's \<times> decoder" where
  "elem_unmarshal start h n at d = elem_loop h n (start n at) d"

lemma forward_elem_unmarshal: "forward (elem_unmarshal start h)"
  by (auto simp: forward_def elem_unmarshal_def dest: elem_loop_less)

subsection \<open>Decoding a complete element\<close>

fun fold_result :: "('x \<Rightarrow> 's \<Rightarrow> error + 's) \<Rightarrow> 'x list \<Rightarrow> 's \<Rightarrow> error + 's" where
  "fold_result f [] s = Inr s"
| "fold_result f (x # xs) s = bind_result (f x s) (fold_result f xs)"

lemma fold_result_invariant:
  "fold_result f xs s = Inr s' \<Longrightarrow> P s \<Longrightarrow>
     (\<And>x s s'. x \<in> set xs \<Longrightarrow> P s \<Longrightarrow> f x s = Inr s' \<Longrightarrow> P s') \<Longrightarrow> P s'"
proof (induction xs arbitrary: s)
  case (Cons x xs)
  from Cons.prems(1) obtain s1 where "f x s = Inr s1" "fold_result f xs s1 = Inr s'"
    by (auto simp: bind_result_Inr_iff)
  with Cons show ?case by (metis list.set_intros(1) list.set_intros(2))
qed simp

definition elements :: "xml list \<Rightarrow> xml list" where
  "elements kids = filter (is_elem (\<lambda>_. True)) kids"

lemma elements_simps [simp]:
  "elements [] = []"
  "elements (Text s # ks) = elements ks"
  "elements (Elem n at ts # ks) = Elem n at ts # elements ks"
  by (simp_all add: elements_def)

text \<open>
  A handler is exact for a child when it reads the child to its end, and its effect is a
  function \<open>step\<close> of the child's tree.
\<close>

definition inside :: "xml list \<Rightarrow> xname \<Rightarrow> xtoken list \<Rightarrow> stk_item list \<Rightarrow> decoder \<Rightarrow> decoder" where
  "inside kids n rest stk d =
     d\<lparr>decInput := concat (map xml_tokens kids) @ EndElement n # rest, decStk := StkStart n # stk\<rparr>"

definition after :: "xtoken list \<Rightarrow> stk_item list \<Rightarrow> decoder \<Rightarrow> decoder" where
  "after rest stk d = d\<lparr>decInput := rest, decStk := stk\<rparr>"

definition with_decoder :: "decoder \<Rightarrow> error + 's \<Rightarrow> error + 's \<times> decoder" where
  "with_decoder d r = bind_result r (\<lambda>v. Inr (v, d))"

lemma with_decoder_simps [simp]:
  "with_decoder d (Inl e) = Inl e" "with_decoder d (Inr v) = Inr (v, d)"
  by (simp_all add: with_decoder_def)

definition exact_on :: "'s elem_handler \<Rightarrow> (xml \<Rightarrow> 's \<Rightarrow> error + 's) \<Rightarrow> xml \<Rightarrow> bool" where
  "exact_on h step t \<longleftrightarrow>
     (case t of
        Elem n at kids \<Rightarrow>
          (\<forall>s d rest stk. not_at_eof stk \<longrightarrow>
             h n at s (inside kids n rest stk d) = with_decoder (after rest stk d) (step t s))
      | Text s \<Rightarrow> True)"

lemma elem_loop_exact:
  assumes "\<And>t. t \<in> set kids \<Longrightarrow> exact_on h step t" "not_at_eof stk'"
  shows "elem_loop h name s (after (concat (map xml_tokens kids) @ toks) stk' d) =
    (case fold_result step (elements kids) s of
       Inl e \<Rightarrow> Inl e
     | Inr s' \<Rightarrow> elem_loop h name s' (after toks stk' d))"
  using assms(1)
proof (induction kids arbitrary: s)
  case Nil
  then show ?case by simp
next
  case (Cons t kids)
  let ?d = "after (concat (map xml_tokens (t # kids)) @ toks) stk' d"
  show ?case
  proof (cases t)
    case (Text x)
    have "Token ?d = Inr (CharData x, after (concat (map xml_tokens kids) @ toks) stk' d)"
      using Text assms(2) by (simp add: after_def)
    then show ?thesis
      using Cons Text by (subst elem_loop.simps) simp
  next
    case (Elem n at ks)
    let ?rest = "concat (map xml_tokens kids) @ toks"
    have tok: "Token ?d = Inr (StartElement n at, inside ks n ?rest stk' d)"
      using Elem assms(2) by (simp add: after_def inside_def)
    have h: "h n at s (inside ks n ?rest stk' d) = with_decoder (after ?rest stk' d) (step t s)"
      using Cons.prems [of t] Elem assms(2) by (simp add: exact_on_def)
    show ?thesis
    proof (cases "step t s")
      case (Inl e)
      with tok h show ?thesis
        by (subst elem_loop.simps) (simp add: Elem)
    next
      case (Inr s')
      with tok h have "elem_loop h name s ?d = elem_loop h name s' (after ?rest stk' d)"
        by (subst elem_loop.simps) (simp add: inside_def after_def)
      also have "\<dots> = (case fold_result step (elements kids) s' of
          Inl e \<Rightarrow> Inl e | Inr s' \<Rightarrow> elem_loop h name s' (after toks stk' d))"
        using Cons.prems by (intro Cons.IH) simp
      finally show ?thesis using Inr Elem by simp
    qed
  qed
qed

text \<open>
  When the handler is exact on every child, the loop computes the fold of its steps over the
  children, and leaves the decoder after the element.
\<close>

lemma elem_loop_tree:
  assumes "\<And>t. t \<in> set kids \<Longrightarrow> exact_on h step t"
  shows "elem_loop h n s (inside kids n rest stk d) =
    with_decoder (after rest stk d) (fold_result step (elements kids) s)"
proof -
  have "inside kids n rest stk d = after (concat (map xml_tokens kids) @ EndElement n # rest) (StkStart n # stk) d"
    by (simp add: inside_def after_def)
  moreover have "elem_loop h n s' (after (EndElement n # rest) (StkStart n # stk) d) = Inr (s', after rest stk d)" for s'
    by (subst elem_loop.simps) (simp add: after_def)
  ultimately show ?thesis
    using elem_loop_exact [OF assms, where stk' = "StkStart n # stk" and toks = "EndElement n # rest"]
    by (simp split: sum.split)
qed

lemma unmarshalInterface_tree:
  assumes "\<And>t. t \<in> set kids \<Longrightarrow> exact_on h step t"
  shows "unmarshalInterface r (elem_unmarshal start h) n at (inside kids n rest stk d) =
    with_decoder (after rest stk d) (fold_result step (elements kids) (start n at))"
proof -
  have "(inside kids n rest stk d)\<lparr>decStk := pushEOF (decStk (inside kids n rest stk d))\<rparr>
      = inside kids n rest (StkEOF # stk) d"
    by (simp add: inside_def)
  then show ?thesis
    using elem_loop_tree [OF assms, where stk = "StkEOF # stk"]
    by (cases "fold_result step (elements kids) (start n at)")
      (simp_all add: unmarshalInterface_def elem_unmarshal_def after_def)
qed

lemma decode_struct_tree:
  "decode_struct f n at (inside kids n rest stk d) = with_decoder (after rest stk d) (f (Elem n at kids))"
proof -
  have "read_element (inside kids n rest stk d) = Inr (kids, after rest stk d)"
    using read_element_tokens [of "inside kids n rest stk d" kids n rest stk] by (simp add: inside_def after_def)
  then show ?thesis
    by (cases "f (Elem n at kids)") (simp_all add: decode_struct_def)
qed

lemma exact_decode_child:
  assumes "\<And>n at kids rest stk d.
      dec n at (inside kids n rest stk d) = with_decoder (after rest stk d) (f (Elem n at kids))"
  shows "exact_on (decode_child dec upd) (\<lambda>t s. bind_result (f t) (\<lambda>v. Inr (upd v s))) t"
proof (cases t)
  case (Elem n at kids)
  then show ?thesis
    by (cases "f t") (simp_all add: exact_on_def decode_child_def assms)
qed (simp add: exact_on_def)

subsection \<open>Generic nodes of a complete element\<close>

fun node_of :: "nat \<Rightarrow> xml \<Rightarrow> error + node"
  and node_kids :: "nat \<Rightarrow> xname \<Rightarrow> xattr list \<Rightarrow> node list \<Rightarrow> string \<Rightarrow> xml list \<Rightarrow> error + node" where
  "node_of depth (Elem n at kids) =
     (if xmlElementMaxDepth \<le> depth then Inl too_deep
      else node_kids depth n (filter not_xmlns at) [] [] kids)"
| "node_of depth (Text s) = Inl too_deep"
| "node_kids depth nm at nodes c [] = Inr (Node nm at c nodes)"
| "node_kids depth nm at nodes c (Text s # ks) = node_kids depth nm at nodes (c @ s) ks"
| "node_kids depth nm at nodes c (Elem n at' kids # ks) =
     (case node_of (Suc depth) (Elem n at' kids) of
        Inl e \<Rightarrow> Inl e
      | Inr child \<Rightarrow> node_kids depth nm at (nodes @ [child]) c ks)"

lemma node_loop_tree:
  "(case t of
      Elem n at kids \<Rightarrow> \<not> xmlElementMaxDepth \<le> depth \<longrightarrow>
        (\<forall>rest stk d. node_loop depth n (filter not_xmlns at) [] [] (inside kids n rest stk d)
           = with_decoder (after rest stk d) (node_of depth t))
    | Text s \<Rightarrow> True)"
  "\<forall>rest stk d. node_loop depth nm at nodes c (inside ks nm rest stk d)
     = with_decoder (after rest stk d) (node_kids depth nm at nodes c ks)"
proof (induction depth t and depth nm at nodes c ks rule: node_of_node_kids.induct)
  case (3 depth nm at nodes c)
  show ?case
  proof (intro allI)
    fix rest stk and d :: decoder
    show "node_loop depth nm at nodes c (inside [] nm rest stk d)
       = with_decoder (after rest stk d) (node_kids depth nm at nodes c [])"
      by (subst node_loop.simps) (simp add: inside_def after_def)
  qed
next
  case (4 depth nm at nodes c s ks)
  show ?case
  proof (intro allI)
    fix rest stk and d :: decoder
    have "Token (inside (Text s # ks) nm rest stk d) = Inr (CharData s, inside ks nm rest stk d)"
      by (simp add: inside_def)
    then show "node_loop depth nm at nodes c (inside (Text s # ks) nm rest stk d)
       = with_decoder (after rest stk d) (node_kids depth nm at nodes c (Text s # ks))"
      using 4 by (subst node_loop.simps) simp
  qed
next
  case (5 depth nm at nodes c n at' kids ks)
  show ?case
  proof (intro allI)
    fix rest stk and d :: decoder
    let ?toks = "concat (map xml_tokens ks) @ EndElement nm # rest"
    let ?k = "Elem n at' kids"
    have tok: "Token (inside (?k # ks) nm rest stk d) = Inr (StartElement n at', inside kids n ?toks (StkStart nm # stk) d)"
      by (simp add: inside_def)
    have returns: "after ?toks (StkStart nm # stk) d = inside ks nm rest stk d"
      by (simp add: inside_def after_def)
    show "node_loop depth nm at nodes c (inside (?k # ks) nm rest stk d)
       = with_decoder (after rest stk d) (node_kids depth nm at nodes c (?k # ks))"
    proof (cases "xmlElementMaxDepth \<le> Suc depth")
      case True
      with tok show ?thesis by (subst node_loop.simps) (simp add: too_deep_def)
    next
      case False
      then have loop: "node_loop (Suc depth) n (filter not_xmlns at') [] []
            (inside kids n ?toks (StkStart nm # stk) d)
          = with_decoder (inside ks nm rest stk d) (node_of (Suc depth) ?k)"
        using "5.IH"(1) returns by simp
      show ?thesis
      proof (cases "node_of (Suc depth) ?k")
        case (Inl e)
        with tok loop False show ?thesis by (subst node_loop.simps) (simp del: node_of.simps)
      next
        case (Inr child)
        with tok loop False "5.IH"(2) [OF Inr] show ?thesis
          by (subst node_loop.simps) (simp del: node_of.simps)
      qed
    qed
  qed
qed simp_all

lemma DecodeNode_tree:
  "DecodeNode n at (inside kids n rest stk d) = with_decoder (after rest stk d) (node_of 1 (Elem n at kids))"
proof -
  have p: "(inside kids n rest stk d)\<lparr>decStk := pushEOF (decStk (inside kids n rest stk d))\<rparr>
      = inside kids n rest (StkEOF # stk) d"
    by (simp add: inside_def)
  have "node_loop 1 n (filter not_xmlns at) [] [] (inside kids n rest (StkEOF # stk) d)
      = with_decoder (after rest (StkEOF # stk) d) (node_of 1 (Elem n at kids))"
    using node_loop_tree(1) [of 1 "Elem n at kids"] by (simp add: xmlElementMaxDepth_def)
  then show ?thesis
    by (cases "node_of 1 (Elem n at kids)")
      (simp_all add: DecodeNode_def unmarshalInterface_def p Node_UnmarshalXML_def Node_unmarshalXMLDepth_def
        xmlElementMaxDepth_def after_def)
qed

text \<open>What the node of a tree must be, and how deep a tree nests.\<close>

definition tree_text :: "xml list \<Rightarrow> string" where
  "tree_text ks = concat (map (\<lambda>k. case k of Text s \<Rightarrow> s | Elem n at kids \<Rightarrow> []) ks)"

fun tree_nodes :: "xml \<Rightarrow> node list" where
  "tree_nodes (Elem n at kids) = [Node n (filter not_xmlns at) (tree_text kids) (concat (map tree_nodes kids))]"
| "tree_nodes (Text s) = []"

fun nesting :: "xml \<Rightarrow> nat" where
  "nesting (Elem n at kids) = Suc (fold max (map nesting kids) 0)"
| "nesting (Text s) = 0"

lemma node_of_nesting:
  "(case t of Elem n at kids \<Rightarrow>
      node_of depth t = (if depth + nesting t \<le> xmlElementMaxDepth
        then Inr (Node n (filter not_xmlns at) (tree_text kids) (concat (map tree_nodes kids))) else Inl too_deep)
    | Text s \<Rightarrow> True)"
  "node_kids depth nm at nodes c ks =
     (if \<forall>k \<in> set ks. nesting k = 0 \<or> Suc depth + nesting k \<le> xmlElementMaxDepth
      then Inr (Node nm at (c @ tree_text ks) (nodes @ concat (map tree_nodes ks))) else Inl too_deep)"
proof (induction depth t and depth nm at nodes c ks rule: node_of_node_kids.induct)
  case (1 depth n at kids)
  show ?case
  proof (cases "xmlElementMaxDepth \<le> depth")
    case False
    have "depth + nesting (Elem n at kids) \<le> xmlElementMaxDepth
        \<longleftrightarrow> (\<forall>k \<in> set kids. nesting k = 0 \<or> Suc depth + nesting k \<le> xmlElementMaxDepth)"
      using False fold_max_le [of "map nesting kids" 0 "xmlElementMaxDepth - Suc depth"] by fastforce
    then show ?thesis using False 1 by simp
  qed simp
qed (auto simp: tree_text_def)

text \<open>
  C32. The decoder of generic content decodes a complete element to its names, attributes without
  \<^verbatim>\<open>xmlns\<close>, text and children, and reads exactly the element, when it nests less than 128 deep;
  when it nests 128 deep or more, the depth error is returned.
\<close>

theorem Node_depth_bound:
  "DecodeNode n at (inside kids n rest stk d) =
     (if nesting (Elem n at kids) < 128
      then Inr (Node n (filter not_xmlns at) (tree_text kids) (concat (map tree_nodes kids)), after rest stk d)
      else Inl (Err ''reached maximum depth of XML stream''))"
  using node_of_nesting(1) [where t = "Elem n at kids" and depth = 1]
  by (simp add: DecodeNode_tree xmlElementMaxDepth_def too_deep_def Suc_le_eq del: node_of.simps)

subsection \<open>Handlers that pass over unknown children\<close>

text \<open>
  A handler that does nothing on the start of an unknown child does not skip the child: the
  loop goes on inside it. Its effect is that of the known elements found at any depth below
  unknown ones, in document order (\<open>spliced\<close>), as long as no unknown element on the way
  has the name of the element that is decoded (\<open>avoids\<close>); the end of such an element ends the
  loop too early.
\<close>

fun spliced :: "(xname \<Rightarrow> bool) \<Rightarrow> xml list \<Rightarrow> xml list" where
  "spliced known [] = []"
| "spliced known (Text s # ks) = spliced known ks"
| "spliced known (Elem n at kids # ks) =
     (if known n then [Elem n at kids] else spliced known kids) @ spliced known ks"

fun avoids :: "(xname \<Rightarrow> bool) \<Rightarrow> xname \<Rightarrow> xml list \<Rightarrow> bool" where
  "avoids known name [] = True"
| "avoids known name (Text s # ks) = avoids known name ks"
| "avoids known name (Elem n at kids # ks) =
     ((known n \<or> n \<noteq> name \<and> avoids known name kids) \<and> avoids known name ks)"

definition passes :: "'s elem_handler \<Rightarrow> (xname \<Rightarrow> bool) \<Rightarrow> (xml \<Rightarrow> 's \<Rightarrow> error + 's) \<Rightarrow> bool" where
  "passes h known step \<longleftrightarrow>
     (\<forall>n at kids. known n \<longrightarrow> exact_on h step (Elem n at kids))
     \<and> (\<forall>n at s d. \<not> known n \<longrightarrow> h n at s d = Inr (s, d))"

lemma fold_result_append:
  "fold_result f (xs @ ys) s = bind_result (fold_result f xs s) (fold_result f ys)"
proof (induction xs arbitrary: s)
  case (Cons x xs)
  then show ?case by (cases "f x s") simp_all
qed simp

lemma passes_known:
  assumes "passes h known step" "known n" "not_at_eof stk"
  shows "elem_loop h name s (after (concat (map xml_tokens (Elem n at kids # ks)) @ toks) stk d) =
    (case step (Elem n at kids) s of
       Inl e \<Rightarrow> Inl e
     | Inr s' \<Rightarrow> elem_loop h name s' (after (concat (map xml_tokens ks) @ toks) stk d))"
proof -
  have "exact_on h step (Elem n at kids)" using assms(1,2) by (simp add: passes_def)
  then show ?thesis
    using elem_loop_exact [of "[Elem n at kids]" h step stk name s "concat (map xml_tokens ks) @ toks" d] assms(3)
    by (cases "step (Elem n at kids) s") simp_all
qed

lemma passes_unknown:
  assumes "passes h known step" "\<not> known n" "not_at_eof stk"
  shows "elem_loop h name s (after (concat (map xml_tokens (Elem n at kids # ks)) @ toks) stk d) =
    elem_loop h name s (after (concat (map xml_tokens kids) @ EndElement n # concat (map xml_tokens ks) @ toks)
      (StkStart n # stk) d)"
  by (subst elem_loop.simps) (use assms in \<open>simp add: after_def passes_def\<close>)

lemma elem_loop_text:
  assumes "not_at_eof stk"
  shows "elem_loop h name s (after (concat (map xml_tokens (Text x # ks)) @ toks) stk d) =
     elem_loop h name s (after (concat (map xml_tokens ks) @ toks) stk d)"
proof -
  have "Token (after (concat (map xml_tokens (Text x # ks)) @ toks) stk d)
      = Inr (CharData x, after (concat (map xml_tokens ks) @ toks) stk d)"
    using assms by (simp add: after_def)
  then show ?thesis by (subst elem_loop.simps) simp
qed

lemma elem_loop_end:
  "elem_loop h name s (after (EndElement n # toks) (StkStart n # stk) d) =
     (if n = name then Inr (s, after toks stk d) else elem_loop h name s (after toks stk d))"
  by (subst elem_loop.simps) (simp add: after_def)

lemma elem_loop_spliced:
  "passes h known step \<Longrightarrow> avoids known name kids \<Longrightarrow> not_at_eof stk \<Longrightarrow>
    elem_loop h name s (after (concat (map xml_tokens kids) @ toks) stk d) =
    (case fold_result step (spliced known kids) s of
       Inl e \<Rightarrow> Inl e
     | Inr s' \<Rightarrow> elem_loop h name s' (after toks stk d))"
proof (induction known kids arbitrary: s toks stk rule: spliced.induct [case_names Nil Text Elem])
  case (Text known x ks)
  then show ?case by (simp only: elem_loop_text spliced.simps avoids.simps)
next
  case (Elem known n at kids ks)
  note simps = spliced.simps avoids.simps fold_result_append
  show ?case
  proof (cases "known n")
    case True
    show ?thesis
      unfolding passes_known [OF Elem.prems(1) True Elem.prems(3)]
      using Elem.IH(2) [OF Elem.prems(1) _ Elem.prems(3)] Elem.prems(2) True
      by (cases "step (xml.Elem n at kids) s") (simp_all add: simps)
  next
    case False
    have "elem_loop h name s (after (concat (map xml_tokens (xml.Elem n at kids # ks)) @ toks) stk d) =
      (case fold_result step (spliced known kids) s of
         Inl e \<Rightarrow> Inl e
       | Inr s' \<Rightarrow> elem_loop h name s' (after (EndElement n # concat (map xml_tokens ks) @ toks) (StkStart n # stk) d))"
      unfolding passes_unknown [OF Elem.prems(1) False Elem.prems(3)]
      using Elem.prems(1,2) False by (intro Elem.IH(1)) simp_all
    also have "\<dots> = (case fold_result step (spliced known (xml.Elem n at kids # ks)) s of
         Inl e \<Rightarrow> Inl e
       | Inr s' \<Rightarrow> elem_loop h name s' (after toks stk d))"
      using Elem.IH(2) [OF Elem.prems(1) _ Elem.prems(3)] Elem.prems(2) False
      by (cases "fold_result step (spliced known kids) s") (simp_all add: simps elem_loop_end)
    finally show ?thesis .
  qed
qed simp

text \<open>Where the loop ends too early, it leaves the decoder inside an unknown element.\<close>

definition stops_inside :: "error + 's \<times> decoder \<Rightarrow> bool" where
  "stops_inside r \<longleftrightarrow> (\<exists>e. r = Inl e) \<or> (\<exists>s d m stk. r = Inr (s, d) \<and> decStk d = StkStart m # stk)"

lemma stops_inside_simps [simp]:
  "stops_inside (Inl e)" "stops_inside (Inr (s, after toks (StkStart m # stk) d))"
  by (simp_all add: stops_inside_def after_def)

lemma elem_loop_stops_inside:
  "passes h known step \<Longrightarrow> \<not> avoids known name kids \<Longrightarrow>
    stops_inside (elem_loop h name s (after (concat (map xml_tokens kids) @ toks) (StkStart m # stk) d))"
proof (induction known kids arbitrary: s toks stk m rule: spliced.induct [case_names Nil Text Elem])
  case (Text known x ks)
  then show ?case
    unfolding elem_loop_text [OF not_at_eof_simps(2)] by simp
next
  case (Elem known n at kids ks)
  have ne: "not_at_eof (StkStart m # stk)" by simp
  show ?case
  proof (cases "known n")
    case True
    show ?thesis
      unfolding passes_known [OF Elem.prems(1) True ne]
      using Elem.IH(2) [OF Elem.prems(1)] Elem.prems(2) True
      by (cases "step (xml.Elem n at kids) s") simp_all
  next
    case False
    show ?thesis
    proof (cases "avoids known name kids")
      case inner: True
      show ?thesis
        unfolding passes_unknown [OF Elem.prems(1) False ne]
          elem_loop_spliced [OF Elem.prems(1) inner not_at_eof_simps(2)]
        using Elem.IH(2) [OF Elem.prems(1)] Elem.prems(2) False inner
        by (cases "fold_result step (spliced known kids) s")
          (auto simp: elem_loop_end)
    next
      case inner: False
      show ?thesis
        unfolding passes_unknown [OF Elem.prems(1) False ne]
        by (rule Elem.IH(1) [OF False Elem.prems(1) inner])
    qed
  qed
qed simp

lemma unmarshalInterface_spliced:
  assumes "passes h known step" "avoids known n kids"
  shows "unmarshalInterface r (elem_unmarshal start h) n at (inside kids n rest stk d) =
    with_decoder (after rest stk d) (fold_result step (spliced known kids) (start n at))"
proof -
  have p: "(inside kids n rest stk d)\<lparr>decStk := pushEOF (decStk (inside kids n rest stk d))\<rparr>
      = after (concat (map xml_tokens kids) @ EndElement n # rest) (StkStart n # StkEOF # stk) d"
    by (simp add: inside_def after_def)
  show ?thesis
    unfolding unmarshalInterface_def elem_unmarshal_def p
      elem_loop_spliced [OF assms not_at_eof_simps(2)]
    by (cases "fold_result step (spliced known kids) (start n at)") (simp_all add: elem_loop_end, simp add: after_def)
qed

lemma unmarshalInterface_stops_inside:
  assumes "passes h known step" "\<not> avoids known n kids"
  shows "\<exists>e. unmarshalInterface r (elem_unmarshal start h) n at (inside kids n rest stk d) = Inl e"
proof -
  have p: "(inside kids n rest stk d)\<lparr>decStk := pushEOF (decStk (inside kids n rest stk d))\<rparr>
      = after (concat (map xml_tokens kids) @ EndElement n # rest) (StkStart n # StkEOF # stk) d"
    by (simp add: inside_def after_def)
  show ?thesis
    using elem_loop_stops_inside [OF assms, of "start n at" "EndElement n # rest" n "StkEOF # stk" d]
    unfolding unmarshalInterface_def elem_unmarshal_def p stops_inside_def
    by auto
qed

text \<open>
  Either way the outcome is a function of the element's tree alone: whatever surrounds the
  element, decoding it gives what decoding it by itself gives.
\<close>

definition stuck :: "error + 's \<times> decoder \<Rightarrow> bool" where
  "stuck r \<longleftrightarrow> (\<exists>s d m stk. r = Inr (s, d) \<and> decStk d = StkStart m # stk)"

lemma bind_stuck:
  "stuck r \<Longrightarrow> bind_result r (\<lambda>(v, d'). case decStk d' of StkEOF # s \<Rightarrow> f v d' s | _ \<Rightarrow> Inl e) = Inl e"
  by (auto simp: stuck_def)

definition uniform :: "('e \<Rightarrow> error + 's \<times> decoder) \<Rightarrow> bool" where
  "uniform f \<longleftrightarrow> (\<exists>e. \<forall>x. f x = Inl e) \<or> (\<forall>x. stuck (f x))"

lemma uniform_const [simp]: "uniform (\<lambda>x. Inl e)"
  by (simp add: uniform_def)

lemma uniform_comp: "uniform f \<Longrightarrow> uniform (\<lambda>x. f (g x))"
  by (auto simp: uniform_def)

lemma elem_loop_stops_uniform:
  "passes h known step \<Longrightarrow> \<not> avoids known name kids \<Longrightarrow>
    uniform (\<lambda>(toks, m, stk, d). elem_loop h name s (after (concat (map xml_tokens kids) @ toks) (StkStart m # stk) d))"
proof (induction known kids arbitrary: s rule: spliced.induct [case_names Nil Text Elem])
  case (Text known x ks)
  then show ?case
    unfolding elem_loop_text [OF not_at_eof_simps(2)] by simp
next
  case (Elem known n at kids ks)
  have ne: "not_at_eof (StkStart m # stk)" for m stk by simp
  show ?case
  proof (cases "known n")
    case True
    show ?thesis
      unfolding passes_known [OF Elem.prems(1) True ne]
      using Elem.IH(2) [OF Elem.prems(1)] Elem.prems(2) True
      by (cases "step (xml.Elem n at kids) s") (simp_all add: case_prod_unfold)
  next
    case False
    show ?thesis
    proof (cases "avoids known name kids")
      case inner: True
      show ?thesis
        unfolding passes_unknown [OF Elem.prems(1) False ne]
          elem_loop_spliced [OF Elem.prems(1) inner not_at_eof_simps(2)]
      proof (cases "fold_result step (spliced known kids) s")
        case (Inr s')
        show "uniform (\<lambda>(toks, m, stk, d). case fold_result step (spliced known kids) s of Inl e \<Rightarrow> Inl e
            | Inr s' \<Rightarrow> elem_loop h name s' (after (EndElement n # concat (map xml_tokens ks) @ toks)
                (StkStart n # StkStart m # stk) d))"
        proof (cases "n = name")
          case True
          then show ?thesis by (simp add: Inr elem_loop_end uniform_def stuck_def, simp add: after_def)
        next
          case False
          then show ?thesis
            using Elem.IH(2) [OF Elem.prems(1)] Elem.prems(2) inner \<open>\<not> known n\<close> by (simp add: Inr elem_loop_end)
        qed
      qed (simp add: case_prod_unfold)
    next
      case inner: False
      show ?thesis
        unfolding passes_unknown [OF Elem.prems(1) False ne]
        using uniform_comp [OF Elem.IH(1) [OF False Elem.prems(1) inner, of s],
          where g = "\<lambda>(toks, m, stk, d). (EndElement n # concat (map xml_tokens ks) @ toks, n, StkStart m # stk, d)"]
        by (simp add: case_prod_unfold)
    qed
  qed
qed simp

definition on_tree :: "(xname \<Rightarrow> xattr list \<Rightarrow> decoder \<Rightarrow> error + 'a \<times> decoder) \<Rightarrow> xml \<Rightarrow> error + 'a" where
  "on_tree dec t =
     (case t of
        Elem n at kids \<Rightarrow> bind_result (dec n at (inside kids n [] [] (new_decoder []))) (\<lambda>(v, _). Inr v)
      | Text s \<Rightarrow> Inl IoEOF)"

lemma unmarshalInterface_on_tree:
  assumes "passes h known step"
  shows "unmarshalInterface r (elem_unmarshal start h) n at (inside kids n rest stk d) =
    with_decoder (after rest stk d) (on_tree (unmarshalInterface r (elem_unmarshal start h)) (Elem n at kids))"
proof (cases "avoids known n kids")
  case True
  then show ?thesis
    by (cases "fold_result step (spliced known kids) (start n at)")
      (simp_all add: on_tree_def unmarshalInterface_spliced [OF assms(1)])
next
  case False
  have p: "(inside kids n rest stk d)\<lparr>decStk := pushEOF (decStk (inside kids n rest stk d))\<rparr>
      = after (concat (map xml_tokens kids) @ EndElement n # rest) (StkStart n # StkEOF # stk) d" for rest stk d
    by (simp add: inside_def after_def)
  have "uniform (\<lambda>(rest, stk, d). elem_unmarshal start h n at
      (after (concat (map xml_tokens kids) @ EndElement n # rest) (StkStart n # StkEOF # stk) d))"
    using uniform_comp [OF elem_loop_stops_uniform [OF assms(1) False, of "start n at"],
      where g = "\<lambda>(rest, stk, d). (EndElement n # rest, n, StkEOF # stk, d)"]
    by (simp add: case_prod_unfold elem_unmarshal_def)
  then have "\<exists>e. \<forall>rest stk d. unmarshalInterface r (elem_unmarshal start h) n at (inside kids n rest stk d) = Inl e"
    unfolding unmarshalInterface_def p by (auto simp: uniform_def bind_stuck)
  then show ?thesis by (auto simp: on_tree_def)
qed

end
