(* ===== verification/StanzaError.thy ===== *)
theory StanzaError
  imports GoStrconv ElemLoop
begin

text \<open>
  The error payload of a stanza, \<^verbatim>\<open>stanza/error.go\<close>: \<open>Err\<close> with its decoder and encoder, and
  the conversions of text to integers that \<^verbatim>\<open>encoding/xml\<close> makes for integer fields.
\<close>

subsection \<open>Integer fields\<close>

text \<open>
  \<^verbatim>\<open>strconv.ParseInt(strings.TrimSpace(s), 10, bits)\<close>, and 0 for an empty text: white space
  around a sign and digits is dropped.
\<close>

function trim_left :: "nat list \<Rightarrow> nat list" where
  "trim_left [] = []"
| "trim_left (b # bs) =
     (if IsSpace (fst (decode_rune b bs)) then trim_left (drop (snd (decode_rune b bs)) (b # bs)) else b # bs)"
  by pat_completeness auto
termination
proof (relation "measure length")
  fix b and bs :: "nat list"
  show "(drop (snd (decode_rune b bs)) (b # bs), b # bs) \<in> measure length"
    using decode_rune_width [of b bs] by simp
qed simp

definition int_char :: "char \<Rightarrow> bool" where
  "int_char c \<longleftrightarrow> c = CHR ''-'' \<or> c = CHR ''+'' \<or> digit_val c \<noteq> None"

definition xml_int :: "int \<Rightarrow> string \<Rightarrow> error + int" where
  "xml_int bits s =
     (if s = [] then Inr 0
      else
        let t = map char_of (trim_left (map of_char s)) :: string;
            core = takeWhile int_char t;
            rest = dropWhile int_char t in
        if \<not> TrimSpace_is_empty rest then Inl (LibErr ''strconv.ParseInt: parsing: invalid syntax'')
        else bind_result (Atoi core) (\<lambda>k.
          if - (2 ^ nat (bits - 1)) \<le> k \<and> k < 2 ^ nat (bits - 1) then Inr k
          else Inl (LibErr ''strconv.ParseInt: parsing: value out of range'')))"

subsection \<open>Err\<close>

definition NSStanzas :: string where
  "NSStanzas = ''urn:ietf:params:xml:ns:xmpp-stanzas''"

record err =
  errXMLName :: xname
  errCode :: int
  errType :: string
  errReason :: string
  errText :: string

definition zero_err :: err where
  "zero_err = \<lparr>errXMLName = XName [] [], errCode = 0, errType = [], errReason = [], errText = []\<rparr>"

definition Err_attr :: "xattr \<Rightarrow> err \<Rightarrow> err" where
  "Err_attr attr x =
     (let x1 = (if nLocal (fst attr) = ''type'' then x\<lparr>errType := snd attr\<rparr> else x) in
      if nLocal (fst attr) = ''code''
      then (case Atoi (snd attr) of Inr code \<Rightarrow> x1\<lparr>errCode := code\<rparr> | Inl _ \<Rightarrow> x1)
      else x1)"

definition Err_child :: "node \<Rightarrow> err \<Rightarrow> err" where
  "Err_child elt x =
     (if nodeXMLName elt = XName NSStanzas ''text'' \<or> nodeXMLName elt = XName NSStanzas ''gone''
      then x\<lparr>errText := nodeContent elt\<rparr>
      else if nSpace (nodeXMLName elt) = NSStanzas
        \<or> nSpace (nodeXMLName elt) = ''http://jabber.org/protocol/pubsub#errors''
      then if \<not> TrimSpace_is_empty (errReason x)
           then x\<lparr>errReason := Join [nLocal (nodeXMLName elt)] '':''\<rparr>
           else x\<lparr>errReason := nLocal (nodeXMLName elt)\<rparr>
      else x)"

definition Err_start :: "err \<Rightarrow> xname \<Rightarrow> xattr list \<Rightarrow> err" where
  "Err_start x name attrs = fold Err_attr attrs (x\<lparr>errXMLName := name\<rparr>)"

text \<open>The receiver \<open>x0\<close> is the value decoded into; a fresh one is \<open>zero_err\<close>.\<close>

definition Err_UnmarshalXML :: "err \<Rightarrow> xname \<Rightarrow> xattr list \<Rightarrow> decoder \<Rightarrow> error + err \<times> decoder" where
  "Err_UnmarshalXML x0 = elem_unmarshal (Err_start x0) (decode_child DecodeNode Err_child)"

definition DecodeErr :: "err \<Rightarrow> xname \<Rightarrow> xattr list \<Rightarrow> decoder \<Rightarrow> error + err \<times> decoder" where
  "DecodeErr x0 = unmarshalInterface ''*stanza.Err'' (Err_UnmarshalXML x0)"

lemma forward_DecodeErr: "forward (DecodeErr x0)"
  unfolding DecodeErr_def Err_UnmarshalXML_def
  by (rule forward_unmarshalInterface [OF forward_elem_unmarshal])

text \<open>\<^verbatim>\<open>MarshalXML\<close>: the tokens written; an error without a code is not written at all.\<close>

definition Err_tokens :: "err \<Rightarrow> xtoken list" where
  "Err_tokens x =
     (if errCode x = 0 then []
      else
        let name = XName [] ''error'';
            code = (XName [] ''code'', Itoa (errCode x));
            attrs = [code] @ (if errType x \<noteq> [] then [(XName [] ''type'', errType x)] else []) in
        StartElement name attrs
        # (if errReason x \<noteq> []
           then [StartElement (XName NSStanzas (errReason x)) [], EndElement (XName NSStanzas (errReason x))]
           else [])
        @ (if errText x \<noteq> []
           then [StartElement (XName NSStanzas ''text'') [], CharData (errText x), EndElement (XName NSStanzas ''text'')]
           else [])
        @ [EndElement name])"

subsection \<open>Decoding complete elements\<close>

text \<open>The decoder as a function of the element's tree.\<close>

definition Err_step :: "xml \<Rightarrow> err \<Rightarrow> error + err" where
  "Err_step t x = bind_result (node_of 1 t) (\<lambda>elt. Inr (Err_child elt x))"

definition err_of :: "err \<Rightarrow> xml \<Rightarrow> error + err" where
  "err_of x0 t =
     (case t of
        Elem n at kids \<Rightarrow> fold_result Err_step (elements kids) (Err_start x0 n at)
      | Text _ \<Rightarrow> Inr x0)"

lemma exact_DecodeNode:
  "exact_on (decode_child DecodeNode upd) (\<lambda>t s. bind_result (node_of 1 t) (\<lambda>v. Inr (upd v s))) t"
  by (rule exact_decode_child) (rule DecodeNode_tree)

lemma DecodeErr_tree:
  "DecodeErr x0 n at (inside kids n rest stk d) = with_decoder (after rest stk d) (err_of x0 (Elem n at kids))"
proof -
  have "exact_on (decode_child DecodeNode Err_child) Err_step t" for t
    using exact_DecodeNode [of Err_child t] by (simp add: Err_step_def [abs_def])
  then show ?thesis
    unfolding DecodeErr_def Err_UnmarshalXML_def err_of_def
    by (simp add: unmarshalInterface_tree)
qed

subsection \<open>Round trip\<close>

definition sample_err :: err where
  "sample_err = \<lparr>errXMLName = XName [] ''error'', errCode = 503, errType = ''cancel'',
     errReason = ''service-unavailable'', errText = ''not here''\<rparr>"

text \<open>
  What a decoder reads back of the tokens of an error that stands alone (no default name space
  around it).
\<close>

definition Err_wire :: "err \<Rightarrow> xtoken list" where
  "Err_wire x = rescan [] (Err_tokens x)"

definition err_tree :: "err \<Rightarrow> xml" where
  "err_tree x =
     Elem (XName [] ''error'')
       ([(XName [] ''code'', Itoa (errCode x))] @ (if errType x \<noteq> [] then [(XName [] ''type'', errType x)] else []))
       ((if errReason x \<noteq> [] then [Elem (XName NSStanzas (errReason x)) [(XName [] ''xmlns'', NSStanzas)] []] else [])
        @ (if errText x \<noteq> [] then [Elem (XName NSStanzas ''text'') [(XName [] ''xmlns'', NSStanzas)] [Text (errText x)]]
           else []))"

lemma Err_wire_tree: "errCode x \<noteq> 0 \<Longrightarrow> Err_wire x = xml_tokens (err_tree x)"
  by (simp add: Err_wire_def Err_tokens_def err_tree_def NSStanzas_def Let_def)

lemma err_of_tree:
  assumes "int_min \<le> errCode x" "errCode x \<le> int_max"
    and "errReason x \<notin> {''text'', ''gone''}"
  shows "err_of zero_err (err_tree x) = Inr (x\<lparr>errXMLName := XName [] ''error''\<rparr>)"
proof -
  have a: "Atoi (Itoa (errCode x)) = Inr (errCode x)" using assms(1,2) by (rule Atoi_Itoa)
  have s: "Err_start zero_err (XName [] ''error'')
      ([(XName [] ''code'', Itoa (errCode x))] @ (if errType x \<noteq> [] then [(XName [] ''type'', errType x)] else []))
      = \<lparr>errXMLName = XName [] ''error'', errCode = errCode x, errType = errType x, errReason = [], errText = []\<rparr>"
    by (simp add: Err_start_def Err_attr_def a zero_err_def)
  show ?thesis
    unfolding err_of_def err_tree_def xml.case s using assms(3)
    by (cases x) (auto simp: Err_step_def Err_child_def xmlElementMaxDepth_def)
qed

text \<open>
  An error with a code comes back from its encoding as it was, with the element's name set;
  an error whose code is 0 is not encoded at all. (A reason called \<^verbatim>\<open>text\<close> or \<^verbatim>\<open>gone\<close> would be read
  as the text.)
\<close>

theorem Err_roundtrip:
  assumes "int_min \<le> errCode x" "errCode x \<le> int_max" "errReason x \<notin> {''text'', ''gone''}"
  shows "if errCode x = 0 then Err_tokens x = []
    else Unmarshal (DecodeErr zero_err) (Err_wire x) = Inr (x\<lparr>errXMLName := XName [] ''error''\<rparr>)"
proof (cases "errCode x = 0")
  case True
  then show ?thesis by (simp add: Err_tokens_def)
next
  case False
  obtain at kids where t: "err_tree x = Elem (XName [] ''error'') at kids" by (simp add: err_tree_def)
  have "next_start (new_decoder (Err_wire x)) =
      Inr ((XName [] ''error'', at), inside kids (XName [] ''error'') [] [] (new_decoder []))"
    by (subst next_start.simps) (simp add: Err_wire_tree [OF False] t new_decoder_def inside_def)
  then show ?thesis
    using False err_of_tree [OF assms] t by (simp add: Unmarshal_def DecodeErr_tree)
qed

theorem Err_roundtrip_witness:
  "Unmarshal (DecodeErr zero_err) (Err_wire sample_err) = Inr sample_err"
  using Err_roundtrip [of sample_err] by (simp add: sample_err_def int_min_def int_max_def)
end
