(* ===== verification/ResultSets.thy ===== *)
theory ResultSets
  imports StanzaError
begin

text \<open>
  How \<^verbatim>\<open>encoding/xml\<close> reads and prints the structs of the package \<^verbatim>\<open>stanza\<close> by the tags of
  their fields, and the first of them: the result sets of \<^verbatim>\<open>stanza/results_sets.go\<close>
  (XEP-0059), which many payloads carry.
\<close>

subsection \<open>Fields of a struct\<close>

fun elem_name :: "xml \<Rightarrow> xname" where
  "elem_name (Elem n at kids) = n"
| "elem_name (Text s) = XName [] []"

fun elem_attrs :: "xml \<Rightarrow> xattr list" where
  "elem_attrs (Elem n at kids) = at"
| "elem_attrs (Text s) = []"

definition elem_text :: "xml \<Rightarrow> string" where
  "elem_text t = chardata (xml_kids t)"

text \<open>The check of an \<^verbatim>\<open>XMLName\<close> field's tag against the name of the element.\<close>

definition expect_name :: "string \<Rightarrow> string \<Rightarrow> xml \<Rightarrow> error + xname" where
  "expect_name sp l t =
     (let n = elem_name t in
      if l \<noteq> nLocal n then
        Inl (LibErr (''expected element type <'' @ l @ ''> but have <'' @ nLocal n @ ''>''))
      else if sp \<noteq> [] \<and> sp \<noteq> nSpace n then
        Inl (LibErr (''expected element <'' @ l @ ''> in name space '' @ sp @ '' but have ''
          @ (if nSpace n = [] then ''no name space'' else nSpace n)))
      else Inr n)"

text \<open>Reading a struct: the attributes, then the child elements, in their order.\<close>

definition decode_fields ::
  "(string \<Rightarrow> string \<Rightarrow> 'a \<Rightarrow> error + 'a) \<Rightarrow> (string \<Rightarrow> xml \<Rightarrow> 'a \<Rightarrow> error + 'a) \<Rightarrow> xml \<Rightarrow> 'a \<Rightarrow> error + 'a" where
  "decode_fields fa fk t v =
     bind_result (fold_result (\<lambda>a. fa (nLocal (fst a)) (snd a)) (elem_attrs t) v)
       (fold_result (\<lambda>k. fk (nLocal (elem_name k)) k) (elements (xml_kids t)))"

subsection \<open>Printed elements\<close>

text \<open>
  A printed element has the name spaces that \<^verbatim>\<open>xml.Marshal\<close> writes out. When it is read (\<open>on_wire\<close>),
  an element without one has that of its parent, and one that has its own carries it as an
  attribute \<^verbatim>\<open>xmlns\<close> as well; the decoder sees the same through \<open>rescan\<close>.
\<close>

fun on_wire :: "string \<Rightarrow> xml \<Rightarrow> xml" where
  "on_wire ns (Elem n at kids) =
     (if nSpace n = [] then Elem (XName ns (nLocal n)) at (map (on_wire ns) kids)
      else Elem n ((XName [] ''xmlns'', nSpace n) # at) (map (on_wire (nSpace n)) kids))"
| "on_wire ns (Text s) = Text s"

definition plain_name :: "string \<Rightarrow> xname" where
  "plain_name l = XName [] l"

lemma plain_name_simps [simp]: "nSpace (plain_name l) = []" "nLocal (plain_name l) = l"
  by (simp_all add: plain_name_def)

definition chars :: "string \<Rightarrow> xml list" where
  "chars s = (if s = [] then [] else [Text s])"

text \<open>An attribute or a child element that is left out when it is empty (\<^verbatim>\<open>omitempty\<close>), or a nil pointer.\<close>

definition opt_attr :: "string \<Rightarrow> string \<Rightarrow> xattr list" where
  "opt_attr l v = (if v = [] then [] else [(plain_name l, v)])"

definition text_elem :: "string \<Rightarrow> string \<Rightarrow> xml" where
  "text_elem l v = Elem (plain_name l) [] (chars v)"

definition opt_elem :: "string \<Rightarrow> string \<Rightarrow> xml list" where
  "opt_elem l v = (if v = [] then [] else [text_elem l v])"

definition maybe :: "('a \<Rightarrow> 'b) \<Rightarrow> 'a option \<Rightarrow> 'b list" where
  "maybe f x = (case x of None \<Rightarrow> [] | Some a \<Rightarrow> [f a])"

lemma maybe_simps [simp]: "maybe f None = []" "maybe f (Some a) = [f a]"
  by (simp_all add: maybe_def)

lemma rescan_wire: "rescan (ns # st) (xml_tokens t @ r) = xml_tokens (on_wire ns t) @ rescan (ns # st) r"
proof (induction ns t arbitrary: st r rule: on_wire.induct)
  case (1 ns n at kids)
  have kids: "rescan (sp # st') (concat (map xml_tokens ks) @ x)
      = concat (map (xml_tokens \<circ> on_wire sp) ks) @ rescan (sp # st') x"
    if "\<And>k st r. k \<in> set ks \<Longrightarrow> rescan (sp # st) (xml_tokens k @ r) = xml_tokens (on_wire sp k) @ rescan (sp # st) r"
    for ks sp st' x
    using that by (induction ks) simp_all
  have nm: "XName (nSpace n) (nLocal n) = n" by simp
  show ?case
    using kids [of kids ns] kids [of kids "nSpace n"] 1 nm by (cases "nSpace n = []") simp_all
qed simp

lemma rescan_wires:
  "rescan (ns # st) (concat (map xml_tokens ts) @ r) = concat (map (xml_tokens \<circ> on_wire ns) ts) @ rescan (ns # st) r"
  by (induction ts) (simp_all add: rescan_wire)

lemma rescan_wire_top:
  assumes "is_elem (\<lambda>_. True) t"
  shows "rescan [] (xml_tokens t) = xml_tokens (on_wire [] t)"
proof (cases t)
  case (Elem n at kids)
  have nm: "XName (nSpace n) (nLocal n) = n" by simp
  show ?thesis
    using nm by (cases "nSpace n = []") (simp_all add: Elem rescan_wires)
qed (use assms in simp)

subsection \<open>Result sets\<close>

record rsm_first =
  fsXMLName :: xname
  fsContent :: string
  fsIndex :: "int option"

record result_set =
  rsXMLName :: xname
  rsAfter :: "string option"
  rsBefore :: "string option"
  rsCount :: "int option"
  rsFirst :: "rsm_first option"
  rsIndex :: "int option"
  rsLast :: "string option"
  rsMax :: "int option"

definition zero_first :: rsm_first where
  "zero_first = \<lparr>fsXMLName = XName [] [], fsContent = [], fsIndex = None\<rparr>"

definition zero_result_set :: result_set where
  "zero_result_set = \<lparr>rsXMLName = XName [] [], rsAfter = None, rsBefore = None, rsCount = None,
     rsFirst = None, rsIndex = None, rsLast = None, rsMax = None\<rparr>"

definition decode_first :: "rsm_first \<Rightarrow> xml \<Rightarrow> error + rsm_first" where
  "decode_first v0 t =
     bind_result (expect_name [] ''first'' t) (\<lambda>n.
     bind_result
       (fold_result (\<lambda>a v. if nLocal (fst a) = ''index''
           then bind_result (xml_int 64 (snd a)) (\<lambda>k. Inr (v\<lparr>fsIndex := Some k\<rparr>)) else Inr v)
         (elem_attrs t) (v0\<lparr>fsXMLName := n\<rparr>))
       (fold_result (\<lambda>k v. if nLocal (elem_name k) = ''Content'' then Inr (v\<lparr>fsContent := elem_text k\<rparr>) else Inr v)
         (elements (xml_kids t))))"

definition ResultSet_child :: "xml \<Rightarrow> result_set \<Rightarrow> error + result_set" where
  "ResultSet_child k v =
     (let l = nLocal (elem_name k) in
      if l = ''after'' then Inr (v\<lparr>rsAfter := Some (elem_text k)\<rparr>)
      else if l = ''before'' then Inr (v\<lparr>rsBefore := Some (elem_text k)\<rparr>)
      else if l = ''count'' then bind_result (xml_int 64 (elem_text k)) (\<lambda>i. Inr (v\<lparr>rsCount := Some i\<rparr>))
      else if l = ''first'' then
        bind_result (decode_first (case rsFirst v of None \<Rightarrow> zero_first | Some f \<Rightarrow> f) k)
          (\<lambda>f. Inr (v\<lparr>rsFirst := Some f\<rparr>))
      else if l = ''index'' then bind_result (xml_int 64 (elem_text k)) (\<lambda>i. Inr (v\<lparr>rsIndex := Some i\<rparr>))
      else if l = ''last'' then Inr (v\<lparr>rsLast := Some (elem_text k)\<rparr>)
      else if l = ''max'' then bind_result (xml_int 64 (elem_text k)) (\<lambda>i. Inr (v\<lparr>rsMax := Some i\<rparr>))
      else Inr v)"

definition decode_result_set :: "result_set \<Rightarrow> xml \<Rightarrow> error + result_set" where
  "decode_result_set v0 t =
     bind_result (expect_name ''http://jabber.org/protocol/rsm'' ''set'' t) (\<lambda>n.
       fold_result ResultSet_child (elements (xml_kids t)) (v0\<lparr>rsXMLName := n\<rparr>))"

text \<open>A field \<^verbatim>\<open>ResultSet *ResultSet `xml:"set,omitempty"`\<close>.\<close>

definition decode_set_field :: "result_set option \<Rightarrow> xml \<Rightarrow> error + result_set option" where
  "decode_set_field old k =
     bind_result (decode_result_set (case old of None \<Rightarrow> zero_result_set | Some v \<Rightarrow> v) k) (\<lambda>v. Inr (Some v))"

subsection \<open>Printing a result set\<close>

definition int_elem :: "string \<Rightarrow> int \<Rightarrow> xml" where
  "int_elem l i = text_elem l (Itoa i)"

definition first_elem :: "rsm_first \<Rightarrow> xml" where
  "first_elem v = Elem (plain_name ''first'') (maybe (\<lambda>i. (plain_name ''index'', Itoa i)) (fsIndex v)) [text_elem ''Content'' (fsContent v)]"

definition NSRsm :: string where "NSRsm = ''http://jabber.org/protocol/rsm''"

definition result_set_elem :: "result_set \<Rightarrow> xml" where
  "result_set_elem v =
     Elem (XName NSRsm ''set'') []
       (maybe (text_elem ''after'') (rsAfter v) @ maybe (text_elem ''before'') (rsBefore v)
        @ maybe (int_elem ''count'') (rsCount v) @ maybe first_elem (rsFirst v)
        @ maybe (int_elem ''index'') (rsIndex v) @ maybe (text_elem ''last'') (rsLast v)
        @ maybe (int_elem ''max'') (rsMax v))"

subsection \<open>Reading what was printed\<close>

lemma elements_append [simp]: "elements (xs @ ys) = elements xs @ elements ys"
  by (simp add: elements_def)

lemma elements_wire [simp]: "elements (map (on_wire ns) ts) = map (on_wire ns) (elements ts)"
proof (induction ts)
  case (Cons t ts)
  then show ?case by (cases t) simp_all
qed simp

text \<open>Functions into elements, as opposed to character data.\<close>

definition elemental :: "('a \<Rightarrow> xml) \<Rightarrow> bool" where
  "elemental g \<longleftrightarrow> (\<forall>x. is_elem (\<lambda>_. True) (g x))"

lemma elements_elemental [simp]: "elemental g \<Longrightarrow> elements (map g xs) = map g xs"
  by (induction xs) (simp_all add: elements_def elemental_def)

lemma elements_maybe [simp]: "elemental g \<Longrightarrow> elements (maybe g x) = maybe g x"
  using elements_elemental [of g "[the x]"] by (cases x) simp_all

lemma is_elem_wire [simp]: "is_elem (\<lambda>_. True) (on_wire ns t) = is_elem (\<lambda>_. True) t"
  by (cases t) simp_all

lemma elements_Cons [simp]: "is_elem (\<lambda>_. True) t \<Longrightarrow> elements (t # ts) = t # elements ts"
  by (cases t) simp_all

lemma elementalI: "(\<And>x. is_elem (\<lambda>_. True) (g x)) \<Longrightarrow> elemental g"
  by (simp add: elemental_def)

lemma elemental_wire [simp]: "elemental g \<Longrightarrow> elemental (on_wire ns \<circ> g)"
  by (simp add: elemental_def)

lemma elements_chars [simp]: "elements (chars s) = []"
  by (simp add: chars_def)

lemma chardata_chars [simp]: "chardata (chars s) = s"
  by (simp add: chars_def)

lemma is_elem_printed [simp]:
  "is_elem (\<lambda>_. True) (text_elem l v)" "is_elem (\<lambda>_. True) (int_elem l i)" "is_elem (\<lambda>_. True) (first_elem f)"
  "is_elem (\<lambda>_. True) (result_set_elem r)"
  by (simp_all add: text_elem_def int_elem_def first_elem_def result_set_elem_def)

lemma elementals [simp]:
  "elemental (text_elem l)" "elemental (int_elem l)" "elemental first_elem" "elemental result_set_elem"
  by (simp_all add: elemental_def)

lemma elements_opt [simp]: "elements (opt_elem l v) = opt_elem l v"
  by (simp add: opt_elem_def)

lemma map_maybe [simp]: "map f (maybe g x) = maybe (f \<circ> g) x"
  by (cases x) simp_all

lemma map_wire_chars [simp]: "map (on_wire ns) (chars s) = chars s"
  by (simp add: chars_def)

lemma wire_text [simp]:
  "elem_name (on_wire ns (text_elem l v)) = XName ns l" "elem_text (on_wire ns (text_elem l v)) = v"
  "elem_name (on_wire ns (int_elem l i)) = XName ns l" "elem_text (on_wire ns (int_elem l i)) = Itoa i"
  by (simp_all add: int_elem_def text_elem_def plain_name_def elem_text_def)

lemma fold_result_maybe:
  "fold_result f (maybe g x) s = (case x of None \<Rightarrow> Inr s | Some a \<Rightarrow> f (g a) s)"
proof (cases x)
  case (Some a)
  then show ?thesis by (cases "f (g a) s") simp_all
qed simp

text \<open>\<^verbatim>\<open>xml.Unmarshal\<close> of what \<^verbatim>\<open>xml.Marshal\<close> printed.\<close>

lemma Unmarshal_on_tree:
  assumes "is_elem (\<lambda>_. True) t"
  shows "Unmarshal dec (rescan [] (xml_tokens t)) = on_tree dec (on_wire [] t)"
proof -
  obtain n at kids where t: "on_wire [] t = Elem n at kids"
    using assms is_elem_wire [of "[]" t] by (cases "on_wire [] t") auto
  have "next_start (new_decoder (xml_tokens (Elem n at kids))) = Inr ((n, at), inside kids n [] [] (new_decoder []))"
    by (subst next_start.simps) (simp add: new_decoder_def inside_def)
  then show ?thesis
    unfolding rescan_wire_top [OF assms] t by (simp add: Unmarshal_def on_tree_def)
qed

lemma on_tree_struct: "is_elem (\<lambda>_. True) t \<Longrightarrow> on_tree (decode_struct f) t = f t"
  by (cases t; cases "f t") (simp_all add: on_tree_def decode_struct_tree)

lemma Unmarshal_wire: "is_elem (\<lambda>_. True) t \<Longrightarrow> Unmarshal (decode_struct f) (rescan [] (xml_tokens t)) = f (on_wire [] t)"
  by (simp add: Unmarshal_on_tree on_tree_struct)

text \<open>What \<^verbatim>\<open>DecodeElement\<close> does in the loop of a custom decoder.\<close>

lemma bind_assoc: "bind_result (bind_result m f) g = bind_result m (\<lambda>x. bind_result (f x) g)"
  by (cases m) simp_all

lemma child_steps:
  "decode_child (decode_struct f) upd n at s (inside kids n rest stk d) =
     with_decoder (after rest stk d) (bind_result (f (Elem n at kids)) (\<lambda>v. Inr (upd v s)))"
  "decode_child (DecodeErr x0) upd' n at s' (inside kids n rest stk d) =
     with_decoder (after rest stk d) (bind_result (err_of x0 (Elem n at kids)) (\<lambda>v. Inr (upd' v s')))"
  "decode_child DecodeNode upd'' n at s'' (inside kids n rest stk d) =
     with_decoder (after rest stk d) (bind_result (node_of 1 (Elem n at kids)) (\<lambda>v. Inr (upd'' v s'')))"
proof -
  show "decode_child (decode_struct f) upd n at s (inside kids n rest stk d) =
     with_decoder (after rest stk d) (bind_result (f (Elem n at kids)) (\<lambda>v. Inr (upd v s)))"
    unfolding decode_child_def decode_struct_tree by (cases "f (Elem n at kids)") simp_all
  show "decode_child (DecodeErr x0) upd' n at s' (inside kids n rest stk d) =
     with_decoder (after rest stk d) (bind_result (err_of x0 (Elem n at kids)) (\<lambda>v. Inr (upd' v s')))"
    unfolding decode_child_def DecodeErr_tree by (cases "err_of x0 (Elem n at kids)") simp_all
  show "decode_child DecodeNode upd'' n at s'' (inside kids n rest stk d) =
     with_decoder (after rest stk d) (bind_result (node_of 1 (Elem n at kids)) (\<lambda>v. Inr (upd'' v s'')))"
    unfolding decode_child_def DecodeNode_tree
    by (cases "node_of 1 (Elem n at kids)") (simp_all del: node_of.simps)
qed

text \<open>A list field: every element appends one value.\<close>

lemma fold_result_upd:
  "(\<And>x s. x \<in> set xs \<Longrightarrow> f (g x) s = Inr (upd x s)) \<Longrightarrow> fold_result f (map g xs) s = Inr (fold upd xs s)"
  by (induction xs arbitrary: s) auto

definition go_int :: "int \<Rightarrow> bool" where
  "go_int i \<longleftrightarrow> int_min \<le> i \<and> i \<le> int_max"

lemma nat_string_digits: "c \<in> set (nat_string n) \<Longrightarrow> \<exists>d. d < 10 \<and> c = digit_char d"
proof (induction n rule: nat_string.induct)
  case (1 n)
  show ?case
  proof (cases "n < 10 \<or> c \<notin> set (nat_string (n div 10))")
    case True
    with 1 have "c = digit_char n \<and> n < 10 \<or> c = digit_char (n mod 10)"
      by (auto simp: nat_string.simps [of n] split: if_splits)
    moreover have "n mod 10 < 10" by simp
    ultimately show ?thesis by blast
  next
    case False
    with 1 show ?thesis by simp
  qed
qed

lemma Itoa_chars: "c \<in> set (Itoa k) \<Longrightarrow> int_char c \<and> (of_char c :: nat) < 128 \<and> \<not> IsSpace (of_char c)"
  by (auto simp: Itoa_def int_char_def digit_val_char split: if_splits dest!: nat_string_digits)
    (simp_all add: IsSpace_def digit_char_def)

lemma Itoa_nonempty [simp]: "Itoa k \<noteq> []"
  by (simp add: Itoa_def)

lemma xml_int_Itoa_bits:
  assumes "go_int i" "- (2 ^ nat (bits - 1)) \<le> i" "i < 2 ^ nat (bits - 1)"
  shows "xml_int bits (Itoa i) = Inr i"
proof -
  obtain c cs where c: "Itoa i = c # cs" by (metis Itoa_nonempty neq_Nil_conv)
  with Itoa_chars [of c i] have "trim_left (map of_char (Itoa i)) = map of_char (Itoa i)"
    by (simp add: decode_rune_def)
  moreover have "map char_of (map of_char (Itoa i)) = (Itoa i :: string)"
    by (simp add: o_def)
  moreover have "takeWhile int_char (Itoa i) = Itoa i" "dropWhile int_char (Itoa i) = []"
    using Itoa_chars by (simp_all add: takeWhile_eq_all_conv)
  moreover have "Atoi (Itoa i) = Inr i" using assms(1) by (intro Atoi_Itoa) (simp_all add: go_int_def)
  ultimately show ?thesis
    using assms(2,3) by (simp add: xml_int_def Let_def del: takeWhile_eq_all_conv dropWhile_eq_Nil_conv)
qed

lemma xml_int_Itoa [simp]: "go_int i \<Longrightarrow> xml_int 64 (Itoa i) = Inr i"
  by (rule xml_int_Itoa_bits) (simp_all add: go_int_def int_min_def int_max_def)

definition go_ints :: "result_set \<Rightarrow> bool" where
  "go_ints v \<longleftrightarrow>
     (\<forall>i \<in> set (maybe id (rsCount v) @ maybe id (rsIndex v) @ maybe id (rsMax v)
        @ (case rsFirst v of None \<Rightarrow> [] | Some f \<Rightarrow> maybe id (fsIndex f))). go_int i)"

lemma decode_first_elem:
  assumes "\<forall>i \<in> set (maybe id (fsIndex v)). go_int i"
  shows "decode_first zero_first (on_wire ns (first_elem v)) = Inr (v\<lparr>fsXMLName := XName ns ''first''\<rparr>)"
  using assms
  by (cases v; cases "fsIndex v") (auto simp: decode_first_def first_elem_def plain_name_def expect_name_def zero_first_def)

lemma wire_first [simp]: "elem_name (on_wire ns (first_elem v)) = XName ns ''first''"
  by (simp add: first_elem_def plain_name_def)

definition named_result_set :: "result_set \<Rightarrow> result_set" where
  "named_result_set v =
     v\<lparr>rsXMLName := XName NSRsm ''set'', rsFirst := map_option (\<lambda>f. f\<lparr>fsXMLName := XName NSRsm ''first''\<rparr>) (rsFirst v)\<rparr>"

text \<open>An optional field is read when it was not set before.\<close>

lemma ResultSet_child_fields:
  "rsAfter s = None \<Longrightarrow> fold_result ResultSet_child (maybe (on_wire ns \<circ> text_elem ''after'') x) s = Inr (s\<lparr>rsAfter := x\<rparr>)"
  "rsBefore s = None \<Longrightarrow> fold_result ResultSet_child (maybe (on_wire ns \<circ> text_elem ''before'') x) s = Inr (s\<lparr>rsBefore := x\<rparr>)"
  "rsLast s = None \<Longrightarrow> fold_result ResultSet_child (maybe (on_wire ns \<circ> text_elem ''last'') x) s = Inr (s\<lparr>rsLast := x\<rparr>)"
  "rsCount s = None \<Longrightarrow> \<forall>i \<in> set (maybe id k). go_int i \<Longrightarrow>
     fold_result ResultSet_child (maybe (on_wire ns \<circ> int_elem ''count'') k) s = Inr (s\<lparr>rsCount := k\<rparr>)"
  "rsIndex s = None \<Longrightarrow> \<forall>i \<in> set (maybe id k). go_int i \<Longrightarrow>
     fold_result ResultSet_child (maybe (on_wire ns \<circ> int_elem ''index'') k) s = Inr (s\<lparr>rsIndex := k\<rparr>)"
  "rsMax s = None \<Longrightarrow> \<forall>i \<in> set (maybe id k). go_int i \<Longrightarrow>
     fold_result ResultSet_child (maybe (on_wire ns \<circ> int_elem ''max'') k) s = Inr (s\<lparr>rsMax := k\<rparr>)"
  by (cases x; simp add: ResultSet_child_def | cases k; simp add: ResultSet_child_def)+

lemma ResultSet_child_first:
  assumes "rsFirst s = None" "\<forall>i \<in> set (case y of None \<Rightarrow> [] | Some f \<Rightarrow> maybe id (fsIndex f)). go_int i"
  shows "fold_result ResultSet_child (maybe (on_wire ns \<circ> first_elem) y) s
    = Inr (s\<lparr>rsFirst := map_option (\<lambda>f. f\<lparr>fsXMLName := XName ns ''first''\<rparr>) y\<rparr>)"
  using assms by (cases y) (simp_all add: ResultSet_child_def decode_first_elem)

lemma decode_result_set_elem:
  assumes "go_ints v"
  shows "decode_result_set zero_result_set (on_wire ns (result_set_elem v)) = Inr (named_result_set v)"
  using assms
  by (cases v)
    (simp add: result_set_elem_def decode_result_set_def expect_name_def NSRsm_def fold_result_append
      ResultSet_child_fields ResultSet_child_first go_ints_def zero_result_set_def named_result_set_def ball_Un)

end
