(* ===== verification/Forms.thy ===== *)
theory Forms
  imports ResultSets
begin

text \<open>
  \<^verbatim>\<open>stanza/form.go\<close>: data forms (XEP-0004), what \<^verbatim>\<open>encoding/xml\<close> reads into their structs and
  what it prints of them, by the tags of the fields. The field \<^verbatim>\<open>XMLName\<close> is kept where
  printing looks at it, which is where its tag has no name.
\<close>

subsection \<open>The data\<close>

record form_option =
  foLabel :: string
  foValuesList :: "string list"

record field =
  fiDescription :: string
  fiRequired :: "string option"
  fiValuesList :: "string list"
  fiOptions :: "form_option list"
  fiVar :: string
  fiType :: string
  fiLabel :: string

record form_item =
  fmiXMLName :: xname
  fmiFields :: "field list"

text \<open>The pointers in \<^verbatim>\<open>Fields\<close> are taken to be not nil.\<close>

record form =
  fmInstructions :: "string list"
  fmTitle :: string
  fmFields :: "field list"
  fmReported :: "form_item option"
  fmItems :: "form_item list"
  fmType :: string

definition zero_form_option :: form_option where
  "zero_form_option = \<lparr>foLabel = [], foValuesList = []\<rparr>"

definition zero_field :: field where
  "zero_field = \<lparr>fiDescription = [], fiRequired = None, fiValuesList = [], fiOptions = [], fiVar = [], fiType = [], fiLabel = []\<rparr>"

definition zero_form :: form where
  "zero_form = \<lparr>fmInstructions = [], fmTitle = [], fmFields = [], fmReported = None, fmItems = [], fmType = []\<rparr>"

definition NewForm :: "field list \<Rightarrow> string \<Rightarrow> form" where
  "NewForm fs ty = zero_form\<lparr>fmType := ty, fmFields := fs\<rparr>"

subsection \<open>Reading\<close>

definition decode_form_option :: "xml \<Rightarrow> error + form_option" where
  "decode_form_option t =
     bind_result (expect_name [] ''option'' t) (\<lambda>_.
       decode_fields (\<lambda>l v s. Inr (if l = ''label'' then s\<lparr>foLabel := v\<rparr> else s))
         (\<lambda>l k s. Inr (if l = ''value'' then s\<lparr>foValuesList := foValuesList s @ [elem_text k]\<rparr> else s)) t zero_form_option)"

definition field_attr :: "string \<Rightarrow> string \<Rightarrow> field \<Rightarrow> error + field" where
  "field_attr l v s =
     Inr (if l = ''var'' then s\<lparr>fiVar := v\<rparr> else if l = ''type'' then s\<lparr>fiType := v\<rparr>
          else if l = ''label'' then s\<lparr>fiLabel := v\<rparr> else s)"

definition field_child :: "string \<Rightarrow> xml \<Rightarrow> field \<Rightarrow> error + field" where
  "field_child l k s =
     (if l = ''desc'' then Inr (s\<lparr>fiDescription := elem_text k\<rparr>)
      else if l = ''required'' then Inr (s\<lparr>fiRequired := Some (elem_text k)\<rparr>)
      else if l = ''value'' then Inr (s\<lparr>fiValuesList := fiValuesList s @ [elem_text k]\<rparr>)
      else if l = ''option'' then bind_result (decode_form_option k) (\<lambda>v. Inr (s\<lparr>fiOptions := fiOptions s @ [v]\<rparr>))
      else Inr s)"

definition decode_field :: "xml \<Rightarrow> error + field" where
  "decode_field t = bind_result (expect_name [] ''field'' t) (\<lambda>_. decode_fields field_attr field_child t zero_field)"

definition decode_form_item :: "form_item \<Rightarrow> xml \<Rightarrow> error + form_item" where
  "decode_form_item v0 t =
     decode_fields (\<lambda>l v s. Inr s)
       (\<lambda>l k s. if l = ''field'' then bind_result (decode_field k) (\<lambda>v. Inr (s\<lparr>fmiFields := fmiFields s @ [v]\<rparr>)) else Inr s)
       t (v0\<lparr>fmiXMLName := elem_name t\<rparr>)"

definition zero_form_item :: form_item where
  "zero_form_item = \<lparr>fmiXMLName = XName [] [], fmiFields = []\<rparr>"

definition form_child :: "string \<Rightarrow> xml \<Rightarrow> form \<Rightarrow> error + form" where
  "form_child l k s =
     (if l = ''instructions'' then Inr (s\<lparr>fmInstructions := fmInstructions s @ [elem_text k]\<rparr>)
      else if l = ''title'' then Inr (s\<lparr>fmTitle := elem_text k\<rparr>)
      else if l = ''field'' then bind_result (decode_field k) (\<lambda>v. Inr (s\<lparr>fmFields := fmFields s @ [v]\<rparr>))
      else if l = ''reported'' then
        bind_result (decode_form_item (case fmReported s of None \<Rightarrow> zero_form_item | Some r \<Rightarrow> r) k)
          (\<lambda>v. Inr (s\<lparr>fmReported := Some v\<rparr>))
      else if l = ''item'' then bind_result (decode_form_item zero_form_item k) (\<lambda>v. Inr (s\<lparr>fmItems := fmItems s @ [v]\<rparr>))
      else Inr s)"

definition NSData :: string where "NSData = ''jabber:x:data''"

definition decode_form :: "form \<Rightarrow> xml \<Rightarrow> error + form" where
  "decode_form v0 t =
     bind_result (expect_name NSData ''x'' t) (\<lambda>_.
       decode_fields (\<lambda>l v s. Inr (if l = ''type'' then s\<lparr>fmType := v\<rparr> else s)) form_child t v0)"

subsection \<open>Printing\<close>

definition form_option_elem :: "form_option \<Rightarrow> xml" where
  "form_option_elem v = Elem (plain_name ''option'') (opt_attr ''label'' (foLabel v)) (map (text_elem ''value'') (foValuesList v))"

definition field_elem :: "field \<Rightarrow> xml" where
  "field_elem v =
     Elem (plain_name ''field'') (opt_attr ''var'' (fiVar v) @ opt_attr ''type'' (fiType v) @ opt_attr ''label'' (fiLabel v))
       (opt_elem ''desc'' (fiDescription v) @ maybe (text_elem ''required'') (fiRequired v)
        @ map (text_elem ''value'') (fiValuesList v) @ map form_option_elem (fiOptions v))"

text \<open>The struct's \<^verbatim>\<open>XMLName\<close> comes before the name of the field that holds it.\<close>

definition form_item_elem :: "string \<Rightarrow> form_item \<Rightarrow> xml" where
  "form_item_elem l v =
     Elem (if nLocal (fmiXMLName v) = [] then plain_name l else fmiXMLName v) [] (map field_elem (fmiFields v))"

definition form_elem :: "form \<Rightarrow> xml" where
  "form_elem v =
     Elem (XName NSData ''x'') [(plain_name ''type'', fmType v)]
       (map (text_elem ''instructions'') (fmInstructions v) @ opt_elem ''title'' (fmTitle v)
        @ map field_elem (fmFields v) @ maybe (form_item_elem ''reported'') (fmReported v)
        @ map (form_item_elem ''item'') (fmItems v))"

subsection \<open>Reading what was printed\<close>

lemma is_elem_form [simp]:
  "is_elem (\<lambda>_. True) (form_option_elem x)" "is_elem (\<lambda>_. True) (field_elem f)"
  "is_elem (\<lambda>_. True) (form_item_elem l it)" "is_elem (\<lambda>_. True) (form_elem fm)"
  by (simp_all add: form_option_elem_def field_elem_def form_item_elem_def form_elem_def)

lemma elemental_form [simp]:
  "elemental form_option_elem" "elemental field_elem" "elemental (form_item_elem l)" "elemental form_elem"
  by (simp_all add: elemental_def)

lemma fold_snoc:
  "fold (\<lambda>x s. s\<lparr>foValuesList := foValuesList s @ [x]\<rparr>) xs s = s\<lparr>foValuesList := foValuesList s @ xs\<rparr>"
  "fold (\<lambda>x s. s\<lparr>fiValuesList := fiValuesList s @ [x]\<rparr>) xs t = t\<lparr>fiValuesList := fiValuesList t @ xs\<rparr>"
  "fold (\<lambda>x s. s\<lparr>fiOptions := fiOptions s @ [x]\<rparr>) ys t = t\<lparr>fiOptions := fiOptions t @ ys\<rparr>"
  "fold (\<lambda>x s. s\<lparr>fmiFields := fmiFields s @ [x]\<rparr>) zs u = u\<lparr>fmiFields := fmiFields u @ zs\<rparr>"
  "fold (\<lambda>x s. s\<lparr>fmInstructions := fmInstructions s @ [x]\<rparr>) xs w = w\<lparr>fmInstructions := fmInstructions w @ xs\<rparr>"
  "fold (\<lambda>x s. s\<lparr>fmFields := fmFields s @ [x]\<rparr>) zs w = w\<lparr>fmFields := fmFields w @ zs\<rparr>"
  subgoal by (induction xs arbitrary: s) simp_all
  subgoal by (induction xs arbitrary: t) simp_all
  subgoal by (induction ys arbitrary: t) simp_all
  subgoal by (induction zs arbitrary: u) simp_all
  subgoal by (induction xs arbitrary: w) simp_all
  subgoal by (induction zs arbitrary: w) simp_all
  done

lemma decode_form_option_elem: "decode_form_option (on_wire ns (form_option_elem v)) = Inr v"
proof -
  have f: "fold_result (\<lambda>k s. Inr (if nLocal (elem_name k) = ''value'' then s\<lparr>foValuesList := foValuesList s @ [elem_text k]\<rparr> else s))
      (map (on_wire ns \<circ> text_elem ''value'') vs) s = Inr (s\<lparr>foValuesList := foValuesList s @ vs\<rparr>)" for vs s
    by (subst fold_result_upd [where upd = "\<lambda>x s. s\<lparr>foValuesList := foValuesList s @ [x]\<rparr>"]) (simp_all add: fold_snoc)
  show ?thesis
    by (cases v) (simp add: form_option_elem_def decode_form_option_def decode_fields_def expect_name_def plain_name_def
        opt_attr_def zero_form_option_def Let_def f)
qed

lemma wire_name:
  "elem_name (on_wire ns (form_option_elem v)) = XName ns ''option''" "elem_name (on_wire ns (field_elem f)) = XName ns ''field''"
  by (simp_all add: form_option_elem_def field_elem_def plain_name_def Let_def)

lemma decode_field_elem: "decode_field (on_wire ns (field_elem v)) = Inr v"
proof -
  let ?f = "\<lambda>k. field_child (nLocal (elem_name k)) k"
  have val: "fold_result ?f (map (on_wire ns \<circ> text_elem ''value'') vs) s = Inr (s\<lparr>fiValuesList := fiValuesList s @ vs\<rparr>)" for vs s
    by (subst fold_result_upd [where f = ?f and upd = "\<lambda>x s. s\<lparr>fiValuesList := fiValuesList s @ [x]\<rparr>"]) (simp_all add: fold_snoc field_child_def)
  have opt: "fold_result ?f (map (on_wire ns \<circ> form_option_elem) vs) s = Inr (s\<lparr>fiOptions := fiOptions s @ vs\<rparr>)" for vs s
    by (subst fold_result_upd [where f = ?f and upd = "\<lambda>x s. s\<lparr>fiOptions := fiOptions s @ [x]\<rparr>"]) (simp_all add: fold_snoc field_child_def wire_name decode_form_option_elem)
  show ?thesis
    by (cases v; cases "fiRequired v")
      (auto simp: field_elem_def decode_field_def decode_fields_def expect_name_def plain_name_def opt_attr_def opt_elem_def
        zero_field_def Let_def fold_result_append val opt field_attr_def field_child_def)
qed

definition named :: "string \<Rightarrow> form_item \<Rightarrow> form_item" where
  "named l v = v\<lparr>fmiXMLName := XName NSData l\<rparr>"

definition named_form :: "form \<Rightarrow> form" where
  "named_form f = f\<lparr>fmReported := map_option (named ''reported'') (fmReported f), fmItems := map (named ''item'') (fmItems f)\<rparr>"

text \<open>The items of a form that a program made, or that was read.\<close>

definition fresh_or_named :: "string \<Rightarrow> form_item \<Rightarrow> bool" where
  "fresh_or_named l v \<longleftrightarrow> fmiXMLName v \<in> {XName [] [], XName NSData l}"

lemma decode_form_item_elem:
  assumes "fresh_or_named l v" "l \<noteq> []"
  shows "decode_form_item zero_form_item (on_wire NSData (form_item_elem l v)) = Inr (named l v)"
    and "elem_name (on_wire NSData (form_item_elem l v)) = XName NSData l"
proof -
  let ?f = "\<lambda>k s. if nLocal (elem_name k) = ''field''
    then bind_result (decode_field k) (\<lambda>v. Inr (s\<lparr>fmiFields := fmiFields s @ [v]\<rparr>)) else Inr s"
  have f: "fold_result ?f (map (on_wire ns \<circ> field_elem) vs) s = Inr (s\<lparr>fmiFields := fmiFields s @ vs\<rparr>)" for vs s ns
    by (subst fold_result_upd [where f = ?f and upd = "\<lambda>x s. s\<lparr>fmiFields := fmiFields s @ [x]\<rparr>"])
      (simp_all add: fold_snoc wire_name decode_field_elem)
  have n: "NSData \<noteq> []" by (simp add: NSData_def)
  show "decode_form_item zero_form_item (on_wire NSData (form_item_elem l v)) = Inr (named l v)"
    "elem_name (on_wire NSData (form_item_elem l v)) = XName NSData l"
    using assms n by (cases v; auto simp: fresh_or_named_def form_item_elem_def decode_form_item_def decode_fields_def plain_name_def
        zero_form_item_def named_def Let_def f)+
qed

lemma decode_form_elem:
  assumes "case fmReported f of None \<Rightarrow> True | Some r \<Rightarrow> fresh_or_named ''reported'' r" "list_all (fresh_or_named ''item'') (fmItems f)"
  shows "decode_form zero_form (on_wire ns (form_elem f)) = Inr (named_form f)"
proof -
  let ?f = "\<lambda>k. form_child (nLocal (elem_name k)) k"
  have ins: "fold_result ?f (map (on_wire NSData \<circ> text_elem ''instructions'') vs) s = Inr (s\<lparr>fmInstructions := fmInstructions s @ vs\<rparr>)" for vs s
    by (subst fold_result_upd [where f = ?f and upd = "\<lambda>x s. s\<lparr>fmInstructions := fmInstructions s @ [x]\<rparr>"])
      (simp_all add: fold_snoc form_child_def)
  have fields: "fold_result ?f (map (on_wire NSData \<circ> field_elem) vs) s = Inr (s\<lparr>fmFields := fmFields s @ vs\<rparr>)" for vs s
    by (subst fold_result_upd [where f = ?f and upd = "\<lambda>x s. s\<lparr>fmFields := fmFields s @ [x]\<rparr>"])
      (simp_all add: fold_snoc form_child_def wire_name decode_field_elem)
  have items: "fold_result ?f (map (on_wire NSData \<circ> form_item_elem ''item'') vs) s = Inr (s\<lparr>fmItems := fmItems s @ map (named ''item'') vs\<rparr>)"
    if "list_all (fresh_or_named ''item'') vs" for vs s
    using that by (induction vs arbitrary: s) (simp_all add: form_child_def decode_form_item_elem)
  have rep: "fold_result ?f (maybe (on_wire NSData \<circ> form_item_elem ''reported'') r) s = Inr (s\<lparr>fmReported := map_option (named ''reported'') r\<rparr>)"
    if "fmReported s = None" "case r of None \<Rightarrow> True | Some r \<Rightarrow> fresh_or_named ''reported'' r" for r s
    using that by (cases r) (simp_all add: form_child_def decode_form_item_elem)
  have title: "fold_result ?f (map (on_wire NSData) (opt_elem ''title'' t)) s = Inr (if t = [] then s else s\<lparr>fmTitle := t\<rparr>)" for t s
    by (simp add: opt_elem_def form_child_def)
  have n: "NSData \<noteq> []" by (simp add: NSData_def)
  show ?thesis
    using assms n
    by (cases f) (auto simp: form_elem_def decode_form_def decode_fields_def expect_name_def plain_name_def zero_form_def Let_def
        fold_result_append ins title fields rep items named_form_def)
qed

definition sample_form :: form where
  "sample_form = (NewForm [zero_field\<lparr>fiVar := ''FORM_TYPE'', fiType := ''hidden'', fiValuesList := [''a'', ''b'']\<rparr>] ''submit'')
     \<lparr>fmItems := [zero_form_item]\<rparr>"

text \<open>
  Printing a form and reading it again gives the form back, with all its fields, options and
  values in their order; only the element names of its items are filled in.
\<close>

theorem form_roundtrip:
  assumes "case fmReported f of None \<Rightarrow> True | Some r \<Rightarrow> fresh_or_named ''reported'' r" "list_all (fresh_or_named ''item'') (fmItems f)"
  shows "Unmarshal (decode_struct (decode_form zero_form)) (rescan [] (xml_tokens (form_elem f))) = Inr (named_form f)"
  by (simp add: Unmarshal_wire decode_form_elem [OF assms])

theorem form_roundtrip_witness:
  "Unmarshal (decode_struct (decode_form zero_form)) (rescan [] (xml_tokens (form_elem sample_form))) = Inr (named_form sample_form)"
  by (rule form_roundtrip) (simp_all add: sample_form_def NewForm_def zero_form_def zero_form_item_def fresh_or_named_def)

end
