(* ===== verification/Jid.thy ===== *)
theory Jid
  imports GoStrings
begin

text \<open>
  \<^verbatim>\<open>stanza/jid.go\<close>: parsing and printing of XMPP addresses. \<open>NewJid\<close> returns the JID or the
  error; the half-filled JID that Go returns beside an error is not used by any caller.
\<close>

record jid =
  jidNode :: string
  jidDomain :: string
  jidResource :: string

definition isInvalid :: "nat list \<Rightarrow> nat \<Rightarrow> bool" where
  "isInvalid invalidRunes c \<longleftrightarrow> IsSpace c \<or> (\<exists>r \<in> set invalidRunes. c = r)"

text \<open>\<^verbatim>\<open>'@', '/', '\'', '"', ':', '<', '>'\<close> and \<^verbatim>\<open>'@', '/'\<close>.\<close>

definition isUsernameValid :: "string \<Rightarrow> bool" where
  "isUsernameValid username \<longleftrightarrow>
     \<not> (\<exists>c \<in> set (runes username). isInvalid [64, 47, 39, 34, 58, 60, 62] c)"

definition isDomainValid :: "string \<Rightarrow> bool" where
  "isDomainValid domain \<longleftrightarrow>
     (if length domain = 0 then False
      else \<not> (\<exists>c \<in> set (runes domain). isInvalid [64, 47] c))"

text \<open>The local part and the rest of the address, before the resource is cut off.\<close>

definition split_node :: "string \<Rightarrow> error + string \<times> string" where
  "split_node sjid =
     (case SplitN2 sjid (CHR ''@'') of
        [d] \<Rightarrow> Inr ([], d)
      | n # d # _ \<Rightarrow>
          if n = [] then Inl (Err (''invalid jid '' @ [CHR 0x27] @ sjid))
          else if d = [] then Inl (Err ''domain cannot be empty'')
          else Inr (n, d)
      | [] \<Rightarrow> Inl (Panic ''index out of range''))"

definition split_resource :: "string \<Rightarrow> string \<times> string" where
  "split_resource domain =
     (case SplitN2 domain (CHR ''/'') of d # r # _ \<Rightarrow> (d, r) | _ \<Rightarrow> (domain, []))"

definition NewJid :: "string \<Rightarrow> error + jid" where
  "NewJid sjid =
     (if sjid = [] then Inl (Err ''jid cannot be empty'')
      else bind_result (split_node sjid) (\<lambda>(node, rest).
        let (domain, resource) = split_resource rest in
        if \<not> isUsernameValid node
        then Inl (Err (''invalid Node in Jid '' @ [CHR 0x27] @ sjid @ [CHR 0x27]))
        else if \<not> isDomainValid domain
        then Inl (Err (''invalid domain in Jid '' @ [CHR 0x27] @ sjid @ [CHR 0x27]))
        else Inr \<lparr>jidNode = node, jidDomain = domain, jidResource = resource\<rparr>))"

definition Jid_Bare :: "jid \<Rightarrow> string" where
  "Jid_Bare j = (if jidNode j = [] then jidDomain j else jidNode j @ ''@'' @ jidDomain j)"

definition Jid_Full :: "jid \<Rightarrow> string" where
  "Jid_Full j =
     (if jidResource j = [] then Jid_Bare j
      else if jidNode j = [] then jidDomain j @ ''/'' @ jidResource j
      else jidNode j @ ''@'' @ jidDomain j @ ''/'' @ jidResource j)"

text \<open>What \<open>NewJid\<close> guarantees of the JIDs it returns.\<close>

definition jid_wf :: "jid \<Rightarrow> bool" where
  "jid_wf j \<longleftrightarrow> isUsernameValid (jidNode j) \<and> isDomainValid (jidDomain j)"

subsection \<open>Validity and the separators\<close>

lemma invalid_at: "isInvalid (64 # rs) 64" "isInvalid (64 # 47 # rs) 47"
  by (simp_all add: isInvalid_def)

lemma ascii_rune_mem:
  "c \<in> set s \<Longrightarrow> (of_char c :: nat) < 128 \<Longrightarrow> of_char c \<in> set (runes s)"
  by (simp add: ascii_in_runes)

lemma username_no_sep:
  assumes "isUsernameValid s"
  shows "CHR ''@'' \<notin> set s" "CHR ''/'' \<notin> set s"
  using assms ascii_rune_mem [of "CHR ''@''" s] ascii_rune_mem [of "CHR ''/''" s]
  by (auto simp: isUsernameValid_def isInvalid_def)

lemma domain_no_sep:
  assumes "isDomainValid s"
  shows "CHR ''@'' \<notin> set s" "CHR ''/'' \<notin> set s" "s \<noteq> []"
  using assms ascii_rune_mem [of "CHR ''@''" s] ascii_rune_mem [of "CHR ''/''" s]
  by (auto simp: isDomainValid_def isInvalid_def split: if_splits)

lemma username_no_slash_at: "isUsernameValid (a @ CHR ''/'' # b) = False"
  using username_no_sep(2) [of "a @ CHR ''/'' # b"] by auto

lemma username_Nil [simp]: "isUsernameValid []"
  by (simp add: isUsernameValid_def runes_def)

lemma split_node_at:
  "CHR ''@'' \<notin> set n \<Longrightarrow> n \<noteq> [] \<Longrightarrow> d \<noteq> [] \<Longrightarrow> split_node (n @ CHR ''@'' # d) = Inr (n, d)"
  by (simp add: split_node_def SplitN2_append)

lemma split_node_none: "CHR ''@'' \<notin> set s \<Longrightarrow> split_node s = Inr ([], s)"
  by (simp add: split_node_def)

lemma split_resource_slash:
  "CHR ''/'' \<notin> set d \<Longrightarrow> split_resource (d @ CHR ''/'' # r) = (d, r)"
  by (simp add: split_resource_def SplitN2_append)

lemma split_resource_none: "CHR ''/'' \<notin> set d \<Longrightarrow> split_resource d = (d, [])"
  by (simp add: split_resource_def)

lemma split_node_Inr:
  assumes "split_node s = Inr (n, d)"
  shows "(n = [] \<and> d = s \<and> CHR ''@'' \<notin> set s) \<or> (n \<noteq> [] \<and> s = n @ CHR ''@'' # d)"
  using assms by (cases "CHR ''@''" s rule: SplitN2_cases) (auto simp: split_node_def split: if_splits)

lemma split_resource_cases:
  "split_resource d = (d', r) \<Longrightarrow> (r = [] \<and> d' = d) \<or> d = d' @ CHR ''/'' # r"
  by (cases "CHR ''/''" d rule: SplitN2_cases) (auto simp: split_resource_def)

lemma NewJid_Inr_iff:
  "NewJid s = Inr j \<longleftrightarrow>
     s \<noteq> [] \<and> (\<exists>rest. split_node s = Inr (jidNode j, rest)
       \<and> split_resource rest = (jidDomain j, jidResource j)) \<and> jid_wf j"
proof (cases "split_node s")
  case (Inl e)
  then show ?thesis by (simp add: NewJid_def)
next
  case (Inr nr)
  obtain n rest where nr: "nr = (n, rest)" by (cases nr)
  obtain d r where dr: "split_resource rest = (d, r)" by (cases "split_resource rest")
  show ?thesis
    using Inr nr dr by (cases j) (auto simp: NewJid_def jid_wf_def)
qed

text \<open>For an ASCII address both tests look at the bytes, which is how a concrete one is evaluated.\<close>

lemma valid_ascii:
  "is_ascii s \<Longrightarrow> isUsernameValid s \<longleftrightarrow>
     list_all (\<lambda>c. \<not> isInvalid [64, 47, 39, 34, 58, 60, 62] (of_char c)) s"
  "is_ascii s \<Longrightarrow> isDomainValid s \<longleftrightarrow>
     s \<noteq> [] \<and> list_all (\<lambda>c. \<not> isInvalid [64, 47] (of_char c)) s"
  by (auto simp: isUsernameValid_def isDomainValid_def runes_ascii list_all_iff)

lemmas jid_eval = valid_ascii is_ascii_def isInvalid_def IsSpace_def

text \<open>
  Printing a valid JID and parsing it back returns the same JID, when it has a local part
  or its resource has no \<^verbatim>\<open>@\<close>.
\<close>

theorem NewJid_Full:
  assumes "isUsernameValid (jidNode j)" "isDomainValid (jidDomain j)"
    and "jidNode j \<noteq> [] \<or> CHR ''@'' \<notin> set (jidResource j)"
  shows "NewJid (Jid_Full j) = Inr j"
proof -
  note sep = username_no_sep [OF assms(1)] domain_no_sep [OF assms(2)]
  have res: "split_resource (jidDomain j @ (if jidResource j = [] then [] else CHR ''/'' # jidResource j))
    = (jidDomain j, jidResource j)"
    using sep by (simp add: split_resource_none split_resource_slash)
  have "split_node (Jid_Full j)
    = Inr (jidNode j, jidDomain j @ (if jidResource j = [] then [] else CHR ''/'' # jidResource j))"
    using sep assms(3) by (auto simp: Jid_Full_def Jid_Bare_def split_node_at split_node_none)
  moreover have "Jid_Full j \<noteq> []"
    using sep by (simp add: Jid_Full_def Jid_Bare_def)
  ultimately show ?thesis
    using res assms by (auto simp: NewJid_Inr_iff jid_wf_def)
qed

theorem NewJid_Full_witness:
  "NewJid (Jid_Full \<lparr>jidNode = ''a'', jidDomain = ''b.c'', jidResource = ''r@/x''\<rparr>)
     = Inr \<lparr>jidNode = ''a'', jidDomain = ''b.c'', jidResource = ''r@/x''\<rparr>"
  by (rule NewJid_Full) (simp_all add: jid_eval)

text \<open>
  A parsed JID is valid and prints to the text it was read from, but for the \<^verbatim>\<open>/\<close> of an
  empty resource, which is dropped.
\<close>

theorem Full_NewJid:
  assumes "NewJid s = Inr j"
  shows "jid_wf j \<and> (Jid_Full j = s \<or> (jidResource j = [] \<and> s = Jid_Full j @ ''/''))"
proof -
  from assms obtain rest where j: "split_node s = Inr (jidNode j, rest)"
      "split_resource rest = (jidDomain j, jidResource j)" "jid_wf j"
    by (auto simp: NewJid_Inr_iff)
  from split_node_Inr [OF j(1)] split_resource_cases [OF j(2)] j(3) show ?thesis
    by (auto simp: Jid_Full_def Jid_Bare_def)
qed

theorem Full_NewJid_witness:
  "jid_wf \<lparr>jidNode = ''a'', jidDomain = ''b'', jidResource = []\<rparr>
   \<and> (Jid_Full \<lparr>jidNode = ''a'', jidDomain = ''b'', jidResource = []\<rparr> = ''a@b/''
      \<or> (jidResource \<lparr>jidNode = ''a'', jidDomain = ''b'', jidResource = []\<rparr> = []
         \<and> ''a@b/'' = Jid_Full \<lparr>jidNode = ''a'', jidDomain = ''b'', jidResource = []\<rparr> @ ''/''))"
  by (rule Full_NewJid [of "''a@b/''"])
    (simp add: NewJid_def split_node_def split_resource_def SplitN2_def jid_eval)

text \<open>
  An address without a local part whose resource holds an \<^verbatim>\<open>@\<close> is rejected: the text
  before that \<^verbatim>\<open>@\<close>, which holds the \<^verbatim>\<open>/\<close> of the resource, is taken for the local part.
\<close>

theorem NewJid_domain_resource_at:
  assumes "CHR ''@'' \<in> set r" "CHR ''@'' \<notin> set d" "CHR ''/'' \<notin> set d"
  shows "\<not> is_ok (NewJid (d @ ''/'' @ r))"
proof
  assume "is_ok (NewJid (d @ ''/'' @ r))"
  then obtain j where "NewJid (d @ ''/'' @ r) = Inr j" by (auto simp: is_ok_iff)
  then obtain rest where s: "split_node (d @ ''/'' @ r) = Inr (jidNode j, rest)"
    and v: "isUsernameValid (jidNode j)"
    by (auto simp: NewJid_Inr_iff jid_wf_def)
  from split_node_Inr [OF s] assms(1) have eq: "d @ ''/'' @ r = jidNode j @ CHR ''@'' # rest"
    by auto
  then obtain us where "(d = jidNode j @ us \<and> us @ CHR ''/'' # r = CHR ''@'' # rest)
      \<or> (d @ us = jidNode j \<and> CHR ''/'' # r = us @ CHR ''@'' # rest)"
    by (auto simp: append_eq_append_conv2)
  then have "CHR ''/'' \<in> set (jidNode j)"
    using assms(2) by (cases us) (force, metis append.simps(2) append_Cons in_set_conv_decomp list.sel(1) list.inject list.set_intros(1) set_append Un_iff)
  with username_no_sep(2) [OF v] show False by simp
qed

theorem NewJid_domain_resource_at_witness:
  "\<not> is_ok (NewJid (''domain.com'' @ ''/'' @ ''a@b''))"
  by (rule NewJid_domain_resource_at) simp_all

end
