(* ===== verification/PubSub.thy ===== *)
theory PubSub
  imports Forms Jid
begin

text \<open>
  The payload \<^verbatim>\<open>PubSubGeneric\<close> of \<^verbatim>\<open>stanza/pubsub.go\<close> (XEP-0060): its structs, how
  \<^verbatim>\<open>encoding/xml\<close> reads and prints them by their tags, and \<^verbatim>\<open>SubInfo.validate\<close>. The requests that
  are built of them are in the theory \<^verbatim>\<open>Requests\<close>.

  A struct with one field is represented by that field, a pointer by an \<open>option\<close>, and an
  \<^verbatim>\<open>XMLName\<close> only where \<^verbatim>\<open>Namespace\<close> returns it: the check of an \<^verbatim>\<open>XMLName\<close> whose tag is the
  name of the field that holds the struct cannot fail.
\<close>

definition NSPubSub :: string where "NSPubSub = ''http://jabber.org/protocol/pubsub''"

subsection \<open>The data\<close>

record sub_info =
  siNode :: string
  siJid :: string
  siSubId :: "string option"

record item =
  itId :: string
  itPublisher :: string
  itAny :: "node option"

record items =
  isList :: "item list"
  isMaxItems :: int
  isNode :: string
  isSubId :: string

record publish =
  pubNode :: string
  pubItems :: "item list"

record retract =
  rtNode :: string
  rtNotify :: "bool option"
  rtItems :: "item list"

record subscription =
  sbSubStatus :: string
  sbSubInfo :: sub_info
  sbRequired :: bool

record affiliation =
  afAffiliationStatus :: string
  afNode :: string

record affiliations =
  afsList :: "affiliation list"
  afsNode :: string

record sub_options =
  soSubInfo :: sub_info
  soForm :: "form option"

record default_conf =
  dfNode :: string
  dfType :: string
  dfForm :: "form option"

record pubsub_generic =
  psXMLName :: xname
  psCreate :: "string option"
  psConfigure :: "form option option"
  psSubscribe :: "sub_info option"
  psSubOptions :: "sub_options option"
  psPublish :: "publish option"
  psPublishOptions :: "form option option"
  psAffiliations :: "affiliations option"
  psDefault :: "default_conf option"
  psItems :: "items option"
  psRetract :: "retract option"
  psSubscription :: "subscription option"
  psSubscriptions :: "subscription list option"
  psUnsubscribe :: "sub_info option"
  psResultSet :: "result_set option"

definition zero_sub_info :: sub_info where
  "zero_sub_info = \<lparr>siNode = [], siJid = [], siSubId = None\<rparr>"

definition zero_item :: item where
  "zero_item = \<lparr>itId = [], itPublisher = [], itAny = None\<rparr>"

definition zero_items :: items where
  "zero_items = \<lparr>isList = [], isMaxItems = 0, isNode = [], isSubId = []\<rparr>"

definition zero_publish :: publish where
  "zero_publish = \<lparr>pubNode = [], pubItems = []\<rparr>"

definition zero_retract :: retract where
  "zero_retract = \<lparr>rtNode = [], rtNotify = None, rtItems = []\<rparr>"

definition zero_subscription :: subscription where
  "zero_subscription = \<lparr>sbSubStatus = [], sbSubInfo = zero_sub_info, sbRequired = False\<rparr>"

definition zero_affiliation :: affiliation where
  "zero_affiliation = \<lparr>afAffiliationStatus = [], afNode = []\<rparr>"

definition zero_affiliations :: affiliations where
  "zero_affiliations = \<lparr>afsList = [], afsNode = []\<rparr>"

definition zero_sub_options :: sub_options where
  "zero_sub_options = \<lparr>soSubInfo = zero_sub_info, soForm = None\<rparr>"

definition zero_default_conf :: default_conf where
  "zero_default_conf = \<lparr>dfNode = [], dfType = [], dfForm = None\<rparr>"

definition zero_pubsub :: pubsub_generic where
  "zero_pubsub = \<lparr>psXMLName = XName [] [], psCreate = None, psConfigure = None, psSubscribe = None, psSubOptions = None,
     psPublish = None, psPublishOptions = None, psAffiliations = None, psDefault = None, psItems = None, psRetract = None,
     psSubscription = None, psSubscriptions = None, psUnsubscribe = None, psResultSet = None\<rparr>"

definition SubInfo_validate :: "sub_info \<Rightarrow> error + unit" where
  "SubInfo_validate si =
     bind_result (NewJid (siJid si)) (\<lambda>_.
       if TrimSpace_is_empty (siNode si)
       then Inl (Err ''SubInfo must contain the node AND the subscriber JID in subscription config options requests'')
       else Inr ())"

subsection \<open>Reading\<close>

definition xml_bool :: "string \<Rightarrow> error + bool" where
  "xml_bool s =
     (if s = [] then Inr False
      else
        let t = map char_of (trim_left (map of_char s)) :: string;
            letter = (\<lambda>c. (48 \<le> (of_char c :: nat) \<and> (of_char c :: nat) \<le> 57)
              \<or> (65 \<le> (of_char c :: nat) \<and> (of_char c :: nat) \<le> 90) \<or> (97 \<le> (of_char c :: nat) \<and> (of_char c :: nat) \<le> 122)) in
        if TrimSpace_is_empty (dropWhile letter t) then ParseBool (takeWhile letter t)
        else Inl (LibErr ''strconv.ParseBool: parsing: invalid syntax''))"

definition or_zero :: "'a \<Rightarrow> 'a option \<Rightarrow> 'a" where
  "or_zero z x = (case x of None \<Rightarrow> z | Some a \<Rightarrow> a)"

lemma or_zero_simps [simp]: "or_zero z None = z" "or_zero z (Some a) = a"
  by (simp_all add: or_zero_def)

text \<open>A field that is a struct, a pointer to one (which is decoded into again), or a list of them.\<close>

definition set_field :: "error + 'a \<Rightarrow> ('a \<Rightarrow> 's \<Rightarrow> 's) \<Rightarrow> 's \<Rightarrow> error + 's" where
  "set_field r upd s = bind_result r (\<lambda>v. Inr (upd v s))"

lemma set_field_simps [simp]: "set_field (Inr v) upd s = Inr (upd v s)" "set_field (Inl e) upd s = Inl e"
  by (simp_all add: set_field_def)

definition no_child :: "string \<Rightarrow> xml \<Rightarrow> 'a \<Rightarrow> error + 'a" where
  "no_child l k s = Inr s"

definition sub_info_attr :: "string \<Rightarrow> string \<Rightarrow> sub_info \<Rightarrow> sub_info" where
  "sub_info_attr l v s =
     (if l = ''node'' then s\<lparr>siNode := v\<rparr> else if l = ''jid'' then s\<lparr>siJid := v\<rparr>
      else if l = ''subid'' then s\<lparr>siSubId := Some v\<rparr> else s)"

definition decode_sub_info :: "sub_info \<Rightarrow> xml \<Rightarrow> error + sub_info" where
  "decode_sub_info v0 t = decode_fields (\<lambda>l v s. Inr (sub_info_attr l v s)) no_child t v0"

definition decode_form_field :: "form option \<Rightarrow> xml \<Rightarrow> error + form" where
  "decode_form_field old k = decode_form (or_zero zero_form old) k"

definition decode_sub_options :: "sub_options \<Rightarrow> xml \<Rightarrow> error + sub_options" where
  "decode_sub_options v0 t =
     decode_fields (\<lambda>l v s. Inr (s\<lparr>soSubInfo := sub_info_attr l v (soSubInfo s)\<rparr>))
       (\<lambda>l k s. if l = ''x'' then set_field (decode_form_field (soForm s) k) (\<lambda>v s. s\<lparr>soForm := Some v\<rparr>) s else Inr s) t v0"

text \<open>\<^verbatim>\<open>Any *Node `xml:",any"`\<close> takes every child element; each replaces the one before.\<close>

definition decode_item :: "xml \<Rightarrow> error + item" where
  "decode_item t =
     decode_fields
       (\<lambda>l v s. Inr (if l = ''id'' then s\<lparr>itId := v\<rparr> else if l = ''publisher'' then s\<lparr>itPublisher := v\<rparr> else s))
       (\<lambda>l k s. set_field (node_of 1 k) (\<lambda>v s. s\<lparr>itAny := Some v\<rparr>) s) t zero_item"

definition decode_items :: "items \<Rightarrow> xml \<Rightarrow> error + items" where
  "decode_items v0 t =
     decode_fields
       (\<lambda>l v s. if l = ''max_items'' then set_field (xml_int 64 v) (\<lambda>i s. s\<lparr>isMaxItems := i\<rparr>) s
          else Inr (if l = ''node'' then s\<lparr>isNode := v\<rparr> else if l = ''subid'' then s\<lparr>isSubId := v\<rparr> else s))
       (\<lambda>l k s. if l = ''item'' then set_field (decode_item k) (\<lambda>v s. s\<lparr>isList := isList s @ [v]\<rparr>) s else Inr s) t v0"

definition decode_publish :: "publish \<Rightarrow> xml \<Rightarrow> error + publish" where
  "decode_publish v0 t =
     decode_fields (\<lambda>l v s. Inr (if l = ''node'' then s\<lparr>pubNode := v\<rparr> else s))
       (\<lambda>l k s. if l = ''item'' then set_field (decode_item k) (\<lambda>v s. s\<lparr>pubItems := pubItems s @ [v]\<rparr>) s else Inr s) t v0"

definition decode_retract :: "retract \<Rightarrow> xml \<Rightarrow> error + retract" where
  "decode_retract v0 t =
     decode_fields
       (\<lambda>l v s. if l = ''node'' then Inr (s\<lparr>rtNode := v\<rparr>)
          else if l = ''notify'' then set_field (xml_bool v) (\<lambda>b s. s\<lparr>rtNotify := Some b\<rparr>) s else Inr s)
       (\<lambda>l k s. if l = ''item'' then set_field (decode_item k) (\<lambda>v s. s\<lparr>rtItems := rtItems s @ [v]\<rparr>) s else Inr s) t v0"

text \<open>The field \<^verbatim>\<open>Required\<close> has no tag: its element is called \<^verbatim>\<open>Required\<close>.\<close>

definition decode_subscription :: "subscription \<Rightarrow> xml \<Rightarrow> error + subscription" where
  "decode_subscription v0 t =
     decode_fields
       (\<lambda>l v s. Inr (if l = ''subscription'' then s\<lparr>sbSubStatus := v\<rparr> else s\<lparr>sbSubInfo := sub_info_attr l v (sbSubInfo s)\<rparr>))
       (\<lambda>l k s. Inr (if l = ''Required'' then s\<lparr>sbRequired := True\<rparr> else s)) t v0"

definition decode_subscriptions :: "subscription list \<Rightarrow> xml \<Rightarrow> error + subscription list" where
  "decode_subscriptions v0 t =
     decode_fields (\<lambda>l v s. Inr s)
       (\<lambda>l k s. if l = ''subscription'' then set_field (decode_subscription zero_subscription k) (\<lambda>v s. s @ [v]) s else Inr s) t v0"

text \<open>The tag of \<^verbatim>\<open>AffiliationStatus\<close> lacks \<^verbatim>\<open>,attr\<close>: it is a child element.\<close>

definition decode_affiliation :: "xml \<Rightarrow> error + affiliation" where
  "decode_affiliation t =
     decode_fields (\<lambda>l v s. Inr (if l = ''node'' then s\<lparr>afNode := v\<rparr> else s))
       (\<lambda>l k s. Inr (if l = ''affiliation'' then s\<lparr>afAffiliationStatus := elem_text k\<rparr> else s)) t zero_affiliation"

definition decode_affiliations :: "affiliations \<Rightarrow> xml \<Rightarrow> error + affiliations" where
  "decode_affiliations v0 t =
     decode_fields (\<lambda>l v s. Inr (if l = ''node'' then s\<lparr>afsNode := v\<rparr> else s))
       (\<lambda>l k s. if l = ''affiliation'' then set_field (decode_affiliation k) (\<lambda>v s. s\<lparr>afsList := afsList s @ [v]\<rparr>) s else Inr s) t v0"

definition decode_default :: "default_conf \<Rightarrow> xml \<Rightarrow> error + default_conf" where
  "decode_default v0 t =
     decode_fields (\<lambda>l v s. Inr (if l = ''node'' then s\<lparr>dfNode := v\<rparr> else if l = ''type'' then s\<lparr>dfType := v\<rparr> else s))
       (\<lambda>l k s. if l = ''x'' then set_field (decode_form_field (dfForm s) k) (\<lambda>v s. s\<lparr>dfForm := Some v\<rparr>) s else Inr s) t v0"

definition decode_create :: "string \<Rightarrow> xml \<Rightarrow> error + string" where
  "decode_create v0 t = decode_fields (\<lambda>l v s. Inr (if l = ''node'' then v else s)) no_child t v0"

definition decode_configure :: "form option \<Rightarrow> xml \<Rightarrow> error + form option" where
  "decode_configure v0 t =
     decode_fields (\<lambda>l v s. Inr s)
       (\<lambda>l k s. if l = ''x'' then set_field (decode_form_field s k) (\<lambda>v s. Some v) s else Inr s) t v0"

text \<open>The field \<^verbatim>\<open>Form *Form\<close> without a tag has the whole name of \<^verbatim>\<open>Form\<close>'s own \<^verbatim>\<open>XMLName\<close>.\<close>

definition decode_untagged_form :: "form option \<Rightarrow> xml \<Rightarrow> error + form option" where
  "decode_untagged_form v0 t =
     decode_fields (\<lambda>l v s. Inr s)
       (\<lambda>l k s. if elem_name k = XName NSData ''x'' then set_field (decode_form_field s k) (\<lambda>v s. Some v) s else Inr s) t v0"

definition pubsub_child :: "string \<Rightarrow> xml \<Rightarrow> pubsub_generic \<Rightarrow> error + pubsub_generic" where
  "pubsub_child l k s =
     (if l = ''create'' then set_field (decode_create (or_zero [] (psCreate s)) k) (\<lambda>v s. s\<lparr>psCreate := Some v\<rparr>) s
      else if l = ''configure'' then set_field (decode_configure (or_zero None (psConfigure s)) k) (\<lambda>v s. s\<lparr>psConfigure := Some v\<rparr>) s
      else if l = ''subscribe'' then set_field (decode_sub_info (or_zero zero_sub_info (psSubscribe s)) k) (\<lambda>v s. s\<lparr>psSubscribe := Some v\<rparr>) s
      else if l = ''options'' then set_field (decode_sub_options (or_zero zero_sub_options (psSubOptions s)) k) (\<lambda>v s. s\<lparr>psSubOptions := Some v\<rparr>) s
      else if l = ''publish'' then set_field (decode_publish (or_zero zero_publish (psPublish s)) k) (\<lambda>v s. s\<lparr>psPublish := Some v\<rparr>) s
      else if l = ''publish-options'' then set_field (decode_untagged_form (or_zero None (psPublishOptions s)) k) (\<lambda>v s. s\<lparr>psPublishOptions := Some v\<rparr>) s
      else if l = ''affiliations'' then set_field (decode_affiliations (or_zero zero_affiliations (psAffiliations s)) k) (\<lambda>v s. s\<lparr>psAffiliations := Some v\<rparr>) s
      else if l = ''default'' then set_field (decode_default (or_zero zero_default_conf (psDefault s)) k) (\<lambda>v s. s\<lparr>psDefault := Some v\<rparr>) s
      else if l = ''items'' then set_field (decode_items (or_zero zero_items (psItems s)) k) (\<lambda>v s. s\<lparr>psItems := Some v\<rparr>) s
      else if l = ''retract'' then set_field (decode_retract (or_zero zero_retract (psRetract s)) k) (\<lambda>v s. s\<lparr>psRetract := Some v\<rparr>) s
      else if l = ''subscription'' then set_field (decode_subscription (or_zero zero_subscription (psSubscription s)) k) (\<lambda>v s. s\<lparr>psSubscription := Some v\<rparr>) s
      else if l = ''subscriptions'' then set_field (decode_subscriptions (or_zero [] (psSubscriptions s)) k) (\<lambda>v s. s\<lparr>psSubscriptions := Some v\<rparr>) s
      else if l = ''unsubscribe'' then set_field (decode_sub_info (or_zero zero_sub_info (psUnsubscribe s)) k) (\<lambda>v s. s\<lparr>psUnsubscribe := Some v\<rparr>) s
      else if l = ''set'' then set_field (decode_result_set (or_zero zero_result_set (psResultSet s)) k) (\<lambda>v s. s\<lparr>psResultSet := Some v\<rparr>) s
      else Inr s)"

definition decode_pubsub :: "pubsub_generic \<Rightarrow> xml \<Rightarrow> error + pubsub_generic" where
  "decode_pubsub v0 t =
     bind_result (expect_name NSPubSub ''pubsub'' t) (\<lambda>n.
       decode_fields (\<lambda>l v s. Inr s) pubsub_child t (v0\<lparr>psXMLName := n\<rparr>))"

subsection \<open>Printing\<close>

fun node_elem :: "node \<Rightarrow> xml" where
  "node_elem (Node nm at c ks) = Elem nm (filter (\<lambda>a. nLocal (fst a) \<noteq> []) at) (map node_elem ks @ chars c)"

definition FormatBool :: "bool \<Rightarrow> string" where
  "FormatBool b = (if b then ''true'' else ''false'')"

definition sub_info_attrs :: "sub_info \<Rightarrow> xattr list" where
  "sub_info_attrs v = opt_attr ''node'' (siNode v) @ opt_attr ''jid'' (siJid v) @ maybe (Pair (plain_name ''subid'')) (siSubId v)"

definition sub_info_elem :: "string \<Rightarrow> sub_info \<Rightarrow> xml" where
  "sub_info_elem l v = Elem (plain_name l) (sub_info_attrs v) []"

definition sub_options_elem :: "sub_options \<Rightarrow> xml" where
  "sub_options_elem v = Elem (plain_name ''options'') (sub_info_attrs (soSubInfo v)) (maybe form_elem (soForm v))"

definition item_elem :: "item \<Rightarrow> xml" where
  "item_elem v =
     Elem (plain_name ''item'') (opt_attr ''id'' (itId v) @ opt_attr ''publisher'' (itPublisher v)) (maybe node_elem (itAny v))"

definition items_elem :: "items \<Rightarrow> xml" where
  "items_elem v =
     Elem (plain_name ''items'')
       ((if isMaxItems v = 0 then [] else [(plain_name ''max_items'', Itoa (isMaxItems v))])
        @ [(plain_name ''node'', isNode v)] @ opt_attr ''subid'' (isSubId v))
       (map item_elem (isList v))"

definition publish_elem :: "publish \<Rightarrow> xml" where
  "publish_elem v = Elem (plain_name ''publish'') [(plain_name ''node'', pubNode v)] (map item_elem (pubItems v))"

definition retract_elem :: "retract \<Rightarrow> xml" where
  "retract_elem v =
     Elem (plain_name ''retract'') ((plain_name ''node'', rtNode v) # maybe (\<lambda>b. (plain_name ''notify'', FormatBool b)) (rtNotify v))
       (map item_elem (rtItems v))"

definition subscription_elem :: "subscription \<Rightarrow> xml" where
  "subscription_elem v =
     Elem (plain_name ''subscription'') (opt_attr ''subscription'' (sbSubStatus v) @ sub_info_attrs (sbSubInfo v))
       (if sbRequired v then [Elem (plain_name ''Required'') [] []] else [])"

definition subscriptions_elem :: "subscription list \<Rightarrow> xml" where
  "subscriptions_elem v = Elem (plain_name ''subscriptions'') [] (map subscription_elem v)"

definition affiliation_elem :: "affiliation \<Rightarrow> xml" where
  "affiliation_elem v =
     Elem (plain_name ''affiliation'') [(plain_name ''node'', afNode v)] [text_elem ''affiliation'' (afAffiliationStatus v)]"

definition affiliations_elem :: "affiliations \<Rightarrow> xml" where
  "affiliations_elem v = Elem (plain_name ''affiliations'') (opt_attr ''node'' (afsNode v)) (map affiliation_elem (afsList v))"

definition default_elem :: "default_conf \<Rightarrow> xml" where
  "default_elem v =
     Elem (plain_name ''default'') (opt_attr ''node'' (dfNode v) @ opt_attr ''type'' (dfType v)) (maybe form_elem (dfForm v))"

definition create_elem :: "string \<Rightarrow> xml" where
  "create_elem node = Elem (plain_name ''create'') (opt_attr ''node'' node) []"

definition form_holder_elem :: "string \<Rightarrow> form option \<Rightarrow> xml" where
  "form_holder_elem l v = Elem (plain_name l) [] (maybe form_elem v)"

definition pubsub_elem :: "pubsub_generic \<Rightarrow> xml" where
  "pubsub_elem v =
     Elem (XName NSPubSub ''pubsub'') []
       (maybe create_elem (psCreate v) @ maybe (form_holder_elem ''configure'') (psConfigure v)
        @ maybe (sub_info_elem ''subscribe'') (psSubscribe v) @ maybe sub_options_elem (psSubOptions v)
        @ maybe publish_elem (psPublish v) @ maybe (form_holder_elem ''publish-options'') (psPublishOptions v)
        @ maybe affiliations_elem (psAffiliations v) @ maybe default_elem (psDefault v)
        @ maybe items_elem (psItems v) @ maybe retract_elem (psRetract v)
        @ maybe subscription_elem (psSubscription v) @ maybe subscriptions_elem (psSubscriptions v)
        @ maybe (sub_info_elem ''unsubscribe'') (psUnsubscribe v) @ maybe result_set_elem (psResultSet v))"

subsection \<open>Reading what was printed\<close>

lemma name_spaces [simp]: "NSPubSub \<noteq> []" "NSData \<noteq> []" "NSRsm \<noteq> []"
  by (simp_all add: NSPubSub_def NSData_def NSRsm_def)

lemma node_of_elem:
  "node_plain ns n \<Longrightarrow> depth + node_height n \<le> xmlElementMaxDepth \<Longrightarrow> node_of depth (on_wire ns (node_elem n)) = Inr n"
proof (induction n arbitrary: ns depth)
  case (Node nm at c ks)
  let ?sp = "nSpace nm"
  have kids: "node_kids depth nm at ns' cs (map (on_wire ?sp) (map node_elem xs @ chars c)) = Inr (Node nm at (cs @ c) (ns' @ xs))"
    if "\<forall>x \<in> set xs. node_of (Suc depth) (on_wire ?sp (node_elem x)) = Inr x" for xs ns' cs
    using that
  proof (induction xs arbitrary: ns')
    case (Cons x xs)
    moreover have "is_elem (\<lambda>_. True) (on_wire ?sp (node_elem x))" by (cases x) simp
    then obtain n at' kids where "on_wire ?sp (node_elem x) = Elem n at' kids"
      by (cases "on_wire ?sp (node_elem x)") auto
    ultimately show ?case by (simp del: node_of.simps)
  qed (simp add: chars_def)
  have "\<forall>x \<in> set ks. node_of (Suc depth) (on_wire ?sp (node_elem x)) = Inr x"
    using Node node_height_child [of _ ks nm at c] by (fastforce simp: list_all_iff)
  note all = kids [OF this, of "[]" "[]"]
  have at: "filter (\<lambda>a. nLocal (fst a) \<noteq> []) at = at" "filter not_xmlns at = at"
    using Node.prems(1) by (auto simp: list_all_iff plain_attr_def intro!: filter_True)
  have d: "\<not> xmlElementMaxDepth \<le> depth" using Node.prems(2) by simp
  have nm: "XName (nSpace nm) (nLocal nm) = nm" by simp
  show ?case
    using Node.prems(1) all at d nm by (cases "?sp = []") (simp_all add: not_xmlns_def)
qed

text \<open>What a service can read back of a request, and what it reads.\<close>

definition form_ok :: "form \<Rightarrow> bool" where
  "form_ok f \<longleftrightarrow> (case fmReported f of None \<Rightarrow> True | Some r \<Rightarrow> fresh_or_named ''reported'' r)
     \<and> list_all (fresh_or_named ''item'') (fmItems f)"

definition all_opt :: "('a \<Rightarrow> bool) \<Rightarrow> 'a option \<Rightarrow> bool" where
  "all_opt P x \<longleftrightarrow> (case x of None \<Rightarrow> True | Some a \<Rightarrow> P a)"

lemma all_opt_simps [simp]: "all_opt P None" "all_opt P (Some a) = P a"
  by (simp_all add: all_opt_def)

definition item_ok :: "item \<Rightarrow> bool" where
  "item_ok v \<longleftrightarrow> all_opt (\<lambda>n. node_plain NSPubSub n \<and> node_height n < xmlElementMaxDepth) (itAny v)"

definition pubsub_ok :: "pubsub_generic \<Rightarrow> bool" where
  "pubsub_ok v \<longleftrightarrow>
     all_opt (all_opt form_ok) (psConfigure v) \<and> all_opt (\<lambda>x. all_opt form_ok (soForm x)) (psSubOptions v)
     \<and> all_opt (all_opt form_ok) (psPublishOptions v) \<and> all_opt (\<lambda>x. all_opt form_ok (dfForm x)) (psDefault v)
     \<and> all_opt (\<lambda>x. list_all item_ok (pubItems x)) (psPublish v)
     \<and> all_opt (\<lambda>x. list_all item_ok (isList x) \<and> go_int (isMaxItems x)) (psItems v)
     \<and> all_opt (\<lambda>x. list_all item_ok (rtItems x)) (psRetract v)
     \<and> all_opt go_ints (psResultSet v)"

definition pubsub_read :: "pubsub_generic \<Rightarrow> pubsub_generic" where
  "pubsub_read v =
     v\<lparr>psXMLName := XName NSPubSub ''pubsub'',
       psConfigure := map_option (map_option named_form) (psConfigure v),
       psSubOptions := map_option (\<lambda>x. x\<lparr>soForm := map_option named_form (soForm x)\<rparr>) (psSubOptions v),
       psPublishOptions := map_option (map_option named_form) (psPublishOptions v),
       psDefault := map_option (\<lambda>x. x\<lparr>dfForm := map_option named_form (dfForm x)\<rparr>) (psDefault v),
       psResultSet := map_option named_result_set (psResultSet v)\<rparr>"

lemma decode_form_ok: "form_ok f \<Longrightarrow> decode_form zero_form (on_wire ns (form_elem f)) = Inr (named_form f)"
  using decode_form_elem by (simp add: form_ok_def)

lemma is_elem_pubsub [simp]:
  "is_elem (\<lambda>_. True) (item_elem i)" "is_elem (\<lambda>_. True) (subscription_elem s)" "is_elem (\<lambda>_. True) (affiliation_elem a)"
  "is_elem (\<lambda>_. True) (create_elem c)" "is_elem (\<lambda>_. True) (form_holder_elem l fo)" "is_elem (\<lambda>_. True) (sub_info_elem l si)"
  "is_elem (\<lambda>_. True) (sub_options_elem so)" "is_elem (\<lambda>_. True) (publish_elem p)" "is_elem (\<lambda>_. True) (affiliations_elem afs)"
  "is_elem (\<lambda>_. True) (default_elem df)" "is_elem (\<lambda>_. True) (items_elem its)" "is_elem (\<lambda>_. True) (retract_elem rt)"
  "is_elem (\<lambda>_. True) (subscriptions_elem sbs)" "is_elem (\<lambda>_. True) (node_elem n)" "is_elem (\<lambda>_. True) (pubsub_elem ps)"
  by (simp_all add: item_elem_def subscription_elem_def affiliation_elem_def create_elem_def form_holder_elem_def
      sub_info_elem_def sub_options_elem_def publish_elem_def affiliations_elem_def default_elem_def items_elem_def
      retract_elem_def subscriptions_elem_def pubsub_elem_def, cases n, simp)

lemma elemental_pubsub [simp]:
  "elemental item_elem" "elemental subscription_elem" "elemental affiliation_elem" "elemental create_elem"
  "elemental (form_holder_elem l)" "elemental (sub_info_elem l)" "elemental sub_options_elem" "elemental publish_elem"
  "elemental affiliations_elem" "elemental default_elem" "elemental items_elem" "elemental retract_elem"
  "elemental subscriptions_elem" "elemental node_elem"
  by (simp_all add: elemental_def)

lemma wire_names [simp]:
  "elem_name (on_wire ns (item_elem i)) = XName ns ''item''"
  "elem_name (on_wire ns (subscription_elem s)) = XName ns ''subscription''"
  "elem_name (on_wire ns (affiliation_elem a)) = XName ns ''affiliation''"
  "elem_name (on_wire ns (create_elem c)) = XName ns ''create''"
  "elem_name (on_wire ns (form_holder_elem l fo)) = XName ns l"
  "elem_name (on_wire ns (sub_info_elem l si)) = XName ns l"
  "elem_name (on_wire ns (sub_options_elem so)) = XName ns ''options''"
  "elem_name (on_wire ns (publish_elem p)) = XName ns ''publish''"
  "elem_name (on_wire ns (affiliations_elem afs)) = XName ns ''affiliations''"
  "elem_name (on_wire ns (default_elem df)) = XName ns ''default''"
  "elem_name (on_wire ns (items_elem its)) = XName ns ''items''"
  "elem_name (on_wire ns (retract_elem rt)) = XName ns ''retract''"
  "elem_name (on_wire ns (subscriptions_elem sbs)) = XName ns ''subscriptions''"
  "elem_name (on_wire ns (form_elem f)) = XName NSData ''x''"
  "elem_name (on_wire ns (result_set_elem rs)) = XName NSRsm ''set''"
  by (simp_all add: item_elem_def subscription_elem_def affiliation_elem_def create_elem_def form_holder_elem_def
      sub_info_elem_def sub_options_elem_def publish_elem_def affiliations_elem_def default_elem_def items_elem_def
      retract_elem_def subscriptions_elem_def form_elem_def result_set_elem_def)

lemma fold_result_Inr: "fold_result (\<lambda>x s. Inr (f x s)) xs s = Inr (fold f xs s)"
  by (induction xs arbitrary: s) simp_all

lemma fold_sub_attrs: "fold (\<lambda>a. sub_info_attr (nLocal (fst a)) (snd a)) (sub_info_attrs v) zero_sub_info = v"
  by (cases v; cases "siSubId v") (auto simp: sub_info_attrs_def sub_info_attr_def opt_attr_def zero_sub_info_def)

lemma fold_sub_infos:
  "fold (\<lambda>a s. s\<lparr>soSubInfo := sub_info_attr (nLocal (fst a)) (snd a) (soSubInfo s)\<rparr>) as s
     = s\<lparr>soSubInfo := fold (\<lambda>a. sub_info_attr (nLocal (fst a)) (snd a)) as (soSubInfo s)\<rparr>"
  by (induction as arbitrary: s) simp_all

lemma fold_form_field:
  assumes "all_opt form_ok x"
  shows "soForm s = None \<Longrightarrow>
      fold_result (\<lambda>k s. if nLocal (elem_name k) = ''x'' then set_field (decode_form_field (soForm s) k) (\<lambda>v s. s\<lparr>soForm := Some v\<rparr>) s else Inr s)
        (maybe (on_wire ns \<circ> form_elem) x) s = Inr (s\<lparr>soForm := map_option named_form x\<rparr>)"
    and "dfForm d = None \<Longrightarrow>
      fold_result (\<lambda>k s. if nLocal (elem_name k) = ''x'' then set_field (decode_form_field (dfForm s) k) (\<lambda>v s. s\<lparr>dfForm := Some v\<rparr>) s else Inr s)
        (maybe (on_wire ns \<circ> form_elem) x) d = Inr (d\<lparr>dfForm := map_option named_form x\<rparr>)"
  using assms by (cases x; simp add: decode_form_field_def decode_form_ok)+

lemma fold_items:
  assumes "list_all item_ok xs" "\<And>x. item_ok x \<Longrightarrow> decode_item (on_wire NSPubSub (item_elem x)) = Inr x"
  shows "fold_result (\<lambda>k s. if nLocal (elem_name k) = ''item'' then set_field (decode_item k) (\<lambda>v s. s\<lparr>isList := isList s @ [v]\<rparr>) s else Inr s)
        (map (on_wire NSPubSub \<circ> item_elem) xs) s = Inr (s\<lparr>isList := isList s @ xs\<rparr>)"
    and "fold_result (\<lambda>k s. if nLocal (elem_name k) = ''item'' then set_field (decode_item k) (\<lambda>v s. s\<lparr>pubItems := pubItems s @ [v]\<rparr>) s else Inr s)
        (map (on_wire NSPubSub \<circ> item_elem) xs) p = Inr (p\<lparr>pubItems := pubItems p @ xs\<rparr>)"
    and "fold_result (\<lambda>k s. if nLocal (elem_name k) = ''item'' then set_field (decode_item k) (\<lambda>v s. s\<lparr>rtItems := rtItems s @ [v]\<rparr>) s else Inr s)
        (map (on_wire NSPubSub \<circ> item_elem) xs) r = Inr (r\<lparr>rtItems := rtItems r @ xs\<rparr>)"
  subgoal using assms(1) by (induction xs arbitrary: s) (simp_all add: assms(2))
  subgoal using assms(1) by (induction xs arbitrary: p) (simp_all add: assms(2))
  subgoal using assms(1) by (induction xs arbitrary: r) (simp_all add: assms(2))
  done

lemma decode_item_elem:
  assumes "item_ok v"
  shows "decode_item (on_wire NSPubSub (item_elem v)) = Inr v"
proof -
  have "fold_result (\<lambda>k. set_field (node_of 1 k) (\<lambda>v s. s\<lparr>itAny := Some v\<rparr>)) (maybe (on_wire NSPubSub \<circ> node_elem) x) s
      = Inr (s\<lparr>itAny := x\<rparr>)"
    if "itAny s = None" "all_opt (\<lambda>n. node_plain NSPubSub n \<and> node_height n < xmlElementMaxDepth) x" for x and s :: item
    using that by (cases x) (simp_all add: node_of_elem)
  with assms show ?thesis
    by (cases v) (simp add: item_elem_def item_ok_def decode_item_def decode_fields_def zero_item_def opt_attr_def)
qed

lemma decode_sub_info_elem: "decode_sub_info zero_sub_info (on_wire ns (sub_info_elem l v)) = Inr v"
  by (simp add: decode_sub_info_def decode_fields_def sub_info_elem_def fold_result_Inr fold_sub_attrs)

lemma decode_sub_options_elem:
  assumes "all_opt form_ok (soForm v)"
  shows "decode_sub_options zero_sub_options (on_wire ns (sub_options_elem v)) = Inr (v\<lparr>soForm := map_option named_form (soForm v)\<rparr>)"
  using assms
  by (cases v) (simp add: decode_sub_options_def decode_fields_def sub_options_elem_def fold_result_Inr fold_sub_infos
      fold_sub_attrs zero_sub_options_def fold_form_field)

lemma decode_default_elem:
  assumes "all_opt form_ok (dfForm v)"
  shows "decode_default zero_default_conf (on_wire ns (default_elem v)) = Inr (v\<lparr>dfForm := map_option named_form (dfForm v)\<rparr>)"
  using assms
  by (cases v) (auto simp: decode_default_def decode_fields_def default_elem_def fold_result_Inr opt_attr_def
      zero_default_conf_def fold_form_field)

lemma decode_publish_elem:
  assumes "list_all item_ok (pubItems v)"
  shows "decode_publish zero_publish (on_wire NSPubSub (publish_elem v)) = Inr v"
  using assms by (cases v) (simp add: decode_publish_def decode_fields_def publish_elem_def zero_publish_def fold_items decode_item_elem)

lemma decode_items_elem:
  assumes "list_all item_ok (isList v)" "go_int (isMaxItems v)"
  shows "decode_items zero_items (on_wire NSPubSub (items_elem v)) = Inr v"
  using assms by (cases v) (auto simp: decode_items_def decode_fields_def items_elem_def zero_items_def opt_attr_def fold_items decode_item_elem)

lemma xml_bool_FormatBool: "xml_bool (FormatBool b) = Inr b"
proof -
  have "trim_left (map of_char (FormatBool b)) = map of_char (FormatBool b)"
    by (simp add: FormatBool_def decode_rune_def IsSpace_def)
  moreover have "map char_of (map of_char (FormatBool b)) = FormatBool b"
    by (simp add: o_def)
  ultimately show ?thesis
    by (simp add: xml_bool_def) (simp add: FormatBool_def ParseBool_def Let_def)
qed

lemma decode_retract_elem:
  assumes "list_all item_ok (rtItems v)"
  shows "decode_retract zero_retract (on_wire NSPubSub (retract_elem v)) = Inr v"
  using assms by (cases v; cases "rtNotify v")
    (auto simp: decode_retract_def decode_fields_def retract_elem_def zero_retract_def fold_items decode_item_elem xml_bool_FormatBool)

lemma decode_subscription_elem: "decode_subscription zero_subscription (on_wire ns (subscription_elem v)) = Inr v"
proof -
  have "fold (\<lambda>a s. if nLocal (fst a) = ''subscription'' then s\<lparr>sbSubStatus := snd a\<rparr>
        else s\<lparr>sbSubInfo := sub_info_attr (nLocal (fst a)) (snd a) (sbSubInfo s)\<rparr>) (sub_info_attrs w) s
      = s\<lparr>sbSubInfo := fold (\<lambda>a. sub_info_attr (nLocal (fst a)) (snd a)) (sub_info_attrs w) (sbSubInfo s)\<rparr>" for w and s :: subscription
    by (cases "siSubId w") (simp_all add: sub_info_attrs_def opt_attr_def)
  then show ?thesis
    by (cases v) (simp add: decode_subscription_def decode_fields_def subscription_elem_def zero_subscription_def
        opt_attr_def fold_result_append fold_result_Inr fold_sub_attrs)
qed

lemma decode_subscriptions_elem: "decode_subscriptions [] (on_wire ns (subscriptions_elem v)) = Inr v"
proof -
  have "fold_result (\<lambda>k s. if nLocal (elem_name k) = ''subscription''
      then set_field (decode_subscription zero_subscription k) (\<lambda>v s. s @ [v]) s else Inr s)
      (map (on_wire ns \<circ> subscription_elem) xs) s = Inr (s @ xs)" for xs s
    by (induction xs arbitrary: s) (simp_all add: decode_subscription_elem)
  then show ?thesis by (simp add: decode_subscriptions_def decode_fields_def subscriptions_elem_def)
qed

lemma decode_affiliation_elem: "decode_affiliation (on_wire ns (affiliation_elem v)) = Inr v"
  by (cases v) (simp add: decode_affiliation_def decode_fields_def affiliation_elem_def zero_affiliation_def)

lemma decode_affiliations_elem: "decode_affiliations zero_affiliations (on_wire ns (affiliations_elem v)) = Inr v"
proof -
  have "fold_result (\<lambda>k s. if nLocal (elem_name k) = ''affiliation''
      then set_field (decode_affiliation k) (\<lambda>v s. s\<lparr>afsList := afsList s @ [v]\<rparr>) s else Inr s)
      (map (on_wire ns \<circ> affiliation_elem) xs) s = Inr (s\<lparr>afsList := afsList s @ xs\<rparr>)" for xs and s :: affiliations
    by (induction xs arbitrary: s) (simp_all add: decode_affiliation_elem)
  then show ?thesis
    by (cases v) (simp add: decode_affiliations_def decode_fields_def affiliations_elem_def zero_affiliations_def opt_attr_def)
qed

lemma decode_create_elem: "decode_create [] (on_wire ns (create_elem v)) = Inr v"
  by (simp add: decode_create_def decode_fields_def create_elem_def opt_attr_def)

lemma decode_configure_elem:
  assumes "all_opt form_ok v"
  shows "decode_configure None (on_wire ns (form_holder_elem l v)) = Inr (map_option named_form v)"
    and "decode_untagged_form None (on_wire ns (form_holder_elem l v)) = Inr (map_option named_form v)"
  using assms by (cases v; simp add: decode_configure_def decode_untagged_form_def decode_fields_def form_holder_elem_def
      decode_form_field_def decode_form_ok)+

lemma pubsub_child_fields:
  fixes s :: pubsub_generic
  defines "F \<equiv> fold_result (\<lambda>k. pubsub_child (nLocal (elem_name k)) k)"
  shows "psCreate s = None \<Longrightarrow> F (maybe (on_wire ns \<circ> create_elem) cr) s = Inr (s\<lparr>psCreate := cr\<rparr>)"
    and "psConfigure s = None \<Longrightarrow> all_opt (all_opt form_ok) cf \<Longrightarrow>
      F (maybe (on_wire ns \<circ> form_holder_elem ''configure'') cf) s = Inr (s\<lparr>psConfigure := map_option (map_option named_form) cf\<rparr>)"
    and "psSubscribe s = None \<Longrightarrow> F (maybe (on_wire ns \<circ> sub_info_elem ''subscribe'') si) s = Inr (s\<lparr>psSubscribe := si\<rparr>)"
    and "psSubOptions s = None \<Longrightarrow> all_opt (\<lambda>x. all_opt form_ok (soForm x)) so \<Longrightarrow>
      F (maybe (on_wire ns \<circ> sub_options_elem) so) s
        = Inr (s\<lparr>psSubOptions := map_option (\<lambda>x. x\<lparr>soForm := map_option named_form (soForm x)\<rparr>) so\<rparr>)"
    and "psPublish s = None \<Longrightarrow> all_opt (\<lambda>x. list_all item_ok (pubItems x)) pu \<Longrightarrow>
      F (maybe (on_wire NSPubSub \<circ> publish_elem) pu) s = Inr (s\<lparr>psPublish := pu\<rparr>)"
    and "psPublishOptions s = None \<Longrightarrow> all_opt (all_opt form_ok) po \<Longrightarrow>
      F (maybe (on_wire ns \<circ> form_holder_elem ''publish-options'') po) s
        = Inr (s\<lparr>psPublishOptions := map_option (map_option named_form) po\<rparr>)"
    and "psAffiliations s = None \<Longrightarrow> F (maybe (on_wire ns \<circ> affiliations_elem) af) s = Inr (s\<lparr>psAffiliations := af\<rparr>)"
    and "psDefault s = None \<Longrightarrow> all_opt (\<lambda>x. all_opt form_ok (dfForm x)) df \<Longrightarrow>
      F (maybe (on_wire ns \<circ> default_elem) df) s
        = Inr (s\<lparr>psDefault := map_option (\<lambda>x. x\<lparr>dfForm := map_option named_form (dfForm x)\<rparr>) df\<rparr>)"
    and "psItems s = None \<Longrightarrow> all_opt (\<lambda>x. list_all item_ok (isList x) \<and> go_int (isMaxItems x)) its \<Longrightarrow>
      F (maybe (on_wire NSPubSub \<circ> items_elem) its) s = Inr (s\<lparr>psItems := its\<rparr>)"
    and "psRetract s = None \<Longrightarrow> all_opt (\<lambda>x. list_all item_ok (rtItems x)) rt \<Longrightarrow>
      F (maybe (on_wire NSPubSub \<circ> retract_elem) rt) s = Inr (s\<lparr>psRetract := rt\<rparr>)"
    and "psSubscription s = None \<Longrightarrow> F (maybe (on_wire ns \<circ> subscription_elem) sb) s = Inr (s\<lparr>psSubscription := sb\<rparr>)"
    and "psSubscriptions s = None \<Longrightarrow> F (maybe (on_wire ns \<circ> subscriptions_elem) sbs) s = Inr (s\<lparr>psSubscriptions := sbs\<rparr>)"
    and "psUnsubscribe s = None \<Longrightarrow> F (maybe (on_wire ns \<circ> sub_info_elem ''unsubscribe'') ui) s = Inr (s\<lparr>psUnsubscribe := ui\<rparr>)"
    and "psResultSet s = None \<Longrightarrow> all_opt go_ints rs \<Longrightarrow>
      F (maybe (on_wire ns \<circ> result_set_elem) rs) s = Inr (s\<lparr>psResultSet := map_option named_result_set rs\<rparr>)"
  unfolding F_def fold_result_maybe comp_def
  by (auto simp: pubsub_child_def decode_create_elem decode_configure_elem decode_sub_info_elem decode_sub_options_elem
      decode_publish_elem decode_affiliations_elem decode_default_elem decode_items_elem decode_retract_elem
      decode_subscription_elem decode_subscriptions_elem decode_result_set_elem split: option.split)

lemma decode_pubsub_elem:
  assumes "pubsub_ok v"
  shows "decode_pubsub zero_pubsub (on_wire ns (pubsub_elem v)) = Inr (pubsub_read v)"
  using assms
  by (cases v) (simp add: pubsub_elem_def decode_pubsub_def expect_name_def decode_fields_def
      fold_result_append pubsub_child_fields pubsub_ok_def pubsub_read_def zero_pubsub_def)

text \<open>
  What a service reads of a printed request is the request: every one of its parts, with
  its attributes, items, subscriptions, affiliations and forms. Only the names of elements that
  the program left open are filled in.
\<close>

theorem pubsub_roundtrip:
  assumes "pubsub_ok v"
  shows "Unmarshal (decode_struct (decode_pubsub zero_pubsub)) (rescan [] (xml_tokens (pubsub_elem v))) = Inr (pubsub_read v)"
  by (simp add: Unmarshal_wire decode_pubsub_elem [OF assms])

definition sample_pubsub :: pubsub_generic where
  "sample_pubsub = zero_pubsub\<lparr>
     psPublish := Some \<lparr>pubNode = ''princely_musings'', pubItems = [zero_item\<lparr>itId := ''1'', itAny := Some sample_node\<rparr>]\<rparr>,
     psPublishOptions := Some (Some sample_form)\<rparr>"

theorem pubsub_roundtrip_witness:
  "Unmarshal (decode_struct (decode_pubsub zero_pubsub)) (rescan [] (xml_tokens (pubsub_elem sample_pubsub)))
     = Inr (pubsub_read sample_pubsub)"
  by (rule pubsub_roundtrip)
    (simp add: pubsub_ok_def sample_pubsub_def zero_pubsub_def form_ok_def sample_form_def NewForm_def zero_form_def
      fresh_or_named_def zero_form_item_def item_ok_def zero_item_def sample_node_def plain_attr_def not_xmlns_def
      xmlElementMaxDepth_def)

text \<open>
  The status of an affiliation, which services send as an attribute (XEP-0060, 5.7), is never
  read: it stays empty.
\<close>

theorem affiliation_status_lost:
  "decode_affiliation (Elem n [(plain_name ''node'', node), (plain_name ''affiliation'', status)] [])
     = Inr \<lparr>afAffiliationStatus = [], afNode = node\<rparr>"
  by (simp add: decode_affiliation_def decode_fields_def zero_affiliation_def)

end
