(* ===== verification/PubSubOwner.thy ===== *)
theory PubSubOwner
  imports PubSub
begin

text \<open>
  The payloads \<^verbatim>\<open>PubSubOwner\<close> of \<^verbatim>\<open>stanza/pubsub_owner.go\<close> and \<^verbatim>\<open>Command\<close> of
  \<^verbatim>\<open>stanza/commands.go\<close> (XEP-0050): their structs, their decoders, which are loops over the
  tokens of the element, and what is printed of them. The requests built of them are in the
  theory \<^verbatim>\<open>Requests\<close>.
\<close>

definition NSPubSubOwner :: string where "NSPubSubOwner = ''http://jabber.org/protocol/pubsub#owner''"

definition NSCommands :: string where "NSCommands = ''http://jabber.org/protocol/commands''"

subsection \<open>Owner use cases\<close>

record affiliation_owner =
  aoAffiliationStatus :: string
  aoJid :: string

record subscription_owner =
  soSubscriptionStatus :: string
  soJid :: string

datatype owner_use_case =
    AffiliationsOwner "affiliation_owner list" string
  | ConfigureOwner string "form option"
  | DefaultOwner "form option"
  | DeleteOwner "string option" string
  | PurgeOwner string
  | SubscriptionsOwner "subscription_owner list" string

fun UseCase :: "owner_use_case \<Rightarrow> string" where
  "UseCase (AffiliationsOwner afs node) = ''affiliations''"
| "UseCase (ConfigureOwner node fo) = ''configure''"
| "UseCase (DefaultOwner fo) = ''default''"
| "UseCase (DeleteOwner redirect node) = ''delete''"
| "UseCase (PurgeOwner node) = ''purge''"
| "UseCase (SubscriptionsOwner subs node) = ''subscriptions''"

record pubsub_owner =
  poXMLName :: xname
  poOwnerUseCase :: "owner_use_case option"
  poResultSet :: "result_set option"

definition zero_pubsub_owner :: pubsub_owner where
  "zero_pubsub_owner = \<lparr>poXMLName = XName [] [], poOwnerUseCase = None, poResultSet = None\<rparr>"

text \<open>The tag of \<^verbatim>\<open>SubscriptionStatus\<close> lacks \<^verbatim>\<open>,attr\<close>: it is a child element.\<close>

definition decode_affiliation_owner :: "xml \<Rightarrow> error + affiliation_owner" where
  "decode_affiliation_owner t =
     decode_fields
       (\<lambda>l v s. Inr (if l = ''affiliation'' then s\<lparr>aoAffiliationStatus := v\<rparr> else if l = ''jid'' then s\<lparr>aoJid := v\<rparr> else s))
       no_child t \<lparr>aoAffiliationStatus = [], aoJid = []\<rparr>"

definition decode_subscription_owner :: "xml \<Rightarrow> error + subscription_owner" where
  "decode_subscription_owner t =
     decode_fields (\<lambda>l v s. Inr (if l = ''jid'' then s\<lparr>soJid := v\<rparr> else s))
       (\<lambda>l k s. Inr (if l = ''subscription'' then s\<lparr>soSubscriptionStatus := elem_text k\<rparr> else s))
       t \<lparr>soSubscriptionStatus = [], soJid = []\<rparr>"

text \<open>Fields of a struct that holds a node and something that is read from child elements.\<close>

definition decode_node_and :: "(string \<Rightarrow> xml \<Rightarrow> 'a \<Rightarrow> error + 'a) \<Rightarrow> 'a \<Rightarrow> xml \<Rightarrow> error + string \<times> 'a" where
  "decode_node_and f z t =
     decode_fields (\<lambda>l v s. Inr (if l = ''node'' then (v, snd s) else s))
       (\<lambda>l k s. set_field (f l k (snd s)) (\<lambda>v s. (fst s, v)) s) t ([], z)"

definition list_child :: "string \<Rightarrow> (xml \<Rightarrow> error + 'a) \<Rightarrow> string \<Rightarrow> xml \<Rightarrow> 'a list \<Rightarrow> error + 'a list" where
  "list_child name dec l k s = (if l = name then set_field (dec k) (\<lambda>v s. s @ [v]) s else Inr s)"

definition form_field_child :: "string \<Rightarrow> xml \<Rightarrow> form option \<Rightarrow> error + form option" where
  "form_field_child l k s = (if l = ''x'' then set_field (decode_form_field s k) (\<lambda>v s. Some v) s else Inr s)"

definition decode_redirect :: "string option \<Rightarrow> xml \<Rightarrow> error + string option" where
  "decode_redirect old k =
     decode_fields (\<lambda>l v s. Inr (if l = ''uri'' then Some v else s)) no_child k (Some (or_zero [] old))"

definition redirect_child :: "string \<Rightarrow> xml \<Rightarrow> string option \<Rightarrow> error + string option" where
  "redirect_child l k s = (if l = ''redirect'' then decode_redirect s k else Inr s)"

definition decode_use_case :: "xml \<Rightarrow> error + owner_use_case" where
  "decode_use_case t =
     (let l = nLocal (elem_name t) in
      if l = ''affiliations'' then
        bind_result (decode_node_and (list_child ''affiliation'' decode_affiliation_owner) [] t) (\<lambda>(n, x). Inr (AffiliationsOwner x n))
      else if l = ''configure'' then
        bind_result (decode_node_and form_field_child None t) (\<lambda>(n, x). Inr (ConfigureOwner n x))
      else if l = ''default'' then
        bind_result (decode_node_and form_field_child None t) (\<lambda>(n, x). Inr (DefaultOwner x))
      else if l = ''delete'' then
        bind_result (decode_node_and redirect_child None t) (\<lambda>(n, x). Inr (DeleteOwner x n))
      else if l = ''purge'' then
        bind_result (decode_node_and no_child () t) (\<lambda>(n, _). Inr (PurgeOwner n))
      else
        bind_result (decode_node_and (list_child ''subscription'' decode_subscription_owner) [] t) (\<lambda>(n, x). Inr (SubscriptionsOwner x n)))"

definition owner_known :: "xname \<Rightarrow> bool" where
  "owner_known n \<longleftrightarrow> nLocal n \<in> {''affiliations'', ''configure'', ''default'', ''delete'', ''purge'', ''subscriptions''}"

text \<open>\<^verbatim>\<open>PubSubOwner.UnmarshalXML\<close>: the loop passes over the start of any other element.\<close>

definition PubSubOwner_child :: "pubsub_owner elem_handler" where
  "PubSubOwner_child n at s d =
     (if owner_known n
      then decode_child (decode_struct decode_use_case) (\<lambda>v s. s\<lparr>poOwnerUseCase := Some v\<rparr>) n at s d
      else Inr (s, d))"

definition PubSubOwner_start :: "xname \<Rightarrow> xattr list \<Rightarrow> pubsub_owner" where
  "PubSubOwner_start n at = zero_pubsub_owner\<lparr>poXMLName := n\<rparr>"

definition DecodePubSubOwner :: "xname \<Rightarrow> xattr list \<Rightarrow> decoder \<Rightarrow> error + pubsub_owner \<times> decoder" where
  "DecodePubSubOwner = unmarshalInterface ''*stanza.PubSubOwner'' (elem_unmarshal PubSubOwner_start PubSubOwner_child)"

subsection \<open>Printing owner payloads\<close>

definition affiliation_owner_elem :: "affiliation_owner \<Rightarrow> xml" where
  "affiliation_owner_elem v =
     Elem (plain_name ''affiliation'') [(plain_name ''affiliation'', aoAffiliationStatus v), (plain_name ''jid'', aoJid v)] []"

definition subscription_owner_elem :: "subscription_owner \<Rightarrow> xml" where
  "subscription_owner_elem v =
     Elem (plain_name ''subscription'') [(plain_name ''jid'', soJid v)] [text_elem ''subscription'' (soSubscriptionStatus v)]"

fun use_case_elem :: "owner_use_case \<Rightarrow> xml" where
  "use_case_elem (AffiliationsOwner afs node) = Elem (plain_name ''affiliations'') [(plain_name ''node'', node)] (map affiliation_owner_elem afs)"
| "use_case_elem (ConfigureOwner node fo) = Elem (plain_name ''configure'') (opt_attr ''node'' node) (maybe form_elem fo)"
| "use_case_elem (DefaultOwner fo) = Elem (plain_name ''default'') [] (maybe form_elem fo)"
| "use_case_elem (DeleteOwner redirect node) =
     Elem (plain_name ''delete'') (opt_attr ''node'' node) (maybe (\<lambda>u. Elem (plain_name ''redirect'') [(plain_name ''uri'', u)] []) redirect)"
| "use_case_elem (PurgeOwner node) = Elem (plain_name ''purge'') [(plain_name ''node'', node)] []"
| "use_case_elem (SubscriptionsOwner subs node) =
     Elem (plain_name ''subscriptions'') [(plain_name ''node'', node)] (map subscription_owner_elem subs)"

definition pubsub_owner_elem :: "pubsub_owner \<Rightarrow> xml" where
  "pubsub_owner_elem v =
     Elem (XName NSPubSubOwner ''pubsub'') [] (maybe use_case_elem (poOwnerUseCase v) @ maybe result_set_elem (poResultSet v))"

subsection \<open>Commands\<close>

record actions =
  acPrev :: bool
  acNext :: bool
  acComplete :: bool
  acExecute :: string

record cmd_note =
  ntText :: string
  ntType :: string

datatype command_element = CEActions actions | CENote cmd_note | CEForm form | CENode node

fun Ref :: "command_element \<Rightarrow> string" where
  "Ref (CEActions a) = ''actions''"
| "Ref (CENote n) = ''note''"
| "Ref (CEForm f) = ''form''"
| "Ref (CENode n) = ''node''"

record command =
  cmXMLName :: xname
  cmCommandElement :: "command_element option"
  cmBadAction :: bool
  cmBadLocale :: bool
  cmBadPayload :: bool
  cmBadSessionId :: bool
  cmMalformedAction :: bool
  cmSessionExpired :: bool
  cmAction :: string
  cmNode :: string
  cmSessionId :: string
  cmStatus :: string
  cmLang :: string
  cmResultSet :: "result_set option"

definition zero_command :: command where
  "zero_command = \<lparr>cmXMLName = XName [] [], cmCommandElement = None, cmBadAction = False, cmBadLocale = False,
     cmBadPayload = False, cmBadSessionId = False, cmMalformedAction = False, cmSessionExpired = False,
     cmAction = [], cmNode = [], cmSessionId = [], cmStatus = [], cmLang = [], cmResultSet = None\<rparr>"

definition decode_actions :: "xml \<Rightarrow> error + actions" where
  "decode_actions t =
     decode_fields (\<lambda>l v s. Inr (if l = ''execute'' then s\<lparr>acExecute := v\<rparr> else s))
       (\<lambda>l k s. Inr (if l = ''prev'' then s\<lparr>acPrev := True\<rparr> else if l = ''next'' then s\<lparr>acNext := True\<rparr>
          else if l = ''complete'' then s\<lparr>acComplete := True\<rparr> else s))
       t \<lparr>acPrev = False, acNext = False, acComplete = False, acExecute = []\<rparr>"

definition decode_note :: "xml \<Rightarrow> error + cmd_note" where
  "decode_note t =
     bind_result
       (decode_fields (\<lambda>l v s. Inr (if l = ''type'' then s\<lparr>ntType := v\<rparr> else s)) no_child t \<lparr>ntText = [], ntType = []\<rparr>)
       (\<lambda>v. Inr (v\<lparr>ntText := elem_text t\<rparr>))"

definition Command_attr :: "xattr \<Rightarrow> command \<Rightarrow> command" where
  "Command_attr attr c =
     (let l = nLocal (fst attr); v = snd attr in
      if l = ''action'' then c\<lparr>cmAction := v\<rparr>
      else if l = ''node'' then c\<lparr>cmNode := v\<rparr>
      else if l = ''sessionid'' then c\<lparr>cmSessionId := v\<rparr>
      else if l = ''status'' then c\<lparr>cmStatus := v\<rparr>
      else if l = ''lang'' then c\<lparr>cmLang := v\<rparr>
      else c)"

definition Command_start :: "xname \<Rightarrow> xattr list \<Rightarrow> command" where
  "Command_start n at = fold Command_attr at (zero_command\<lparr>cmXMLName := n\<rparr>)"

text \<open>\<^verbatim>\<open>Command.UnmarshalXML\<close>: each child element replaces the one before.\<close>

definition Command_child :: "command elem_handler" where
  "Command_child n at s d =
     (let set_element = (\<lambda>v s. s\<lparr>cmCommandElement := Some v\<rparr>) in
      if nLocal n = ''affiliations'' then decode_child (decode_struct decode_actions) (\<lambda>a. set_element (CEActions a)) n at s d
      else if nLocal n = ''configure'' then decode_child (decode_struct decode_note) (\<lambda>nt. set_element (CENote nt)) n at s d
      else if nLocal n = ''x'' then decode_child (decode_struct (decode_form zero_form)) (\<lambda>f. set_element (CEForm f)) n at s d
      else decode_child DecodeNode (\<lambda>nd. set_element (CENode nd)) n at s d)"

definition DecodeCommand :: "xname \<Rightarrow> xattr list \<Rightarrow> decoder \<Rightarrow> error + command \<times> decoder" where
  "DecodeCommand = unmarshalInterface ''*stanza.Command'' (elem_unmarshal Command_start Command_child)"

text \<open>
  \<^verbatim>\<open>Actions\<close> and \<^verbatim>\<open>Note\<close> have no \<^verbatim>\<open>XMLName\<close>, so they are printed under the name of the field
  that holds them.
\<close>

fun command_element_elem :: "command_element \<Rightarrow> xml" where
  "command_element_elem (CEActions a) =
     Elem (plain_name ''CommandElement'') (opt_attr ''execute'' (acExecute a))
       ((if acPrev a then [Elem (plain_name ''prev'') [] []] else []) @ (if acNext a then [Elem (plain_name ''next'') [] []] else [])
        @ (if acComplete a then [Elem (plain_name ''complete'') [] []] else []))"
| "command_element_elem (CENote n) = Elem (plain_name ''CommandElement'') (opt_attr ''type'' (ntType n)) (chars (ntText n))"
| "command_element_elem (CEForm f) = form_elem f"
| "command_element_elem (CENode n) = node_elem n"

definition flag_elem :: "string \<Rightarrow> bool \<Rightarrow> xml list" where
  "flag_elem l b = (if b then [Elem (plain_name l) [] []] else [])"

text \<open>The error conditions and the result set follow the command element.\<close>

definition command_extras :: "command \<Rightarrow> xml list" where
  "command_extras v =
     flag_elem ''bad-action'' (cmBadAction v) @ flag_elem ''bad-locale'' (cmBadLocale v)
     @ flag_elem ''bad-payload'' (cmBadPayload v) @ flag_elem ''bad-sessionid'' (cmBadSessionId v)
     @ flag_elem ''malformed-action'' (cmMalformedAction v) @ flag_elem ''session-expired'' (cmSessionExpired v)
     @ maybe result_set_elem (cmResultSet v)"

definition command_elem :: "command \<Rightarrow> xml" where
  "command_elem v =
     Elem (XName NSCommands ''command'')
       (opt_attr ''action'' (cmAction v) @ [(plain_name ''node'', cmNode v)] @ opt_attr ''sessionid'' (cmSessionId v)
        @ opt_attr ''status'' (cmStatus v) @ opt_attr ''lang'' (cmLang v))
       (maybe command_element_elem (cmCommandElement v)
        @ command_extras v)"

subsection \<open>Decoding complete elements\<close>

definition owner_step :: "xml \<Rightarrow> pubsub_owner \<Rightarrow> error + pubsub_owner" where
  "owner_step t s = set_field (decode_use_case t) (\<lambda>v s. s\<lparr>poOwnerUseCase := Some v\<rparr>) s"

lemma passes_owner: "passes PubSubOwner_child owner_known owner_step"
  by (auto simp: passes_def exact_on_def PubSubOwner_child_def owner_step_def set_field_def child_steps)

definition owner_of :: "xml \<Rightarrow> error + pubsub_owner" where
  "owner_of t = on_tree DecodePubSubOwner t"

lemma DecodePubSubOwner_tree:
  "DecodePubSubOwner n at (inside kids n rest stk d) = with_decoder (after rest stk d) (owner_of (Elem n at kids))"
  unfolding DecodePubSubOwner_def owner_of_def by (rule unmarshalInterface_on_tree [OF passes_owner])

lemma forward_owner: "forward DecodePubSubOwner"
  unfolding DecodePubSubOwner_def by (rule forward_unmarshalInterface [OF forward_elem_unmarshal])

lemma owner_of_spliced:
  "avoids owner_known n kids \<Longrightarrow>
     owner_of (Elem n at kids) = fold_result owner_step (spliced owner_known kids) (PubSubOwner_start n at)"
  by (cases "fold_result owner_step (spliced owner_known kids) (PubSubOwner_start n at)")
    (simp_all add: owner_of_def on_tree_def DecodePubSubOwner_def unmarshalInterface_spliced [OF passes_owner])

definition command_element_of :: "xml \<Rightarrow> error + command_element" where
  "command_element_of t =
     (let l = nLocal (elem_name t) in
      if l = ''affiliations'' then bind_result (decode_actions t) (\<lambda>a. Inr (CEActions a))
      else if l = ''configure'' then bind_result (decode_note t) (\<lambda>n. Inr (CENote n))
      else if l = ''x'' then bind_result (decode_form zero_form t) (\<lambda>f. Inr (CEForm f))
      else bind_result (node_of 1 t) (\<lambda>n. Inr (CENode n)))"

definition command_step :: "xml \<Rightarrow> command \<Rightarrow> error + command" where
  "command_step t s = set_field (command_element_of t) (\<lambda>v s. s\<lparr>cmCommandElement := Some v\<rparr>) s"

lemma exact_command: "exact_on Command_child command_step t"
  by (cases t) (simp_all add: exact_on_def Command_child_def command_step_def command_element_of_def set_field_def
      bind_assoc child_steps Let_def del: node_of.simps)

definition command_of :: "xml \<Rightarrow> error + command" where
  "command_of t = fold_result command_step (elements (xml_kids t)) (Command_start (elem_name t) (elem_attrs t))"

lemma DecodeCommand_tree:
  "DecodeCommand n at (inside kids n rest stk d) = with_decoder (after rest stk d) (command_of (Elem n at kids))"
  unfolding DecodeCommand_def command_of_def using unmarshalInterface_tree [OF exact_command] by simp

lemma forward_command: "forward DecodeCommand"
  unfolding DecodeCommand_def by (rule forward_unmarshalInterface [OF forward_elem_unmarshal])

subsection \<open>Reading what was printed\<close>

lemma spliced_append: "spliced known (xs @ ys) = spliced known xs @ spliced known ys"
  by (induction known xs rule: spliced.induct) simp_all

lemma avoids_append: "avoids known n (xs @ ys) \<longleftrightarrow> avoids known n xs \<and> avoids known n ys"
  by (induction known n xs rule: avoids.induct) auto

text \<open>Elements that the loop passes over without effect.\<close>

definition ignored :: "(xname \<Rightarrow> bool) \<Rightarrow> xname \<Rightarrow> xml list \<Rightarrow> bool" where
  "ignored known n ts \<longleftrightarrow> spliced known ts = [] \<and> avoids known n ts"

lemma ignored_append: "ignored known n (xs @ ys) \<longleftrightarrow> ignored known n xs \<and> ignored known n ys"
  by (auto simp: ignored_def spliced_append avoids_append)

lemma ignored_maybe: "(\<And>a. ignored known n [g a]) \<Longrightarrow> ignored known n (maybe g x)"
  by (cases x) (simp_all add: ignored_def)

lemma ignored_plain:
  "\<not> known (XName ns l) \<Longrightarrow> XName ns l \<noteq> n \<Longrightarrow> ignored known n (map (on_wire ns) kids) \<Longrightarrow>
     ignored known n [on_wire ns (Elem (plain_name l) at kids)]"
  by (simp add: ignored_def)

lemma ignored_chars: "ignored known n (chars s)"
  by (simp add: ignored_def chars_def)

lemma ignored_result_set:
  assumes "\<And>l. l \<in> {''set'', ''after'', ''before'', ''count'', ''first'', ''index'', ''last'', ''max'', ''Content''} \<Longrightarrow>
      \<not> known (XName NSRsm l)" "nSpace n \<noteq> NSRsm"
  shows "ignored known n [on_wire ns (result_set_elem v)]"
proof -
  have ne: "XName NSRsm l \<noteq> n" for l using assms(2) by auto
  have t: "ignored known n [(on_wire NSRsm \<circ> text_elem l) x]" if "\<not> known (XName NSRsm l)" for l x
    using that ne by (simp add: text_elem_def ignored_plain ignored_chars del: on_wire.simps)
  have i: "ignored known n [(on_wire NSRsm \<circ> int_elem l) x]" if "\<not> known (XName NSRsm l)" for l x
    using t [OF that] by (simp add: int_elem_def)
  have f: "ignored known n [(on_wire NSRsm \<circ> first_elem) x]" for x
    using t [of "''Content''"] assms(1) ne by (simp add: first_elem_def ignored_plain del: on_wire.simps)
  have "ignored known n (map (on_wire NSRsm) (maybe (text_elem ''after'') (rsAfter v) @ maybe (text_elem ''before'') (rsBefore v)
        @ maybe (int_elem ''count'') (rsCount v) @ maybe first_elem (rsFirst v)
        @ maybe (int_elem ''index'') (rsIndex v) @ maybe (text_elem ''last'') (rsLast v)
        @ maybe (int_elem ''max'') (rsMax v)))"
    using assms(1) by (simp add: ignored_append, intro conjI ignored_maybe t i f) auto
  moreover have "\<not> known (XName NSRsm ''set'')" using assms(1) by simp
  ultimately show ?thesis
    using ne by (simp add: result_set_elem_def ignored_def)
qed

definition use_case_ok :: "owner_use_case \<Rightarrow> bool" where
  "use_case_ok u \<longleftrightarrow> (case u of ConfigureOwner node fo \<Rightarrow> all_opt form_ok fo | DefaultOwner fo \<Rightarrow> all_opt form_ok fo | _ \<Rightarrow> True)"

fun use_case_read :: "owner_use_case \<Rightarrow> owner_use_case" where
  "use_case_read (ConfigureOwner node fo) = ConfigureOwner node (map_option named_form fo)"
| "use_case_read (DefaultOwner fo) = DefaultOwner (map_option named_form fo)"
| "use_case_read u = u"

lemma decode_affiliation_owner_elem [simp]: "decode_affiliation_owner (on_wire ns (affiliation_owner_elem a)) = Inr a"
  by (cases a) (simp add: decode_affiliation_owner_def decode_fields_def affiliation_owner_elem_def no_child_def)

lemma decode_subscription_owner_elem [simp]: "decode_subscription_owner (on_wire ns (subscription_owner_elem s)) = Inr s"
  by (cases s) (simp add: decode_subscription_owner_def decode_fields_def subscription_owner_elem_def)

lemma owner_entries [simp]:
  "elemental affiliation_owner_elem" "elemental subscription_owner_elem"
  "elem_name (on_wire ns (affiliation_owner_elem a)) = XName ns ''affiliation''"
  "elem_name (on_wire ns (subscription_owner_elem s)) = XName ns ''subscription''"
  by (simp_all add: elemental_def affiliation_owner_elem_def subscription_owner_elem_def)

lemma fold_list_child:
  fixes s :: "string \<times> 'a list"
  assumes "\<And>x. dec (on_wire ns (g x)) = Inr x" "\<And>x. nLocal (elem_name (on_wire ns (g x))) = l"
  shows "fold_result (\<lambda>k s. set_field (list_child l dec (nLocal (elem_name k)) k (snd s)) (\<lambda>v s. (fst s, v)) s)
      (map (on_wire ns \<circ> g) xs) s = Inr (fst s, snd s @ xs)"
  by (induction xs arbitrary: s) (simp_all add: list_child_def assms)

lemma decode_use_case_elem:
  assumes "use_case_ok u"
  shows "decode_use_case (on_wire ns (use_case_elem u)) = Inr (use_case_read u)"
proof (cases u)
  case (ConfigureOwner node fo)
  with assms show ?thesis
    by (cases fo) (auto simp: decode_use_case_def decode_node_and_def decode_fields_def opt_attr_def use_case_ok_def
        form_field_child_def decode_form_field_def decode_form_ok)
next
  case (DefaultOwner fo)
  with assms show ?thesis
    by (cases fo) (auto simp: decode_use_case_def decode_node_and_def decode_fields_def use_case_ok_def
        form_field_child_def decode_form_field_def decode_form_ok)
next
  case (DeleteOwner redirect node)
  then show ?thesis
    by (cases redirect) (auto simp: decode_use_case_def decode_node_and_def decode_fields_def opt_attr_def
        redirect_child_def decode_redirect_def)
qed (simp_all add: decode_use_case_def decode_node_and_def decode_fields_def fold_list_child)

definition owner_read :: "pubsub_owner \<Rightarrow> pubsub_owner" where
  "owner_read v = v\<lparr>poXMLName := XName NSPubSubOwner ''pubsub'', poOwnerUseCase := map_option use_case_read (poOwnerUseCase v),
     poResultSet := None\<rparr>"

lemma use_case_known:
  "is_elem (\<lambda>_. True) (use_case_elem u)" "elem_name (on_wire ns (use_case_elem u)) = XName ns (UseCase u)" "owner_known (XName ns (UseCase u))"
  by (cases u; simp add: owner_known_def)+

lemma is_elem_owner [simp]: "is_elem (\<lambda>_. True) (pubsub_owner_elem v)" "is_elem (\<lambda>_. True) (command_elem c)"
  by (simp_all add: pubsub_owner_elem_def command_elem_def)

lemma owner_of_elem:
  assumes "all_opt use_case_ok (poOwnerUseCase v)"
  shows "owner_of (on_wire ns (pubsub_owner_elem v)) = Inr (owner_read v)"
proof -
  let ?n = "XName NSPubSubOwner ''pubsub''"
  have rs: "ignored owner_known ?n (maybe (on_wire NSPubSubOwner \<circ> result_set_elem) r)" for r
    by (intro ignored_maybe, simp, rule ignored_result_set) (auto simp: owner_known_def NSPubSubOwner_def NSRsm_def)
  have one: "spliced owner_known (maybe (on_wire NSPubSubOwner \<circ> use_case_elem) u) = maybe (on_wire NSPubSubOwner \<circ> use_case_elem) u
      \<and> avoids owner_known ?n (maybe (on_wire NSPubSubOwner \<circ> use_case_elem) u)" for u
  proof (cases u)
    case (Some a)
    then show ?thesis
      using use_case_known(1) [of a] use_case_known(2) [of NSPubSubOwner a] use_case_known(3) [of NSPubSubOwner a]
        is_elem_wire [of NSPubSubOwner "use_case_elem a"]
      by (cases "on_wire NSPubSubOwner (use_case_elem a)") simp_all
  qed simp
  have "NSPubSubOwner \<noteq> []" by (simp add: NSPubSubOwner_def)
  then have "owner_of (on_wire ns (pubsub_owner_elem v))
      = fold_result owner_step (maybe (on_wire NSPubSubOwner \<circ> use_case_elem) (poOwnerUseCase v)) (PubSubOwner_start ?n [])"
    using rs [of "poResultSet v"] one [of "poOwnerUseCase v"]
    by (simp add: pubsub_owner_elem_def owner_of_spliced spliced_append avoids_append ignored_def PubSubOwner_start_def)
  then show ?thesis
    using assms by (cases v; cases "poOwnerUseCase v")
      (simp_all add: PubSubOwner_start_def zero_pubsub_owner_def owner_read_def owner_step_def decode_use_case_elem)
qed

text \<open>
  What a service reads of a printed owner request is the request with its use case, except
  that a result set, which is printed, is never read.
\<close>

theorem owner_roundtrip:
  assumes "all_opt use_case_ok (poOwnerUseCase v)"
  shows "Unmarshal DecodePubSubOwner (rescan [] (xml_tokens (pubsub_owner_elem v)))
    = Inr (v\<lparr>poXMLName := XName NSPubSubOwner ''pubsub'', poOwnerUseCase := map_option use_case_read (poOwnerUseCase v), poResultSet := None\<rparr>)"
  using owner_of_elem [OF assms, of "[]"]
  by (simp add: Unmarshal_on_tree owner_of_def owner_read_def)

definition sample_owner :: pubsub_owner where
  "sample_owner = zero_pubsub_owner\<lparr>
     poOwnerUseCase := Some (ConfigureOwner ''princely_musings'' (Some (NewForm [] ''submit''))),
     poResultSet := Some (zero_result_set\<lparr>rsMax := Some 10\<rparr>)\<rparr>"

theorem owner_roundtrip_witness:
  "\<exists>v. Unmarshal DecodePubSubOwner (rescan [] (xml_tokens (pubsub_owner_elem sample_owner))) = Inr v \<and> poResultSet v = None"
  using owner_roundtrip [of sample_owner]
  by (simp add: sample_owner_def zero_pubsub_owner_def use_case_ok_def form_ok_def NewForm_def zero_form_def)

text \<open>A command is what its last child element says.\<close>

lemma command_step_Inr:
  "command_step t s = Inr s' \<longleftrightarrow> (\<exists>v. command_element_of t = Inr v \<and> s' = s\<lparr>cmCommandElement := Some v\<rparr>)"
  by (auto simp: command_step_def set_field_def bind_result_Inr_iff)

lemma fold_command_step:
  "fold_result command_step ts s = Inr c \<Longrightarrow>
     c = s\<lparr>cmCommandElement := cmCommandElement c\<rparr>
     \<and> (if ts = [] then c = s else \<exists>v. command_element_of (last ts) = Inr v \<and> cmCommandElement c = Some v)"
proof (induction ts arbitrary: s)
  case (Cons t ts)
  then obtain v where v: "command_element_of t = Inr v"
      "fold_result command_step ts (s\<lparr>cmCommandElement := Some v\<rparr>) = Inr c"
    by (auto simp: command_step_Inr bind_result_Inr_iff)
  from Cons.IH [OF v(2)] v(1) show ?case by (cases ts) auto
qed simp

lemma Command_start_flags:
  "cmResultSet (fold Command_attr at c) = cmResultSet c \<and> cmBadAction (fold Command_attr at c) = cmBadAction c
   \<and> cmSessionExpired (fold Command_attr at c) = cmSessionExpired c \<and> cmCommandElement (fold Command_attr at c) = cmCommandElement c"
  by (induction at arbitrary: c) (simp_all add: Command_attr_def Let_def)

text \<open>
  Of a command only the attributes and the last child element are read: the ones before it
  are replaced. The error conditions and the result set are never filled in, and the elements
  that XEP-0050 calls \<^verbatim>\<open>actions\<close> and \<^verbatim>\<open>note\<close> are only seen as generic nodes.
\<close>

theorem command_last_child:
  assumes "DecodeCommand n at (inside kids n rest stk d) = Inr (c, d')"
  shows "\<not> cmBadAction c \<and> \<not> cmSessionExpired c \<and> cmResultSet c = None
    \<and> (if elements kids = [] then cmCommandElement c = None
       else let t = last (elements kids) in
         \<exists>v. command_element_of t = Inr v \<and> cmCommandElement c = Some v
           \<and> (nLocal (elem_name t) \<in> {''actions'', ''note''} \<longrightarrow> (\<exists>nd. v = CENode nd)))"
proof -
  have start: "\<not> cmBadAction (Command_start n at)" "\<not> cmSessionExpired (Command_start n at)"
    "cmResultSet (Command_start n at) = None" "cmCommandElement (Command_start n at) = None"
    using Command_start_flags [of at "zero_command\<lparr>cmXMLName := n\<rparr>"] by (simp_all add: Command_start_def zero_command_def)
  have "fold_result command_step (elements kids) (Command_start n at) = Inr c"
    using assms by (auto simp: DecodeCommand_tree command_of_def with_decoder_def bind_result_Inr_iff)
  moreover have "nLocal (elem_name t) \<in> {''actions'', ''note''} \<longrightarrow> (\<exists>nd. v = CENode nd)"
    if "command_element_of t = Inr v" for t v
    using that by (auto simp: command_element_of_def bind_result_Inr_iff)
  ultimately show ?thesis
    using fold_command_step [of "elements kids" "Command_start n at" c] start
    by (cases "elements kids") (auto simp: Let_def)
qed

definition sample_command_kids :: "xml list" where
  "sample_command_kids =
     [on_wire NSCommands (form_elem sample_form), Elem (XName NSCommands ''note'') [(XName [] ''type'', ''info'')] [Text ''done'']]"

lemma sample_command_decoded:
  "DecodeCommand (XName NSCommands ''command'') [] (inside sample_command_kids (XName NSCommands ''command'') [] [] (new_decoder []))
     = Inr (zero_command\<lparr>cmXMLName := XName NSCommands ''command'',
         cmCommandElement := Some (CENode (Node (XName NSCommands ''note'') [(XName [] ''type'', ''info'')] ''done'' []))\<rparr>,
         after [] [] (new_decoder []))"
proof -
  have "form_ok sample_form"
    by (simp add: form_ok_def sample_form_def NewForm_def zero_form_def fresh_or_named_def zero_form_item_def)
  then show ?thesis
    by (simp add: DecodeCommand_tree command_of_def sample_command_kids_def command_step_def command_element_of_def
        decode_form_ok Command_start_def xmlElementMaxDepth_def not_xmlns_def)
qed

theorem command_last_child_witness:
  "\<exists>c d' nd. DecodeCommand (XName NSCommands ''command'') []
      (inside sample_command_kids (XName NSCommands ''command'') [] [] (new_decoder [])) = Inr (c, d')
    \<and> cmCommandElement c = Some (CENode nd)"
proof -
  note c = sample_command_decoded
  from command_last_child [OF c] c show ?thesis by (auto simp: sample_command_kids_def Let_def)
qed

text \<open>
  What is read of a command. The error conditions and the result set are printed behind the
  command element and are child elements that the decoder does not know: the last one takes the
  place of the command element. Actions and notes are printed under a name that it does not know.
\<close>

text \<open>A form must survive, and a generic node must be one that the encoder prints without loss and the decoder takes for one.\<close>

definition command_ok :: "command \<Rightarrow> bool" where
  "command_ok v \<longleftrightarrow>
     (case cmCommandElement v of
        Some (CEForm f) \<Rightarrow> form_ok f
      | Some (CENode nd) \<Rightarrow> node_plain NSCommands nd \<and> node_height nd < xmlElementMaxDepth
          \<and> nLocal (nodeXMLName nd) \<notin> {''affiliations'', ''configure'', ''x''}
      | _ \<Rightarrow> True)"

definition command_node :: "xml \<Rightarrow> node" where
  "command_node t = hd (tree_nodes (on_wire NSCommands t))"

fun command_element_read :: "command_element \<Rightarrow> command_element" where
  "command_element_read (CEForm f) = CEForm (named_form f)"
| "command_element_read (CENode nd) = CENode nd"
| "command_element_read e = CENode (command_node (command_element_elem e))"

definition command_read :: "command \<Rightarrow> command" where
  "command_read v =
     v\<lparr>cmXMLName := XName NSCommands ''command'', cmBadAction := False, cmBadLocale := False, cmBadPayload := False,
       cmBadSessionId := False, cmMalformedAction := False, cmSessionExpired := False, cmResultSet := None,
       cmCommandElement := (if command_extras v = [] then map_option command_element_read (cmCommandElement v)
         else Some (CENode (command_node (last (command_extras v)))))\<rparr>"

lemma Command_start_elem:
  "Command_start (XName NSCommands ''command'') ((XName [] ''xmlns'', NSCommands) # elem_attrs (command_elem v))
     = zero_command\<lparr>cmXMLName := XName NSCommands ''command'', cmAction := cmAction v, cmNode := cmNode v,
         cmSessionId := cmSessionId v, cmStatus := cmStatus v, cmLang := cmLang v\<rparr>"
  by (simp add: Command_start_def command_elem_def opt_attr_def Command_attr_def zero_command_def)

lemma nesting_on_wire [simp]: "nesting (on_wire ns t) = nesting t"
proof (induction t arbitrary: ns)
  case (Elem n at kids)
  then have "map (nesting \<circ> on_wire ns') kids = map nesting kids" for ns' by simp
  then show ?case by (simp add: Let_def del: map_eq_conv)
qed simp

lemma node_of_command_node:
  assumes "is_elem (\<lambda>_. True) t" "nesting t < xmlElementMaxDepth"
  shows "node_of 1 (on_wire NSCommands t) = Inr (command_node t)"
proof -
  obtain n at kids where t: "on_wire NSCommands t = Elem n at kids" using assms(1)
    by (cases "on_wire NSCommands t"; cases t) (simp_all split: if_splits)
  have "nesting (Elem n at kids) < xmlElementMaxDepth" using assms(2) by (simp flip: t)
  then show ?thesis
    using node_of_nesting(1) [where t = "Elem n at kids" and depth = 1] by (simp add: command_node_def t del: node_of.simps)
qed

definition command_generic :: "xml \<Rightarrow> bool" where
  "command_generic t \<longleftrightarrow> is_elem (\<lambda>_. True) t \<and> nesting t < xmlElementMaxDepth
     \<and> nLocal (elem_name (on_wire NSCommands t)) \<notin> {''affiliations'', ''configure'', ''x''}"

lemma command_element_of_generic:
  "command_generic t \<Longrightarrow> command_element_of (on_wire NSCommands t) = Inr (CENode (command_node t))"
  using node_of_command_node [of t] by (simp add: command_element_of_def Let_def command_generic_def)

lemma nesting_result_set: "nesting (result_set_elem r) < xmlElementMaxDepth"
proof -
  have small: "nesting (text_elem l x) \<le> 1" "nesting (int_elem l i) \<le> 1" "nesting (first_elem f) \<le> 2" for l x i f
    by (simp_all add: text_elem_def int_elem_def first_elem_def chars_def)
  have k: "nesting k \<le> 2" if "k \<in> set (xml_kids (result_set_elem r))" for k
    using that by (auto simp: result_set_elem_def maybe_def intro: order_trans [OF small(1)] order_trans [OF small(2)] small(3)
        split: option.splits)
  obtain n at kids where t: "result_set_elem r = Elem n at kids" by (simp add: result_set_elem_def)
  have "fold max (map nesting kids) 0 \<le> 2" unfolding fold_max_le using k t by simp
  then show ?thesis unfolding t xmlElementMaxDepth_def by simp
qed

lemma command_extras_generic:
  assumes "t \<in> set (command_extras v)"
  shows "command_generic t"
proof -
  have f: "k \<in> set (flag_elem l x) \<Longrightarrow> l \<notin> {''affiliations'', ''configure'', ''x''} \<Longrightarrow> command_generic k" for k l x
    by (cases x) (simp_all add: flag_elem_def command_generic_def xmlElementMaxDepth_def)
  have r: "command_generic (result_set_elem x)" for x
    unfolding command_generic_def using nesting_result_set [of x] by (simp add: result_set_elem_def NSRsm_def)
  show ?thesis
    using assms unfolding command_extras_def set_append Un_iff
    by (elim disjE) (erule f, simp, erule f, simp, erule f, simp, erule f, simp, erule f, simp, erule f, simp,
      use r in \<open>auto simp: maybe_def split: option.splits\<close>)
qed

lemma command_element_of_elem:
  assumes "command_ok v" "cmCommandElement v = Some e"
  shows "command_element_of (on_wire NSCommands (command_element_elem e)) = Inr (command_element_read e)"
    "is_elem (\<lambda>_. True) (command_element_elem e)"
proof -
  have nd: "nLocal (elem_name (on_wire NSCommands (node_elem nd))) = nLocal (nodeXMLName nd)" for nd by (cases nd) simp
  have "command_generic (command_element_elem e)" if "e = CEActions a \<or> e = CENote n" for a n
    using that by (auto simp: command_generic_def xmlElementMaxDepth_def chars_def)
  then show "command_element_of (on_wire NSCommands (command_element_elem e)) = Inr (command_element_read e)"
    using assms command_element_of_generic [of "command_element_elem e"]
    by (cases e) (simp_all only: command_element_read.simps, auto simp: command_ok_def command_element_of_def decode_form_ok nd
        node_of_elem Let_def)
  show "is_elem (\<lambda>_. True) (command_element_elem e)" by (cases e) simp_all
qed

lemma fold_command_last:
  "(\<And>t. t \<in> set ts \<Longrightarrow> command_element_of t = Inr (g t)) \<Longrightarrow>
     fold_result command_step ts s = Inr (if ts = [] then s else s\<lparr>cmCommandElement := Some (g (last ts))\<rparr>)"
  by (induction ts arbitrary: s) (auto simp: command_step_def set_field_def)

lemma command_of_elem:
  assumes "command_ok v"
  shows "command_of (on_wire ns (command_elem v)) = Inr (command_read v)"
proof -
  have n: "NSCommands \<noteq> []" by (simp add: NSCommands_def)
  let ?e = "maybe command_element_elem (cmCommandElement v)"
  let ?ts = "map (on_wire NSCommands) (?e @ command_extras v)"
  let ?g = "\<lambda>t. projr (command_element_of t)"
  have elems: "is_elem (\<lambda>_. True) t" if "t \<in> set (?e @ command_extras v)" for t
    using that command_extras_generic [of t v] command_element_of_elem(2) [OF assms]
    by (auto simp: command_generic_def maybe_def split: option.splits)
  have decodes: "\<exists>e. command_element_of t = Inr e" if "t \<in> set ?ts" for t
  proof -
    obtain u where u: "t = on_wire NSCommands u" "u \<in> set ?e \<or> u \<in> set (command_extras v)" using \<open>t \<in> set ?ts\<close>
      unfolding set_map set_append by blast
    from u(2) show ?thesis
    proof
      assume "u \<in> set ?e"
      then obtain e where "cmCommandElement v = Some e" "u = command_element_elem e"
        by (cases "cmCommandElement v") simp_all
      then show ?thesis using u(1) command_element_of_elem(1) [OF assms] by blast
    next
      assume "u \<in> set (command_extras v)"
      then show ?thesis using u(1) command_element_of_generic [OF command_extras_generic] by blast
    qed
  qed
  have "elements ?ts = ?ts"
    using elems by (simp add: elements_def filter_id_conv is_elem_wire del: map_append)
  then have "command_of (on_wire ns (command_elem v)) = fold_result command_step ?ts
      (Command_start (XName NSCommands ''command'') ((XName [] ''xmlns'', NSCommands) # elem_attrs (command_elem v)))"
  proof -
    have "on_wire ns (command_elem v) =
        Elem (XName NSCommands ''command'') ((XName [] ''xmlns'', NSCommands) # elem_attrs (command_elem v)) ?ts"
      using n by (simp add: command_elem_def)
    then show ?thesis using \<open>elements ?ts = ?ts\<close> by (simp add: command_of_def del: map_append)
  qed
  also have "\<dots> = fold_result command_step ?ts
      (zero_command\<lparr>cmXMLName := XName NSCommands ''command'', cmAction := cmAction v, cmNode := cmNode v,
         cmSessionId := cmSessionId v, cmStatus := cmStatus v, cmLang := cmLang v\<rparr>)"
    by (simp only: Command_start_elem)
  also have "\<dots> = Inr (let s = zero_command\<lparr>cmXMLName := XName NSCommands ''command'', cmAction := cmAction v, cmNode := cmNode v,
         cmSessionId := cmSessionId v, cmStatus := cmStatus v, cmLang := cmLang v\<rparr> in
      if ?ts = [] then s else s\<lparr>cmCommandElement := Some (?g (last ?ts))\<rparr>)"
    unfolding Let_def
    by (rule fold_command_last) (use decodes in fastforce)
  also have "\<dots> = Inr (command_read v)"
  proof (cases "command_extras v = []")
    case True
    then show ?thesis
      using command_element_of_elem(1) [OF assms]
      by (cases v; cases "cmCommandElement v")
        (auto simp: command_read_def zero_command_def command_extras_def flag_elem_def Let_def split: if_splits option.splits)
  next
    case False
    then have "last (?e @ command_extras v) \<in> set (command_extras v)" by simp
    then have "?g (last ?ts) = CENode (command_node (last (command_extras v)))"
      using False command_element_of_generic [OF command_extras_generic, of "last (command_extras v)" v] by (simp add: last_map)
    then show ?thesis
      using False by (cases v) (simp add: command_read_def zero_command_def Let_def)
  qed
  finally show ?thesis .
qed

end
