(* ===== verification/PubSubEvent.thy ===== *)
theory PubSubEvent
  imports PubSub
begin

text \<open>
  The message extension \<^verbatim>\<open>PubSubEvent\<close> of \<^verbatim>\<open>stanza/msg_pubsub_event.go\<close>: the event elements
  with their names, and the decoder. Events come from services; the library does not print them.
\<close>

datatype assoc_disassoc = AssociateEvent string | DisassociateEvent string

fun GetAssocDisassoc :: "assoc_disassoc \<Rightarrow> string" where
  "GetAssocDisassoc (AssociateEvent node) = ''Associate''"
| "GetAssocDisassoc (DisassociateEvent node) = ''Disassociate''"

record item_event =
  ieId :: string
  iePublisher :: string
  ieAny :: "node option"

record items_event =
  evItems :: "item_event list"
  evNode :: string
  evRetract :: "string option"

record subscription_event =
  seSubStatus :: string
  seExpiry :: string
  seSubInfo :: sub_info

text \<open>
  The arguments are the fields of the structs; a redirection is its address and a retraction the
  field \<^verbatim>\<open>ID\<close>.
\<close>

datatype event_element =
    CollectionEvent "assoc_disassoc option" string
  | ConfigurationEvent string "form option"
  | DeleteEvent string "string option"
  | ItemsEvent items_event
  | PurgeEvent string
  | SubscriptionEvent subscription_event

fun EventElement_Name :: "event_element \<Rightarrow> string" where
  "EventElement_Name (CollectionEvent ad node) = ''Collection''"
| "EventElement_Name (ConfigurationEvent node fo) = ''Configuration''"
| "EventElement_Name (DeleteEvent node redirect) = ''Configuration''"
| "EventElement_Name (ItemsEvent ie) = ''List''"
| "EventElement_Name (PurgeEvent node) = ''Purge''"
| "EventElement_Name (SubscriptionEvent se) = ''Subscription''"

record pubsub_event =
  peXMLName :: xname
  peEventElement :: "event_element option"

subsection \<open>Reading\<close>

text \<open>\<^verbatim>\<open>AssocDisassoc\<close> is a field of an interface type, which \<^verbatim>\<open>encoding/xml\<close> skips.\<close>

definition decode_collection :: "xml \<Rightarrow> error + event_element" where
  "decode_collection t =
     bind_result (decode_fields (\<lambda>l v s. Inr (if l = ''node'' then v else s)) no_child t []) (\<lambda>node. Inr (CollectionEvent None node))"

definition decode_configuration :: "xml \<Rightarrow> error + event_element" where
  "decode_configuration t =
     bind_result
       (decode_fields (\<lambda>l v s. Inr (if l = ''node'' then (v, snd s) else s))
         (\<lambda>l k s. if elem_name k = XName NSData ''x'' then set_field (decode_form_field (snd s) k) (\<lambda>v s. (fst s, Some v)) s else Inr s)
         t ([], None))
       (\<lambda>(node, fo). Inr (ConfigurationEvent node fo))"

definition redirect_uri :: "string option \<Rightarrow> xml \<Rightarrow> error + string option" where
  "redirect_uri old k = decode_fields (\<lambda>l v s. Inr (if l = ''uri'' then Some v else s)) no_child k (Some (or_zero [] old))"

definition decode_delete :: "xml \<Rightarrow> error + event_element" where
  "decode_delete t =
     bind_result
       (decode_fields (\<lambda>l v s. Inr (if l = ''node'' then (v, snd s) else s))
         (\<lambda>l k s. if l = ''redirect'' then set_field (redirect_uri (snd s) k) (\<lambda>v s. (fst s, v)) s else Inr s)
         t ([], None))
       (\<lambda>(node, r). Inr (DeleteEvent node r))"

definition zero_item_event :: item_event where
  "zero_item_event = \<lparr>ieId = [], iePublisher = [], ieAny = None\<rparr>"

definition decode_item_event :: "xml \<Rightarrow> error + item_event" where
  "decode_item_event t =
     decode_fields
       (\<lambda>l v s. Inr (if l = ''id'' then s\<lparr>ieId := v\<rparr> else if l = ''publisher'' then s\<lparr>iePublisher := v\<rparr> else s))
       (\<lambda>l k s. set_field (node_of 1 k) (\<lambda>v s. s\<lparr>ieAny := Some v\<rparr>) s) t zero_item_event"

text \<open>The tag of the field \<^verbatim>\<open>ID\<close> is \<^verbatim>\<open>node,attr\<close>.\<close>

definition decode_retract_event :: "string option \<Rightarrow> xml \<Rightarrow> error + string option" where
  "decode_retract_event old k = decode_fields (\<lambda>l v s. Inr (if l = ''node'' then Some v else s)) no_child k (Some (or_zero [] old))"

definition items_event_child :: "string \<Rightarrow> xml \<Rightarrow> items_event \<Rightarrow> error + items_event" where
  "items_event_child l k s =
     (if l = ''item'' then set_field (decode_item_event k) (\<lambda>v s. s\<lparr>evItems := evItems s @ [v]\<rparr>) s
      else if l = ''retract'' then set_field (decode_retract_event (evRetract s) k) (\<lambda>v s. s\<lparr>evRetract := v\<rparr>) s
      else Inr s)"

definition decode_items_event :: "xml \<Rightarrow> error + event_element" where
  "decode_items_event t =
     bind_result (decode_fields (\<lambda>l v s. Inr (if l = ''node'' then s\<lparr>evNode := v\<rparr> else s)) items_event_child t
         \<lparr>evItems = [], evNode = [], evRetract = None\<rparr>)
       (\<lambda>ie. Inr (ItemsEvent ie))"

definition decode_purge :: "xml \<Rightarrow> error + event_element" where
  "decode_purge t =
     bind_result (decode_fields (\<lambda>l v s. Inr (if l = ''node'' then v else s)) no_child t []) (\<lambda>node. Inr (PurgeEvent node))"

definition decode_subscription_event :: "xml \<Rightarrow> error + event_element" where
  "decode_subscription_event t =
     bind_result
       (decode_fields
         (\<lambda>l v s. Inr (if l = ''subscription'' then s\<lparr>seSubStatus := v\<rparr> else if l = ''expiry'' then s\<lparr>seExpiry := v\<rparr>
            else s\<lparr>seSubInfo := sub_info_attr l v (seSubInfo s)\<rparr>))
         no_child t \<lparr>seSubStatus = [], seExpiry = [], seSubInfo = zero_sub_info\<rparr>)
       (\<lambda>se. Inr (SubscriptionEvent se))"

definition event_decoder :: "string \<Rightarrow> (xml \<Rightarrow> error + event_element) option" where
  "event_decoder l =
     (if l = ''collection'' then Some decode_collection
      else if l = ''configuration'' then Some decode_configuration
      else if l = ''delete'' then Some decode_delete
      else if l = ''items'' then Some decode_items_event
      else if l = ''purge'' then Some decode_purge
      else if l = ''subscription'' then Some decode_subscription_event
      else None)"

text \<open>\<^verbatim>\<open>PubSubEvent.UnmarshalXML\<close>: the loop passes over the start of any other element.\<close>

definition PubSubEvent_child :: "pubsub_event elem_handler" where
  "PubSubEvent_child n at s d =
     (case event_decoder (nLocal n) of
        Some dec \<Rightarrow> decode_child (decode_struct dec) (\<lambda>v s. s\<lparr>peEventElement := Some v\<rparr>) n at s d
      | None \<Rightarrow> Inr (s, d))"

definition PubSubEvent_start :: "xname \<Rightarrow> xattr list \<Rightarrow> pubsub_event" where
  "PubSubEvent_start n at = \<lparr>peXMLName = n, peEventElement = None\<rparr>"

definition DecodePubSubEvent :: "xname \<Rightarrow> xattr list \<Rightarrow> decoder \<Rightarrow> error + pubsub_event \<times> decoder" where
  "DecodePubSubEvent = unmarshalInterface ''*stanza.PubSubEvent'' (elem_unmarshal PubSubEvent_start PubSubEvent_child)"

subsection \<open>Decoding complete elements\<close>

definition event_known :: "xname \<Rightarrow> bool" where
  "event_known n \<longleftrightarrow> event_decoder (nLocal n) \<noteq> None"

definition event_step :: "xml \<Rightarrow> pubsub_event \<Rightarrow> error + pubsub_event" where
  "event_step t s =
     (case event_decoder (nLocal (elem_name t)) of
        Some dec \<Rightarrow> set_field (dec t) (\<lambda>v s. s\<lparr>peEventElement := Some v\<rparr>) s
      | None \<Rightarrow> Inr s)"

lemma passes_event: "passes PubSubEvent_child event_known event_step"
  by (auto simp: passes_def exact_on_def PubSubEvent_child_def event_known_def event_step_def set_field_def child_steps)

definition event_of :: "xml \<Rightarrow> error + pubsub_event" where
  "event_of t = on_tree DecodePubSubEvent t"

lemma DecodePubSubEvent_tree:
  "DecodePubSubEvent n at (inside kids n rest stk d) = with_decoder (after rest stk d) (event_of (Elem n at kids))"
  unfolding DecodePubSubEvent_def event_of_def by (rule unmarshalInterface_on_tree [OF passes_event])

lemma forward_event: "forward DecodePubSubEvent"
  unfolding DecodePubSubEvent_def by (rule forward_unmarshalInterface [OF forward_elem_unmarshal])

lemma event_of_spliced:
  "avoids event_known n kids \<Longrightarrow>
     event_of (Elem n at kids) = fold_result event_step (spliced event_known kids) (PubSubEvent_start n at)"
  by (cases "fold_result event_step (spliced event_known kids) (PubSubEvent_start n at)")
    (simp_all add: event_of_def on_tree_def DecodePubSubEvent_def unmarshalInterface_spliced [OF passes_event])

text \<open>
  The notification of a retracted item (XEP-0060, 7.2.2) is read without the item's
  identifier, which stands in the attribute \<^verbatim>\<open>id\<close>: any two retractions look the same.
\<close>

theorem retract_id_lost:
  "event_of (Elem (XName ''http://jabber.org/protocol/pubsub#event'' ''event'') []
     [Elem (XName sp ''items'') [(plain_name ''node'', node)] [Elem (XName sp ''retract'') [(plain_name ''id'', i)] []]])
   = Inr \<lparr>peXMLName = XName ''http://jabber.org/protocol/pubsub#event'' ''event'',
       peEventElement = Some (ItemsEvent \<lparr>evItems = [], evNode = node, evRetract = Some []\<rparr>)\<rparr>"
  by (simp add: event_of_spliced event_known_def event_decoder_def event_step_def decode_items_event_def decode_fields_def
      items_event_child_def decode_retract_event_def PubSubEvent_start_def no_child_def)

text \<open>
  An event that is decoded has the name of its element, except that a deletion calls itself
  a configuration.
\<close>

theorem event_names:
  assumes "event_decoder l = Some dec" "dec t = Inr e"
  shows "EventElement_Name e =
    (if l \<in> {''configuration'', ''delete''} then ''Configuration''
     else if l = ''collection'' then ''Collection'' else if l = ''items'' then ''List''
     else if l = ''purge'' then ''Purge'' else ''Subscription'')"
  using assms
  by (auto simp: event_decoder_def decode_collection_def decode_configuration_def decode_delete_def decode_items_event_def
      decode_purge_def decode_subscription_event_def bind_result_Inr_iff split: if_splits)

theorem event_names_witness:
  "EventElement_Name (DeleteEvent ''n'' None) = ''Configuration''"
  using event_names [of "''delete''" decode_delete "Elem (plain_name ''delete'') [(plain_name ''node'', ''n'')] []" "DeleteEvent ''n'' None"]
  by (simp add: event_decoder_def decode_delete_def decode_fields_def)

end
