(* ===== verification/Disco.thy ===== *)
theory Disco
  imports PubSub
begin

text \<open>
  Payloads of queries: service discovery (\<^verbatim>\<open>stanza/iq_disco.go\<close>), the roster
  (\<^verbatim>\<open>stanza/iq_roster.go\<close>) and the software version (\<^verbatim>\<open>stanza/iq_version.go\<close>), with the helpers
  that fill them in, and how they are read and printed. \<^verbatim>\<open>Items\<close> and \<^verbatim>\<open>Features\<close> that are nil
  and those that are empty print alike and are not told apart.
\<close>

definition NSDiscoInfo :: string where "NSDiscoInfo = ''http://jabber.org/protocol/disco#info''"
definition NSDiscoItems :: string where "NSDiscoItems = ''http://jabber.org/protocol/disco#items''"
definition NSRoster :: string where "NSRoster = ''jabber:iq:roster''"
definition NSVersion :: string where "NSVersion = ''jabber:iq:version''"

lemma query_spaces [simp]: "NSDiscoInfo \<noteq> []" "NSDiscoItems \<noteq> []" "NSRoster \<noteq> []" "NSVersion \<noteq> []"
  by (simp_all add: NSDiscoInfo_def NSDiscoItems_def NSRoster_def NSVersion_def)

subsection \<open>Service discovery\<close>

record identity =
  idName :: string
  idCategory :: string
  idType :: string

record disco_info =
  diXMLName :: xname
  diNode :: string
  diIdentity :: "identity list"
  diFeatures :: "string list"
  diResultSet :: "result_set option"

definition zero_disco_info :: disco_info where
  "zero_disco_info = \<lparr>diXMLName = XName [] [], diNode = [], diIdentity = [], diFeatures = [], diResultSet = None\<rparr>"

text \<open>The payload that \<^verbatim>\<open>IQ.DiscoInfo\<close> puts into an IQ, and the methods that fill it in.\<close>

definition new_disco_info :: disco_info where
  "new_disco_info = zero_disco_info\<lparr>diXMLName := XName NSDiscoInfo ''query''\<rparr>"

definition AddIdentity :: "string \<Rightarrow> string \<Rightarrow> string \<Rightarrow> disco_info \<Rightarrow> disco_info" where
  "AddIdentity name category typ d = d\<lparr>diIdentity := diIdentity d @ [\<lparr>idName = name, idCategory = category, idType = typ\<rparr>]\<rparr>"

definition AddFeatures :: "string list \<Rightarrow> disco_info \<Rightarrow> disco_info" where
  "AddFeatures namespace d = fold (\<lambda>ns d. d\<lparr>diFeatures := diFeatures d @ [ns]\<rparr>) namespace d"

definition DiscoInfo_SetNode :: "string \<Rightarrow> disco_info \<Rightarrow> disco_info" where
  "DiscoInfo_SetNode n d = d\<lparr>diNode := n\<rparr>"

definition SetIdentities :: "identity list \<Rightarrow> disco_info \<Rightarrow> disco_info" where
  "SetIdentities ident d = d\<lparr>diIdentity := ident\<rparr>"

definition SetFeatures :: "string list \<Rightarrow> disco_info \<Rightarrow> disco_info" where
  "SetFeatures namespace d = fold (\<lambda>ns d. d\<lparr>diFeatures := diFeatures d @ [ns]\<rparr>) namespace (d\<lparr>diFeatures := []\<rparr>)"

definition decode_identity :: "xml \<Rightarrow> error + identity" where
  "decode_identity t =
     decode_fields (\<lambda>l v s. Inr (if l = ''name'' then s\<lparr>idName := v\<rparr> else if l = ''category'' then s\<lparr>idCategory := v\<rparr>
         else if l = ''type'' then s\<lparr>idType := v\<rparr> else s))
       no_child t \<lparr>idName = [], idCategory = [], idType = []\<rparr>"

definition decode_feature :: "xml \<Rightarrow> error + string" where
  "decode_feature t = decode_fields (\<lambda>l v s. Inr (if l = ''var'' then v else s)) no_child t []"

definition disco_info_child :: "string \<Rightarrow> xml \<Rightarrow> disco_info \<Rightarrow> error + disco_info" where
  "disco_info_child l k s =
     (if l = ''identity'' then set_field (decode_identity k) (\<lambda>v s. s\<lparr>diIdentity := diIdentity s @ [v]\<rparr>) s
      else if l = ''feature'' then set_field (decode_feature k) (\<lambda>v s. s\<lparr>diFeatures := diFeatures s @ [v]\<rparr>) s
      else if l = ''set'' then set_field (decode_result_set (or_zero zero_result_set (diResultSet s)) k) (\<lambda>v s. s\<lparr>diResultSet := Some v\<rparr>) s
      else Inr s)"

definition decode_disco_info :: "disco_info \<Rightarrow> xml \<Rightarrow> error + disco_info" where
  "decode_disco_info v0 t =
     bind_result (expect_name NSDiscoInfo ''query'' t) (\<lambda>n.
       decode_fields (\<lambda>l v s. Inr (if l = ''node'' then s\<lparr>diNode := v\<rparr> else s)) disco_info_child t (v0\<lparr>diXMLName := n\<rparr>))"

definition identity_elem :: "identity \<Rightarrow> xml" where
  "identity_elem v =
     Elem (plain_name ''identity'') (opt_attr ''name'' (idName v) @ opt_attr ''category'' (idCategory v) @ opt_attr ''type'' (idType v)) []"

definition feature_elem :: "string \<Rightarrow> xml" where
  "feature_elem v = Elem (plain_name ''feature'') [(plain_name ''var'', v)] []"

definition disco_info_elem :: "disco_info \<Rightarrow> xml" where
  "disco_info_elem v =
     Elem (XName NSDiscoInfo ''query'') (opt_attr ''node'' (diNode v))
       (map identity_elem (diIdentity v) @ map feature_elem (diFeatures v) @ maybe result_set_elem (diResultSet v))"

record disco_item =
  itmJID :: string
  itmNode :: string
  itmName :: string

record disco_items =
  dtXMLName :: xname
  dtNode :: string
  dtItems :: "disco_item list"
  dtResultSet :: "result_set option"

definition zero_disco_items :: disco_items where
  "zero_disco_items = \<lparr>dtXMLName = XName [] [], dtNode = [], dtItems = [], dtResultSet = None\<rparr>"

definition new_disco_items :: disco_items where
  "new_disco_items = zero_disco_items\<lparr>dtXMLName := XName NSDiscoItems ''query''\<rparr>"

definition DiscoItems_SetNode :: "string \<Rightarrow> disco_items \<Rightarrow> disco_items" where
  "DiscoItems_SetNode n d = d\<lparr>dtNode := n\<rparr>"

definition DiscoItems_AddItem :: "string \<Rightarrow> string \<Rightarrow> string \<Rightarrow> disco_items \<Rightarrow> disco_items" where
  "DiscoItems_AddItem j n name d = d\<lparr>dtItems := dtItems d @ [\<lparr>itmJID = j, itmNode = n, itmName = name\<rparr>]\<rparr>"

definition decode_disco_item :: "xml \<Rightarrow> error + disco_item" where
  "decode_disco_item t =
     decode_fields (\<lambda>l v s. Inr (if l = ''jid'' then s\<lparr>itmJID := v\<rparr> else if l = ''node'' then s\<lparr>itmNode := v\<rparr>
         else if l = ''name'' then s\<lparr>itmName := v\<rparr> else s))
       no_child t \<lparr>itmJID = [], itmNode = [], itmName = []\<rparr>"

definition disco_items_child :: "string \<Rightarrow> xml \<Rightarrow> disco_items \<Rightarrow> error + disco_items" where
  "disco_items_child l k s =
     (if l = ''item'' then set_field (decode_disco_item k) (\<lambda>v s. s\<lparr>dtItems := dtItems s @ [v]\<rparr>) s
      else if l = ''set'' then set_field (decode_result_set (or_zero zero_result_set (dtResultSet s)) k) (\<lambda>v s. s\<lparr>dtResultSet := Some v\<rparr>) s
      else Inr s)"

definition decode_disco_items :: "disco_items \<Rightarrow> xml \<Rightarrow> error + disco_items" where
  "decode_disco_items v0 t =
     bind_result (expect_name NSDiscoItems ''query'' t) (\<lambda>n.
       decode_fields (\<lambda>l v s. Inr (if l = ''node'' then s\<lparr>dtNode := v\<rparr> else s)) disco_items_child t (v0\<lparr>dtXMLName := n\<rparr>))"

definition disco_item_elem :: "disco_item \<Rightarrow> xml" where
  "disco_item_elem v =
     Elem (plain_name ''item'') (opt_attr ''jid'' (itmJID v) @ opt_attr ''node'' (itmNode v) @ opt_attr ''name'' (itmName v)) []"

definition disco_items_elem :: "disco_items \<Rightarrow> xml" where
  "disco_items_elem v =
     Elem (XName NSDiscoItems ''query'') (opt_attr ''node'' (dtNode v))
       (map disco_item_elem (dtItems v) @ maybe result_set_elem (dtResultSet v))"

subsection \<open>The roster\<close>

record roster =
  roXMLName :: xname
  roResultSet :: "result_set option"

definition new_roster :: roster where
  "new_roster = \<lparr>roXMLName = XName NSRoster ''query'', roResultSet = None\<rparr>"

definition roster_elem :: "roster \<Rightarrow> xml" where
  "roster_elem v = Elem (XName NSRoster ''query'') [] (maybe result_set_elem (roResultSet v))"

record roster_item =
  riJid :: string
  riAsk :: string
  riName :: string
  riSubscription :: string
  riGroups :: "string list"

record roster_items =
  risXMLName :: xname
  risItems :: "roster_item list"
  risResultSet :: "result_set option"

definition zero_roster_items :: roster_items where
  "zero_roster_items = \<lparr>risXMLName = XName [] [], risItems = [], risResultSet = None\<rparr>"

definition new_roster_items :: roster_items where
  "new_roster_items = zero_roster_items\<lparr>risXMLName := XName NSRoster ''query''\<rparr>"

definition RosterItems_AddItem ::
  "string \<Rightarrow> string \<Rightarrow> string \<Rightarrow> string \<Rightarrow> string list \<Rightarrow> roster_items \<Rightarrow> roster_items" where
  "RosterItems_AddItem j sub ask name groups r =
     r\<lparr>risItems := risItems r @ [\<lparr>riJid = j, riAsk = ask, riName = name, riSubscription = sub, riGroups = groups\<rparr>]\<rparr>"

definition decode_roster_item :: "xml \<Rightarrow> error + roster_item" where
  "decode_roster_item t =
     bind_result (expect_name NSRoster ''item'' t) (\<lambda>_.
       decode_fields (\<lambda>l v s. Inr (if l = ''jid'' then s\<lparr>riJid := v\<rparr> else if l = ''ask'' then s\<lparr>riAsk := v\<rparr>
           else if l = ''name'' then s\<lparr>riName := v\<rparr> else if l = ''subscription'' then s\<lparr>riSubscription := v\<rparr> else s))
         (\<lambda>l k s. Inr (if l = ''group'' then s\<lparr>riGroups := riGroups s @ [elem_text k]\<rparr> else s))
         t \<lparr>riJid = [], riAsk = [], riName = [], riSubscription = [], riGroups = []\<rparr>)"

definition roster_items_child :: "string \<Rightarrow> xml \<Rightarrow> roster_items \<Rightarrow> error + roster_items" where
  "roster_items_child l k s =
     (if l = ''item'' then set_field (decode_roster_item k) (\<lambda>v s. s\<lparr>risItems := risItems s @ [v]\<rparr>) s
      else if l = ''set'' then set_field (decode_result_set (or_zero zero_result_set (risResultSet s)) k) (\<lambda>v s. s\<lparr>risResultSet := Some v\<rparr>) s
      else Inr s)"

definition decode_roster_items :: "roster_items \<Rightarrow> xml \<Rightarrow> error + roster_items" where
  "decode_roster_items v0 t =
     bind_result (expect_name NSRoster ''query'' t) (\<lambda>n.
       decode_fields (\<lambda>l v s. Inr s) roster_items_child t (v0\<lparr>risXMLName := n\<rparr>))"

definition roster_item_elem :: "roster_item \<Rightarrow> xml" where
  "roster_item_elem v =
     Elem (XName NSRoster ''item'')
       ((plain_name ''jid'', riJid v) # opt_attr ''ask'' (riAsk v) @ opt_attr ''name'' (riName v) @ opt_attr ''subscription'' (riSubscription v))
       (map (text_elem ''group'') (riGroups v))"

definition roster_items_elem :: "roster_items \<Rightarrow> xml" where
  "roster_items_elem v =
     Elem (XName NSRoster ''query'') [] (map roster_item_elem (risItems v) @ maybe result_set_elem (risResultSet v))"

subsection \<open>Software version\<close>

record version =
  veXMLName :: xname
  veName :: string
  veVersion :: string
  veOS :: string
  veResultSet :: "result_set option"

definition zero_version :: version where
  "zero_version = \<lparr>veXMLName = XName [] [], veName = [], veVersion = [], veOS = [], veResultSet = None\<rparr>"

definition new_version :: version where
  "new_version = zero_version\<lparr>veXMLName := XName NSVersion ''query''\<rparr>"

definition SetInfo :: "string \<Rightarrow> string \<Rightarrow> string \<Rightarrow> version \<Rightarrow> version" where
  "SetInfo name version os v = v\<lparr>veName := name, veVersion := version, veOS := os\<rparr>"

definition version_child :: "string \<Rightarrow> xml \<Rightarrow> version \<Rightarrow> error + version" where
  "version_child l k s =
     (if l = ''name'' then Inr (s\<lparr>veName := elem_text k\<rparr>)
      else if l = ''version'' then Inr (s\<lparr>veVersion := elem_text k\<rparr>)
      else if l = ''os'' then Inr (s\<lparr>veOS := elem_text k\<rparr>)
      else if l = ''set'' then set_field (decode_result_set (or_zero zero_result_set (veResultSet s)) k) (\<lambda>v s. s\<lparr>veResultSet := Some v\<rparr>) s
      else Inr s)"

definition decode_version :: "version \<Rightarrow> xml \<Rightarrow> error + version" where
  "decode_version v0 t =
     bind_result (expect_name NSVersion ''query'' t) (\<lambda>n.
       decode_fields (\<lambda>l v s. Inr s) version_child t (v0\<lparr>veXMLName := n\<rparr>))"

definition version_elem :: "version \<Rightarrow> xml" where
  "version_elem v =
     Elem (XName NSVersion ''query'') []
       (opt_elem ''name'' (veName v) @ opt_elem ''version'' (veVersion v) @ opt_elem ''os'' (veOS v)
        @ maybe result_set_elem (veResultSet v))"

subsection \<open>Reading what was printed\<close>

lemma is_elem_query [simp]:
  "is_elem (\<lambda>_. True) (identity_elem i)" "is_elem (\<lambda>_. True) (feature_elem s)" "is_elem (\<lambda>_. True) (disco_info_elem d)"
  "is_elem (\<lambda>_. True) (disco_item_elem di)" "is_elem (\<lambda>_. True) (disco_items_elem ds)"
  "is_elem (\<lambda>_. True) (roster_item_elem ri)" "is_elem (\<lambda>_. True) (roster_items_elem rs)" "is_elem (\<lambda>_. True) (version_elem v)"
  by (simp_all add: identity_elem_def feature_elem_def disco_info_elem_def disco_item_elem_def disco_items_elem_def
      roster_item_elem_def roster_items_elem_def version_elem_def)

lemma elemental_query [simp]:
  "elemental identity_elem" "elemental feature_elem" "elemental disco_item_elem" "elemental roster_item_elem"
  by (simp_all add: elemental_def)

lemma wire_query [simp]:
  "elem_name (on_wire ns (identity_elem i)) = XName ns ''identity''" "elem_name (on_wire ns (feature_elem s)) = XName ns ''feature''"
  "elem_name (on_wire ns (disco_item_elem di)) = XName ns ''item''" "elem_name (on_wire ns (roster_item_elem ri)) = XName NSRoster ''item''"
  by (simp_all add: identity_elem_def feature_elem_def disco_item_elem_def roster_item_elem_def)

lemma decode_query_entries [simp]:
  "decode_identity (on_wire ns (identity_elem i)) = Inr i"
  "decode_feature (on_wire ns (feature_elem s)) = Inr s"
  "decode_disco_item (on_wire ns (disco_item_elem di)) = Inr di"
  by (cases i, simp add: decode_identity_def decode_fields_def identity_elem_def opt_attr_def no_child_def,
      simp add: decode_feature_def decode_fields_def feature_elem_def no_child_def,
      cases di, simp add: decode_disco_item_def decode_fields_def disco_item_elem_def opt_attr_def no_child_def)

lemma decode_roster_item_elem [simp]: "decode_roster_item (on_wire ns (roster_item_elem v)) = Inr v"
proof -
  have "fold_result (\<lambda>k s. Inr (if nLocal (elem_name k) = ''group'' then s\<lparr>riGroups := riGroups s @ [elem_text k]\<rparr> else s))
      (map (on_wire NSRoster \<circ> text_elem ''group'') gs) s = Inr (s\<lparr>riGroups := riGroups s @ gs\<rparr>)" for gs and s :: roster_item
    by (induction gs arbitrary: s) simp_all
  then show ?thesis
    by (cases v) (simp add: decode_roster_item_def decode_fields_def expect_name_def roster_item_elem_def opt_attr_def)
qed

lemma query_lists:
  "fold_result (\<lambda>k. disco_info_child (nLocal (elem_name k)) k) (map (on_wire ns \<circ> identity_elem) ids) d
     = Inr (d\<lparr>diIdentity := diIdentity d @ ids\<rparr>)"
  "fold_result (\<lambda>k. disco_info_child (nLocal (elem_name k)) k) (map (on_wire ns \<circ> feature_elem) fs) d
     = Inr (d\<lparr>diFeatures := diFeatures d @ fs\<rparr>)"
  "fold_result (\<lambda>k. disco_items_child (nLocal (elem_name k)) k) (map (on_wire ns \<circ> disco_item_elem) dis) ds
     = Inr (ds\<lparr>dtItems := dtItems ds @ dis\<rparr>)"
  "fold_result (\<lambda>k. roster_items_child (nLocal (elem_name k)) k) (map (on_wire ns \<circ> roster_item_elem) ris) rs
     = Inr (rs\<lparr>risItems := risItems rs @ ris\<rparr>)"
  subgoal by (induction ids arbitrary: d) (simp_all add: disco_info_child_def)
  subgoal by (induction fs arbitrary: d) (simp_all add: disco_info_child_def)
  subgoal by (induction dis arbitrary: ds) (simp_all add: disco_items_child_def)
  subgoal by (induction ris arbitrary: rs) (simp_all add: roster_items_child_def)
  done

lemma query_sets:
  assumes "all_opt go_ints r"
  shows "diResultSet d = None \<Longrightarrow> fold_result (\<lambda>k. disco_info_child (nLocal (elem_name k)) k) (maybe (on_wire ns \<circ> result_set_elem) r) d
      = Inr (d\<lparr>diResultSet := map_option named_result_set r\<rparr>)"
    and "dtResultSet ds = None \<Longrightarrow> fold_result (\<lambda>k. disco_items_child (nLocal (elem_name k)) k) (maybe (on_wire ns \<circ> result_set_elem) r) ds
      = Inr (ds\<lparr>dtResultSet := map_option named_result_set r\<rparr>)"
    and "risResultSet rs = None \<Longrightarrow> fold_result (\<lambda>k. roster_items_child (nLocal (elem_name k)) k) (maybe (on_wire ns \<circ> result_set_elem) r) rs
      = Inr (rs\<lparr>risResultSet := map_option named_result_set r\<rparr>)"
    and "veResultSet v = None \<Longrightarrow> fold_result (\<lambda>k. version_child (nLocal (elem_name k)) k) (maybe (on_wire ns \<circ> result_set_elem) r) v
      = Inr (v\<lparr>veResultSet := map_option named_result_set r\<rparr>)"
  using assms
  by (cases r; simp add: disco_info_child_def disco_items_child_def roster_items_child_def version_child_def decode_result_set_elem)+

lemma version_texts:
  "fold_result (\<lambda>k. version_child (nLocal (elem_name k)) k) (map (on_wire ns) (opt_elem ''name'' x)) v = Inr (if x = [] then v else v\<lparr>veName := x\<rparr>)"
  "fold_result (\<lambda>k. version_child (nLocal (elem_name k)) k) (map (on_wire ns) (opt_elem ''version'' x)) v = Inr (if x = [] then v else v\<lparr>veVersion := x\<rparr>)"
  "fold_result (\<lambda>k. version_child (nLocal (elem_name k)) k) (map (on_wire ns) (opt_elem ''os'' x)) v = Inr (if x = [] then v else v\<lparr>veOS := x\<rparr>)"
  by (simp_all add: opt_elem_def version_child_def)

lemma decode_disco_info_elem:
  assumes "all_opt go_ints (diResultSet v)"
  shows "decode_disco_info zero_disco_info (on_wire ns (disco_info_elem v))
    = Inr (v\<lparr>diXMLName := XName NSDiscoInfo ''query'', diResultSet := map_option named_result_set (diResultSet v)\<rparr>)"
  using assms by (cases v) (simp add: decode_disco_info_def decode_fields_def expect_name_def disco_info_elem_def opt_attr_def
      fold_result_append query_lists query_sets zero_disco_info_def)

lemma decode_disco_items_elem:
  assumes "all_opt go_ints (dtResultSet v)"
  shows "decode_disco_items zero_disco_items (on_wire ns (disco_items_elem v))
    = Inr (v\<lparr>dtXMLName := XName NSDiscoItems ''query'', dtResultSet := map_option named_result_set (dtResultSet v)\<rparr>)"
  using assms by (cases v) (simp add: decode_disco_items_def decode_fields_def expect_name_def disco_items_elem_def opt_attr_def
      fold_result_append query_lists query_sets zero_disco_items_def)

lemma decode_roster_items_elem:
  assumes "all_opt go_ints (risResultSet v)"
  shows "decode_roster_items zero_roster_items (on_wire ns (roster_items_elem v))
    = Inr (v\<lparr>risXMLName := XName NSRoster ''query'', risResultSet := map_option named_result_set (risResultSet v)\<rparr>)"
  using assms by (cases v) (simp add: decode_roster_items_def decode_fields_def expect_name_def roster_items_elem_def
      fold_result_append query_lists query_sets zero_roster_items_def)

lemma decode_version_elem:
  assumes "all_opt go_ints (veResultSet v)"
  shows "decode_version zero_version (on_wire ns (version_elem v))
    = Inr (v\<lparr>veXMLName := XName NSVersion ''query'', veResultSet := map_option named_result_set (veResultSet v)\<rparr>)"
  using assms by (cases v) (simp add: decode_version_def decode_fields_def expect_name_def version_elem_def
      fold_result_append query_sets version_texts zero_version_def)

lemma AddFeatures_append: "AddFeatures fs d = d\<lparr>diFeatures := diFeatures d @ fs\<rparr>"
  unfolding AddFeatures_def by (induction fs arbitrary: d) simp_all

lemma SetFeatures_set: "SetFeatures fs d = d\<lparr>diFeatures := fs\<rparr>"
  using AddFeatures_append [of fs "d\<lparr>diFeatures := []\<rparr>"] by (simp add: SetFeatures_def AddFeatures_def)

end
