(* ===== verification/Muc.thy ===== *)
theory Muc
  imports Disco
begin

text \<open>
  Entering a room, \<^verbatim>\<open>stanza/pres_muc.go\<close> (XEP-0045): the presence extension \<^verbatim>\<open>MucPresence\<close> with
  the request for the room's history, its decoder and its encoder; and the date and time
  profiles of \<^verbatim>\<open>stanza/datetime_profiles.go\<close> (XEP-0082). Times are values of a type \<open>'t\<close> of the
  package \<^verbatim>\<open>time\<close>, whose \<^verbatim>\<open>Parse\<close>, \<^verbatim>\<open>Format\<close> and \<^verbatim>\<open>IsZero\<close> are the parameter \<open>lib\<close>.
\<close>

record 't time_lib =
  tlParse :: "string \<Rightarrow> string \<Rightarrow> error + 't"
  tlFormat :: "string \<Rightarrow> 't \<Rightarrow> string"
  tlIsZero :: "'t \<Rightarrow> bool"
  tlZero :: 't

definition NSMuc :: string where "NSMuc = ''http://jabber.org/protocol/muc''"

definition timeLayout :: string where "timeLayout = ''2006-01-02T15:04:05Z''"

subsection \<open>The history request\<close>

record nullable_int =
  niValue :: int
  niIsSet :: bool

definition NewNullableInt :: "int \<Rightarrow> nullable_int" where
  "NewNullableInt val = \<lparr>niValue = val, niIsSet = True\<rparr>"

definition NullableInt_Get :: "nullable_int \<Rightarrow> int \<times> bool" where
  "NullableInt_Get n = (niValue n, niIsSet n)"

record 't history =
  hiXMLName :: xname
  hiMaxChars :: nullable_int
  hiMaxStanzas :: nullable_int
  hiSeconds :: nullable_int
  hiSince :: 't

definition unset_int :: nullable_int where
  "unset_int = \<lparr>niValue = 0, niIsSet = False\<rparr>"

definition zero_history :: "'t time_lib \<Rightarrow> 't history" where
  "zero_history lib = \<lparr>hiXMLName = XName [] [], hiMaxChars = unset_int, hiMaxStanzas = unset_int, hiSeconds = unset_int, hiSince = tlZero lib\<rparr>"

definition History_attr :: "'t time_lib \<Rightarrow> xattr \<Rightarrow> 't history \<Rightarrow> error + 't history" where
  "History_attr lib attr h =
     (let l = nLocal (fst attr); v = snd attr in
      if l = ''maxchars'' then bind_result (Atoi v) (\<lambda>i. Inr (h\<lparr>hiMaxChars := NewNullableInt i\<rparr>))
      else if l = ''maxstanzas'' then bind_result (Atoi v) (\<lambda>i. Inr (h\<lparr>hiMaxStanzas := NewNullableInt i\<rparr>))
      else if l = ''seconds'' then bind_result (Atoi v) (\<lambda>i. Inr (h\<lparr>hiSeconds := NewNullableInt i\<rparr>))
      else if l = ''since'' then bind_result (tlParse lib timeLayout v) (\<lambda>t. Inr (h\<lparr>hiSince := t\<rparr>))
      else Inr h)"

text \<open>\<^verbatim>\<open>History.UnmarshalXML\<close>: after the attributes it passes over all that is inside the element.\<close>

definition History_UnmarshalXML :: "'t time_lib \<Rightarrow> 't history \<Rightarrow> xname \<Rightarrow> xattr list \<Rightarrow> decoder \<Rightarrow> error + 't history \<times> decoder" where
  "History_UnmarshalXML lib h0 n at d =
     bind_result (fold_result (History_attr lib) at (h0\<lparr>hiXMLName := n\<rparr>)) (\<lambda>h.
       elem_unmarshal (\<lambda>_ _. h) (\<lambda>_ _ s d. Inr (s, d)) n at d)"

definition DecodeHistory :: "'t time_lib \<Rightarrow> 't history \<Rightarrow> xname \<Rightarrow> xattr list \<Rightarrow> decoder \<Rightarrow> error + 't history \<times> decoder" where
  "DecodeHistory lib h0 = unmarshalInterface ''*stanza.History'' (History_UnmarshalXML lib h0)"

text \<open>\<^verbatim>\<open>History.MarshalXML\<close>: nothing at all when no limit is set.\<close>

definition set_attr :: "string \<Rightarrow> nullable_int \<Rightarrow> xattr list" where
  "set_attr l n = (let (v, isSet) = NullableInt_Get n in if isSet then [(plain_name l, Itoa v)] else [])"

definition history_elems :: "'t time_lib \<Rightarrow> 't history \<Rightarrow> xml list" where
  "history_elems lib h =
     (if tlIsZero lib (hiSince h) \<and> \<not> snd (NullableInt_Get (hiMaxChars h)) \<and> \<not> snd (NullableInt_Get (hiMaxStanzas h))
         \<and> \<not> snd (NullableInt_Get (hiSeconds h))
      then []
      else
        [Elem (plain_name ''history'')
           (set_attr ''maxchars'' (hiMaxChars h) @ set_attr ''maxstanzas'' (hiMaxStanzas h) @ set_attr ''seconds'' (hiSeconds h)
            @ (if tlIsZero lib (hiSince h) then [] else [(plain_name ''since'', tlFormat lib timeLayout (hiSince h))])) []])"

subsection \<open>The presence extension\<close>

record 't muc_presence =
  mucXMLName :: xname
  mucPassword :: string
  mucHistory :: "'t history"

definition zero_muc :: "'t time_lib \<Rightarrow> 't muc_presence" where
  "zero_muc lib = \<lparr>mucXMLName = XName [] [], mucPassword = [], mucHistory = zero_history lib\<rparr>"

definition muc_child :: "'t time_lib \<Rightarrow> string \<Rightarrow> xml \<Rightarrow> 't muc_presence \<Rightarrow> error + 't muc_presence" where
  "muc_child lib l k s =
     (if l = ''password'' then Inr (s\<lparr>mucPassword := elem_text k\<rparr>)
      else if l = ''history'' then set_field (on_tree (DecodeHistory lib (mucHistory s)) k) (\<lambda>v s. s\<lparr>mucHistory := v\<rparr>) s
      else Inr s)"

definition decode_muc :: "'t time_lib \<Rightarrow> 't muc_presence \<Rightarrow> xml \<Rightarrow> error + 't muc_presence" where
  "decode_muc lib v0 t =
     bind_result (expect_name NSMuc ''x'' t) (\<lambda>n.
       decode_fields (\<lambda>l v s. Inr s) (muc_child lib) t (v0\<lparr>mucXMLName := n\<rparr>))"

definition muc_elem :: "'t time_lib \<Rightarrow> 't muc_presence \<Rightarrow> xml" where
  "muc_elem lib v = Elem (XName NSMuc ''x'') [] (opt_elem ''password'' (mucPassword v) @ history_elems lib (mucHistory v))"

subsection \<open>Reading what was printed\<close>

lemma NSMuc_nonempty [simp]: "NSMuc \<noteq> []"
  by (simp add: NSMuc_def)

lemma DecodeHistory_empty:
  "on_tree (DecodeHistory lib h0) (Elem n at []) = fold_result (History_attr lib) at (h0\<lparr>hiXMLName := n\<rparr>)"
proof -
  have "elem_unmarshal (\<lambda>_ _. h) (\<lambda>_ _ s d. Inr (s, d)) n at (after [EndElement n] (StkStart n # StkEOF # []) (new_decoder []))
      = Inr (h, after [] [StkEOF] (new_decoder []))" for h :: "'a history"
    unfolding elem_unmarshal_def elem_loop_end by simp
  then show ?thesis
    by (cases "fold_result (History_attr lib) at (h0\<lparr>hiXMLName := n\<rparr>)")
      (simp_all add: on_tree_def DecodeHistory_def History_UnmarshalXML_def unmarshalInterface_def inside_def after_def)
qed

text \<open>A history as programs make it: integers and times that are not set are zero.\<close>

definition int_set_ok :: "nullable_int \<Rightarrow> bool" where
  "int_set_ok n \<longleftrightarrow> (if niIsSet n then go_int (niValue n) else niValue n = 0)"

definition history_ok :: "'t time_lib \<Rightarrow> 't history \<Rightarrow> bool" where
  "history_ok lib h \<longleftrightarrow>
     int_set_ok (hiMaxChars h) \<and> int_set_ok (hiMaxStanzas h) \<and> int_set_ok (hiSeconds h)
     \<and> (if tlIsZero lib (hiSince h) then hiSince h = tlZero lib
        else tlParse lib timeLayout (tlFormat lib timeLayout (hiSince h)) = Inr (hiSince h))"

lemma Atoi_Itoa_go: "go_int i \<Longrightarrow> Atoi (Itoa i) = Inr i"
  by (simp add: go_int_def Atoi_Itoa)

lemma set_attr_fold:
  assumes "int_set_ok n"
  shows "hiMaxChars h = unset_int \<Longrightarrow> fold_result (History_attr lib) (set_attr ''maxchars'' n) h = Inr (h\<lparr>hiMaxChars := n\<rparr>)"
    and "hiMaxStanzas h = unset_int \<Longrightarrow> fold_result (History_attr lib) (set_attr ''maxstanzas'' n) h = Inr (h\<lparr>hiMaxStanzas := n\<rparr>)"
    and "hiSeconds h = unset_int \<Longrightarrow> fold_result (History_attr lib) (set_attr ''seconds'' n) h = Inr (h\<lparr>hiSeconds := n\<rparr>)"
  using assms
  by (cases n; auto simp: set_attr_def NullableInt_Get_def History_attr_def int_set_ok_def Atoi_Itoa_go NewNullableInt_def unset_int_def
      split: if_splits)+

lemma decode_history_elems:
  assumes "history_ok lib h" "mucHistory s = zero_history lib"
  shows "fold_result (\<lambda>k. muc_child lib (nLocal (elem_name k)) k) (map (on_wire NSMuc) (history_elems lib h)) s
    = Inr (s\<lparr>mucHistory := h\<lparr>hiXMLName := XName (if history_elems lib h = [] then [] else NSMuc) (if history_elems lib h = [] then [] else ''history'')\<rparr>\<rparr>)"
proof -
  have since: "History_attr lib (plain_name ''since'', v) h1 = bind_result (tlParse lib timeLayout v) (\<lambda>t. Inr (h1\<lparr>hiSince := t\<rparr>))" for v h1
    by (simp add: History_attr_def)
  show ?thesis
  proof (cases "history_elems lib h = []")
    case True
    then have "niIsSet (hiMaxChars h) = False" "niIsSet (hiMaxStanzas h) = False" "niIsSet (hiSeconds h) = False" "tlIsZero lib (hiSince h)"
      by (auto simp: history_elems_def NullableInt_Get_def split: if_splits)
    with assms True have "h\<lparr>hiXMLName := XName [] []\<rparr> = zero_history lib"
      by (cases h) (simp add: history_ok_def int_set_ok_def zero_history_def unset_int_def)
    with assms(2) True show ?thesis by simp
  next
    case False
    then have "history_elems lib h = [Elem (plain_name ''history'')
           (set_attr ''maxchars'' (hiMaxChars h) @ set_attr ''maxstanzas'' (hiMaxStanzas h) @ set_attr ''seconds'' (hiSeconds h)
            @ (if tlIsZero lib (hiSince h) then [] else [(plain_name ''since'', tlFormat lib timeLayout (hiSince h))])) []]"
      by (simp add: history_elems_def split: if_splits)
    with assms show ?thesis
      by (cases h; cases "tlIsZero lib (hiSince h)")
        (simp_all add: muc_child_def DecodeHistory_empty fold_result_append set_attr_fold since history_ok_def zero_history_def)
  qed
qed

text \<open>
  C34. What a room reads of a printed request to enter is the request: its password and the limits
  on the history, as long as the layout of the times loses nothing of the one that is sent. A
  history without a limit is not printed.
\<close>

theorem muc_roundtrip:
  assumes "history_ok lib (mucHistory v)"
  shows "\<exists>n. Unmarshal (decode_struct (decode_muc lib (zero_muc lib))) (rescan [] (xml_tokens (muc_elem lib v)))
    = Inr (v\<lparr>mucXMLName := XName NSMuc ''x'', mucHistory := (mucHistory v)\<lparr>hiXMLName := n\<rparr>\<rparr>)"
proof -
  have "on_wire [] (muc_elem lib v) = Elem (XName NSMuc ''x'') [(XName [] ''xmlns'', NSMuc)]
      (map (on_wire NSMuc) (opt_elem ''password'' (mucPassword v)) @ map (on_wire NSMuc) (history_elems lib (mucHistory v)))"
    by (simp add: muc_elem_def)
  moreover have "elements (map (on_wire NSMuc) (history_elems lib (mucHistory v))) = map (on_wire NSMuc) (history_elems lib (mucHistory v))"
    by (simp add: history_elems_def)
  moreover have "is_elem (\<lambda>_. True) (muc_elem lib v)" by (simp add: muc_elem_def)
  moreover have "fold_result (\<lambda>k. muc_child lib (nLocal (elem_name k)) k) (map (on_wire NSMuc) (opt_elem ''password'' p)) s
      = Inr (if p = [] then s else s\<lparr>mucPassword := p\<rparr>)" for p s
    by (simp add: opt_elem_def muc_child_def)
  ultimately show ?thesis
    using assms
    by (cases v) (auto simp: Unmarshal_wire decode_muc_def decode_fields_def expect_name_def fold_result_append
        decode_history_elems zero_muc_def)
qed

definition sample_lib :: "string time_lib" where
  "sample_lib = \<lparr>tlParse = (\<lambda>_. Inr), tlFormat = (\<lambda>_ t. t), tlIsZero = (\<lambda>t. t = []), tlZero = []\<rparr>"

definition sample_muc :: "string muc_presence" where
  "sample_muc = (zero_muc sample_lib)\<lparr>mucPassword := ''cauldronburn'',
     mucHistory := (zero_history sample_lib)\<lparr>hiMaxStanzas := NewNullableInt 20, hiSince := ''1970-01-01T00:00:00Z''\<rparr>\<rparr>"

theorem muc_roundtrip_witness:
  "\<exists>n. Unmarshal (decode_struct (decode_muc sample_lib (zero_muc sample_lib))) (rescan [] (xml_tokens (muc_elem sample_lib sample_muc)))
    = Inr (sample_muc\<lparr>mucXMLName := XName NSMuc ''x'', mucHistory := (mucHistory sample_muc)\<lparr>hiXMLName := n\<rparr>\<rparr>)"
  by (rule muc_roundtrip)
    (simp add: sample_muc_def history_ok_def int_set_ok_def zero_history_def unset_int_def NewNullableInt_def go_int_def
      int_min_def int_max_def sample_lib_def)

subsection \<open>Date and time profiles\<close>

definition RFC3339 :: string where "RFC3339 = ''2006-01-02T15:04:05Z07:00''"
definition RFC3339Nano :: string where "RFC3339Nano = ''2006-01-02T15:04:05.999999999Z07:00''"
definition dateLayoutXEP0082 :: string where "dateLayoutXEP0082 = ''2006-01-02''"
definition timeLayoutXEP0082 :: string where "timeLayoutXEP0082 = ''15:04:05+00:00''"

definition InvalidDateInput :: error where
  "InvalidDateInput = Err ''could not parse date. Input might not be in a supported format''"

definition InvalidDateOutput :: error where
  "InvalidDateOutput = Err ''could not format date as desired''"

text \<open>A \<^verbatim>\<open>JabberDate\<close> is its value.\<close>

definition DateToString :: "'t time_lib \<Rightarrow> 't \<Rightarrow> string" where
  "DateToString lib d = tlFormat lib dateLayoutXEP0082 d"

definition DateTimeToString :: "'t time_lib \<Rightarrow> bool \<Rightarrow> 't \<Rightarrow> string" where
  "DateTimeToString lib nanos d = (if nanos then tlFormat lib RFC3339Nano d else tlFormat lib RFC3339 d)"

definition TimeToString :: "'t time_lib \<Rightarrow> bool \<Rightarrow> 't \<Rightarrow> error + string" where
  "TimeToString lib nanos d =
     (if nanos then
        let spl = Split (tlFormat lib RFC3339Nano d) (CHR ''T'') in
        if length spl \<noteq> 2 then Inl InvalidDateOutput else Inr (spl ! 1)
      else
        let spl = Split (tlFormat lib RFC3339 d) (CHR ''T'') in
        if length spl \<noteq> 2 then Inl InvalidDateOutput else Inr (spl ! 1))"

definition NewJabberDateFromString :: "'t time_lib \<Rightarrow> string \<Rightarrow> error + 't" where
  "NewJabberDateFromString lib s =
     (case tlParse lib RFC3339 s of Inr t \<Rightarrow> Inr t
      | Inl _ \<Rightarrow>
          (case tlParse lib RFC3339Nano s of Inr t \<Rightarrow> Inr t
           | Inl _ \<Rightarrow>
               (case tlParse lib dateLayoutXEP0082 s of Inr t \<Rightarrow> Inr t
                | Inl _ \<Rightarrow>
                    (case tlParse lib timeLayoutXEP0082 s of Inr t \<Rightarrow> Inr t
                     | Inl _ \<Rightarrow> Inl InvalidDateInput))))"

text \<open>
  A printed date and time is read again as the same time; its time of day is what follows the
  only \<^verbatim>\<open>T\<close>; the input is refused exactly when no layout accepts it.
\<close>

theorem jabber_date_spec:
  assumes "tlParse lib RFC3339 (tlFormat lib RFC3339 d) = Inr d"
    and "tlFormat lib RFC3339 d = date @ CHR ''T'' # time" "CHR ''T'' \<notin> set date" "CHR ''T'' \<notin> set time"
  shows "NewJabberDateFromString lib (DateTimeToString lib False d) = Inr d
    \<and> TimeToString lib False d = Inr time
    \<and> (NewJabberDateFromString lib s = Inl e \<longleftrightarrow>
         e = InvalidDateInput \<and> (\<forall>layout \<in> {RFC3339, RFC3339Nano, dateLayoutXEP0082, timeLayoutXEP0082}. \<exists>x. tlParse lib layout s = Inl x))"
  using assms
  by (auto simp: NewJabberDateFromString_def DateTimeToString_def TimeToString_def Split_append Split_notin split: sum.splits)

theorem jabber_date_spec_witness:
  "TimeToString sample_lib False ''2004-10-18T20:11:00Z'' = Inr ''20:11:00Z''"
  using jabber_date_spec [of sample_lib "''2004-10-18T20:11:00Z''" "''2004-10-18''" "''20:11:00Z''" "[]" InvalidDateInput]
  by (simp add: sample_lib_def)

end
