(* ===== verification/Extensions.thy ===== *)
theory Extensions
  imports PubSub
begin

text \<open>
  The small extensions of messages: chat markers (\<^verbatim>\<open>stanza/msg_chat_markers.go\<close>), chat states
  (\<^verbatim>\<open>msg_chat_state.go\<close>), processing hints (\<^verbatim>\<open>msg_hint.go\<close>), receipts (\<^verbatim>\<open>msg_receipts.go\<close>) and
  out-of-band data (\<^verbatim>\<open>msg_oob.go\<close>); and the payload that controls things (\<^verbatim>\<open>iot.go\<close>). What is
  written of \<^verbatim>\<open>XMLName\<close> is the name in its tag, and it is read only when it is this name, so that
  the field is left out of the extensions of messages.
\<close>

subsection \<open>Extensions of messages\<close>

datatype msg_extension =
    Markable | MarkReceived string | MarkDisplayed string | MarkAcknowledged string
  | StateActive | StateComposing | StateGone | StateInactive | StatePaused
  | HintNoPermanentStore | HintNoStore | HintNoCopy | HintStore
  | ReceiptRequest | ReceiptReceived string
  | OOB string string

definition NSMsgChatMarkers :: string where "NSMsgChatMarkers = ''urn:xmpp:chat-markers:0''"
definition NSMsgChatStateNotifications :: string where
  "NSMsgChatStateNotifications = ''http://jabber.org/protocol/chatstates''"
definition NSMsgHints :: string where "NSMsgHints = ''urn:xmpp:hints''"
definition NSMsgReceipts :: string where "NSMsgReceipts = ''urn:xmpp:receipts''"
definition NSMsgOOB :: string where "NSMsgOOB = ''jabber:x:oob''"

lemmas extension_spaces = NSMsgChatMarkers_def NSMsgChatStateNotifications_def NSMsgHints_def NSMsgReceipts_def NSMsgOOB_def

text \<open>A struct without fields, and one whose only field is the attribute \<^verbatim>\<open>id\<close>.\<close>

definition empty_struct :: "string \<Rightarrow> string \<Rightarrow> msg_extension \<Rightarrow> xml \<Rightarrow> error + msg_extension" where
  "empty_struct sp l e t = bind_result (expect_name sp l t) (\<lambda>_. Inr e)"

definition id_struct :: "string \<Rightarrow> string \<Rightarrow> (string \<Rightarrow> msg_extension) \<Rightarrow> xml \<Rightarrow> error + msg_extension" where
  "id_struct sp l C t =
     bind_result (expect_name sp l t) (\<lambda>_.
     bind_result (decode_fields (\<lambda>l v s. Inr (if l = ''id'' then v else s)) no_child t []) (\<lambda>i. Inr (C i)))"

type_synonym decoders = "(string \<times> (xml \<Rightarrow> error + msg_extension)) list"

definition marker_decoders :: decoders where
  "marker_decoders =
     [(''Markable'', empty_struct NSMsgChatMarkers ''markable'' Markable),
      (''MarkReceived'', id_struct NSMsgChatMarkers ''received'' MarkReceived),
      (''MarkDisplayed'', id_struct NSMsgChatMarkers ''displayed'' MarkDisplayed),
      (''MarkAcknowledged'', id_struct NSMsgChatMarkers ''acknowledged'' MarkAcknowledged)]"

definition state_decoders :: decoders where
  "state_decoders =
     [(''StateActive'', empty_struct NSMsgChatStateNotifications ''active'' StateActive),
      (''StateComposing'', empty_struct NSMsgChatStateNotifications ''composing'' StateComposing),
      (''StateGone'', empty_struct NSMsgChatStateNotifications ''gone'' StateGone),
      (''StateInactive'', empty_struct NSMsgChatStateNotifications ''inactive'' StateInactive),
      (''StatePaused'', empty_struct NSMsgChatStateNotifications ''paused'' StatePaused)]"

definition hint_decoders :: decoders where
  "hint_decoders =
     [(''HintNoPermanentStore'', empty_struct NSMsgHints ''no-permanent-store'' HintNoPermanentStore),
      (''HintNoStore'', empty_struct NSMsgHints ''no-store'' HintNoStore),
      (''HintNoCopy'', empty_struct NSMsgHints ''no-copy'' HintNoCopy),
      (''HintStore'', empty_struct NSMsgHints ''store'' HintStore)]"

definition receipt_decoders :: decoders where
  "receipt_decoders =
     [(''ReceiptRequest'', empty_struct NSMsgReceipts ''request'' ReceiptRequest),
      (''ReceiptReceived'', id_struct NSMsgReceipts ''received'' ReceiptReceived)]"

definition decode_oob :: "xml \<Rightarrow> error + msg_extension" where
  "decode_oob t =
     bind_result (expect_name NSMsgOOB ''x'' t) (\<lambda>_.
     bind_result
       (decode_fields (\<lambda>l v s. Inr s)
         (\<lambda>l k s. Inr (if l = ''url'' then (elem_text k, snd s) else if l = ''desc'' then (fst s, elem_text k) else s)) t ([], []))
       (\<lambda>(url, desc). Inr (OOB url desc)))"

definition extension_decoders :: decoders where
  "extension_decoders =
     marker_decoders @ state_decoders @ hint_decoders @ receipt_decoders @ [(''OOB'', decode_oob)]"

text \<open>The Go type of an extension, and what is printed of it.\<close>

fun extension_type :: "msg_extension \<Rightarrow> string" where
  "extension_type Markable = ''Markable''"
| "extension_type (MarkReceived i) = ''MarkReceived''"
| "extension_type (MarkDisplayed i) = ''MarkDisplayed''"
| "extension_type (MarkAcknowledged i) = ''MarkAcknowledged''"
| "extension_type StateActive = ''StateActive''"
| "extension_type StateComposing = ''StateComposing''"
| "extension_type StateGone = ''StateGone''"
| "extension_type StateInactive = ''StateInactive''"
| "extension_type StatePaused = ''StatePaused''"
| "extension_type HintNoPermanentStore = ''HintNoPermanentStore''"
| "extension_type HintNoStore = ''HintNoStore''"
| "extension_type HintNoCopy = ''HintNoCopy''"
| "extension_type HintStore = ''HintStore''"
| "extension_type ReceiptRequest = ''ReceiptRequest''"
| "extension_type (ReceiptReceived i) = ''ReceiptReceived''"
| "extension_type (OOB url desc) = ''OOB''"

definition empty_elem :: "string \<Rightarrow> string \<Rightarrow> xml" where
  "empty_elem sp l = Elem (XName sp l) [] []"

definition id_elem :: "string \<Rightarrow> string \<Rightarrow> string \<Rightarrow> xml" where
  "id_elem sp l i = Elem (XName sp l) [(plain_name ''id'', i)] []"

fun extension_elem :: "msg_extension \<Rightarrow> xml" where
  "extension_elem Markable = empty_elem NSMsgChatMarkers ''markable''"
| "extension_elem (MarkReceived i) = id_elem NSMsgChatMarkers ''received'' i"
| "extension_elem (MarkDisplayed i) = id_elem NSMsgChatMarkers ''displayed'' i"
| "extension_elem (MarkAcknowledged i) = id_elem NSMsgChatMarkers ''acknowledged'' i"
| "extension_elem StateActive = empty_elem NSMsgChatStateNotifications ''active''"
| "extension_elem StateComposing = empty_elem NSMsgChatStateNotifications ''composing''"
| "extension_elem StateGone = empty_elem NSMsgChatStateNotifications ''gone''"
| "extension_elem StateInactive = empty_elem NSMsgChatStateNotifications ''inactive''"
| "extension_elem StatePaused = empty_elem NSMsgChatStateNotifications ''paused''"
| "extension_elem HintNoPermanentStore = empty_elem NSMsgHints ''no-permanent-store''"
| "extension_elem HintNoStore = empty_elem NSMsgHints ''no-store''"
| "extension_elem HintNoCopy = empty_elem NSMsgHints ''no-copy''"
| "extension_elem HintStore = empty_elem NSMsgHints ''store''"
| "extension_elem ReceiptRequest = empty_elem NSMsgReceipts ''request''"
| "extension_elem (ReceiptReceived i) = id_elem NSMsgReceipts ''received'' i"
| "extension_elem (OOB url desc) = Elem (XName NSMsgOOB ''x'') [] (text_elem ''url'' url # opt_elem ''desc'' desc)"

lemma extension_spaces_nonempty [simp]:
  "NSMsgChatMarkers \<noteq> []" "NSMsgChatStateNotifications \<noteq> []" "NSMsgHints \<noteq> []" "NSMsgReceipts \<noteq> []" "NSMsgOOB \<noteq> []"
  by (simp_all add: extension_spaces)

lemma wire_struct:
  "sp \<noteq> [] \<Longrightarrow> empty_struct sp l e (on_wire ns (empty_elem sp l)) = Inr e"
  "sp \<noteq> [] \<Longrightarrow> id_struct sp l C (on_wire ns (id_elem sp l i)) = Inr (C i)"
  by (simp_all add: empty_struct_def id_struct_def empty_elem_def id_elem_def expect_name_def decode_fields_def)

lemma decode_oob_elem:
  "decode_oob (on_wire ns (Elem (XName NSMsgOOB ''x'') [] (text_elem ''url'' url # opt_elem ''desc'' desc))) = Inr (OOB url desc)"
  by (simp add: decode_oob_def decode_fields_def expect_name_def opt_elem_def fold_result_append)

lemma decode_extension_elem:
  "\<exists>dec. map_of extension_decoders (extension_type e) = Some dec \<and> dec (on_wire ns (extension_elem e)) = Inr e"
  by (cases e) (simp_all add: extension_decoders_def marker_decoders_def state_decoders_def hint_decoders_def receipt_decoders_def
      wire_struct decode_oob_elem del: on_wire.simps)

lemma is_elem_extension [simp]: "is_elem (\<lambda>_. True) (extension_elem e)"
  by (cases e) (simp_all add: empty_elem_def id_elem_def)

subsection \<open>Controlling things\<close>

record control_field =
  cfdXMLName :: xname
  cfdName :: string
  cfdValue :: string

record control_set =
  csXMLName :: xname
  csFields :: "control_field list"
  csResultSet :: "result_set option"

definition NSControl :: string where "NSControl = ''urn:xmpp:iot:control''"

definition zero_control_set :: control_set where
  "zero_control_set = \<lparr>csXMLName = XName [] [], csFields = [], csResultSet = None\<rparr>"

definition decode_control_field :: "xml \<Rightarrow> error + control_field" where
  "decode_control_field t =
     decode_fields (\<lambda>l v s. Inr (if l = ''name'' then s\<lparr>cfdName := v\<rparr> else if l = ''value'' then s\<lparr>cfdValue := v\<rparr> else s))
       no_child t \<lparr>cfdXMLName = elem_name t, cfdName = [], cfdValue = []\<rparr>"

text \<open>The fields take every child element that is not the result set (\<^verbatim>\<open>,any\<close>).\<close>

definition control_set_child :: "string \<Rightarrow> xml \<Rightarrow> control_set \<Rightarrow> error + control_set" where
  "control_set_child l k s =
     (if l = ''set'' then set_field (decode_result_set (or_zero zero_result_set (csResultSet s)) k) (\<lambda>v s. s\<lparr>csResultSet := Some v\<rparr>) s
      else set_field (decode_control_field k) (\<lambda>v s. s\<lparr>csFields := csFields s @ [v]\<rparr>) s)"

definition decode_control_set :: "control_set \<Rightarrow> xml \<Rightarrow> error + control_set" where
  "decode_control_set v0 t =
     bind_result (expect_name NSControl ''set'' t) (\<lambda>n.
       decode_fields (\<lambda>l v s. Inr s) control_set_child t (v0\<lparr>csXMLName := n\<rparr>))"

text \<open>A field without a name of its own is printed under the name of the Go field.\<close>

definition control_field_elem :: "control_field \<Rightarrow> xml" where
  "control_field_elem f =
     Elem (if nLocal (cfdXMLName f) = [] then plain_name ''Fields'' else cfdXMLName f)
       (opt_attr ''name'' (cfdName f) @ opt_attr ''value'' (cfdValue f)) []"

definition control_set_elem :: "control_set \<Rightarrow> xml" where
  "control_set_elem v =
     Elem (XName NSControl ''set'') [] (map control_field_elem (csFields v) @ maybe result_set_elem (csResultSet v))"

definition control_ok :: "control_set \<Rightarrow> bool" where
  "control_ok v \<longleftrightarrow> all_opt go_ints (csResultSet v)
     \<and> list_all (\<lambda>f. nSpace (cfdXMLName f) \<noteq> [] \<and> nLocal (cfdXMLName f) \<notin> {[], ''set''}) (csFields v)"

lemma NSControl_nonempty [simp]: "NSControl \<noteq> []"
  by (simp add: NSControl_def)

lemma is_elem_control [simp]: "is_elem (\<lambda>_. True) (control_set_elem v)" "is_elem (\<lambda>_. True) (control_field_elem f)"
  by (simp_all add: control_set_elem_def control_field_elem_def)

lemma control_field_step:
  assumes "nSpace (cfdXMLName f) \<noteq> []" "nLocal (cfdXMLName f) \<notin> {[], ''set''}"
  shows "control_set_child (nLocal (elem_name (on_wire ns (control_field_elem f)))) (on_wire ns (control_field_elem f)) s
    = Inr (s\<lparr>csFields := csFields s @ [f]\<rparr>)"
  using assms
  by (cases f) (auto simp: control_set_child_def control_field_elem_def set_field_def decode_control_field_def decode_fields_def opt_attr_def)

lemma control_fields:
  "list_all (\<lambda>f. nSpace (cfdXMLName f) \<noteq> [] \<and> nLocal (cfdXMLName f) \<notin> {[], ''set''}) fs \<Longrightarrow>
     fold_result (\<lambda>k. control_set_child (nLocal (elem_name k)) k) (map (on_wire ns \<circ> control_field_elem) fs) s
       = Inr (s\<lparr>csFields := csFields s @ fs\<rparr>)"
  by (induction fs arbitrary: s) (simp_all add: control_field_step)

lemma decode_control_set_elem:
  assumes "control_ok v"
  shows "decode_control_set zero_control_set (on_wire ns (control_set_elem v))
    = Inr (v\<lparr>csXMLName := XName NSControl ''set'', csResultSet := map_option named_result_set (csResultSet v)\<rparr>)"
proof -
  have e: "elements (map (on_wire NSControl \<circ> control_field_elem) fs) = map (on_wire NSControl \<circ> control_field_elem) fs" for fs
    by (induction fs) simp_all
  have r: "csResultSet s = None \<Longrightarrow>
      fold_result (\<lambda>k. control_set_child (nLocal (elem_name k)) k) (maybe (on_wire NSControl \<circ> result_set_elem) (csResultSet v)) s
        = Inr (s\<lparr>csResultSet := map_option named_result_set (csResultSet v)\<rparr>)" for s :: control_set
    using assms by (cases "csResultSet v") (simp_all add: control_ok_def control_set_child_def decode_result_set_elem)
  show ?thesis
    using assms e control_fields [of "csFields v" NSControl] r
    by (cases v) (simp add: decode_control_set_def decode_fields_def expect_name_def control_set_elem_def fold_result_append
        zero_control_set_def control_ok_def)
qed

end
