(* ===== verification/Registry.thy ===== *)
theory Registry
  imports Xml
begin

text \<open>
  The registry of payload types, \<^verbatim>\<open>stanza/registry.go\<close>: \<open>MapExtension\<close>,
  \<open>GetExtensionType\<close> and the three typed lookups, and the registrations that the \<^verbatim>\<open>init\<close>
  functions of the package \<^verbatim>\<open>stanza\<close> make. A \<^verbatim>\<open>reflect.Type\<close> is the name of the Go type; the
  nested maps are functions into \<open>option\<close>.
\<close>

type_synonym gotype = string

datatype packet_type = PKTPresence | PKTMessage | PKTIQ

record registry_key =
  rkPacketType :: packet_type
  rkNamespace :: string

type_synonym namespace_store = "string \<Rightarrow> gotype option"

type_synonym registry = "registry_key \<Rightarrow> namespace_store option"

definition newRegistry :: registry where
  "newRegistry = (\<lambda>_. None)"

subsection \<open>Operations\<close>

definition registryKey :: "packet_type \<Rightarrow> xname \<Rightarrow> registry_key" where
  "registryKey pktType name = \<lparr>rkPacketType = pktType, rkNamespace = nSpace name\<rparr>"

text \<open>
  \<^verbatim>\<open>MapExtension\<close> reads the store of the key under the read lock, and then, under the write
  lock, creates it if it was missing, extends it and stores it again. The two critical
  sections are two definitions. A store that exists is shared by reference, so the second
  section extends its present contents.
\<close>

definition MapExtension_read :: "packet_type \<Rightarrow> xname \<Rightarrow> registry \<Rightarrow> bool" where
  "MapExtension_read pktType name r \<longleftrightarrow> r (registryKey pktType name) \<noteq> None"

definition MapExtension_write ::
  "bool \<Rightarrow> packet_type \<Rightarrow> xname \<Rightarrow> gotype \<Rightarrow> registry \<Rightarrow> registry" where
  "MapExtension_write found pktType name extension r =
     (let key = registryKey pktType name;
          store = (if found then (case r key of Some s \<Rightarrow> s | None \<Rightarrow> (\<lambda>_. None)) else (\<lambda>_. None)) in
      r(key := Some (store(nLocal name := Some extension))))"

definition MapExtension :: "packet_type \<Rightarrow> xname \<Rightarrow> gotype \<Rightarrow> registry \<Rightarrow> registry" where
  "MapExtension pktType name extension r =
     MapExtension_write (MapExtension_read pktType name r) pktType name extension r"

text \<open>A lookup in a nil map gives nil.\<close>

definition GetExtensionType :: "packet_type \<Rightarrow> xname \<Rightarrow> registry \<Rightarrow> gotype option" where
  "GetExtensionType pktType name r =
     (let store = (case r (registryKey pktType name) of Some s \<Rightarrow> s | None \<Rightarrow> (\<lambda>_. None));
          result = store (nLocal name) in
      if result = None \<and> nLocal name \<noteq> ''*'' then store ''*'' else result)"

text \<open>
  Every value is a \<^verbatim>\<open>PresExtension\<close> and a \<^verbatim>\<open>MsgExtension\<close>; an \<^verbatim>\<open>IQPayload\<close> is a value of one
  of the types that have its methods.
\<close>

definition GetPresExtension :: "xname \<Rightarrow> registry \<Rightarrow> gotype option" where
  "GetPresExtension name r = GetExtensionType PKTPresence name r"

definition GetMsgExtension :: "xname \<Rightarrow> registry \<Rightarrow> gotype option" where
  "GetMsgExtension name r = GetExtensionType PKTMessage name r"

definition GetIQExtension :: "(gotype \<Rightarrow> bool) \<Rightarrow> xname \<Rightarrow> registry \<Rightarrow> gotype option" where
  "GetIQExtension isIQPayload name r =
     (case GetExtensionType PKTIQ name r of
        None \<Rightarrow> None
      | Some ty \<Rightarrow> if isIQPayload ty then Some ty else None)"

subsection \<open>The contract\<close>

text \<open>
  What the comments of \<^verbatim>\<open>MapExtension\<close> promise: a registration is found under its own name, the
  name \<^verbatim>\<open>*\<close> stands for all unknown names of its packet type and name space, and nothing else
  changes.
\<close>

locale extension_registry =
  fixes register :: "'k \<Rightarrow> string \<Rightarrow> 'ty \<Rightarrow> 'r \<Rightarrow> 'r"
    and exact :: "'k \<Rightarrow> string \<Rightarrow> 'r \<Rightarrow> 'ty option"
    and get :: "'k \<Rightarrow> string \<Rightarrow> 'r \<Rightarrow> 'ty option"
  assumes exact_register: "exact k' l' (register k l ty r) = (if k' = k \<and> l' = l then Some ty else exact k' l' r)"
    and get_exact: "get k l r = (case exact k l r of Some ty \<Rightarrow> Some ty | None \<Rightarrow> exact k ''*'' r)"
begin

lemma get_registered: "get k l (register k l ty r) = Some ty"
  by (simp add: get_exact exact_register)

lemma get_other_key: "k' \<noteq> k \<Longrightarrow> get k' l' (register k l ty r) = get k' l' r"
  by (simp add: get_exact exact_register split: option.split)

lemma get_wildcard: "exact k l' r = None \<Longrightarrow> get k l' (register k ''*'' ty r) = Some ty"
  by (auto simp: get_exact exact_register)

lemma get_known: "exact k l' r = Some ty' \<Longrightarrow> l' \<noteq> l \<Longrightarrow> get k l' (register k l ty r) = Some ty'"
  by (auto simp: get_exact exact_register)

lemma get_unknown: "l \<noteq> ''*'' \<Longrightarrow> l' \<noteq> l \<Longrightarrow> get k l' (register k l ty r) = get k l' r"
  by (auto simp: get_exact exact_register split: option.split)

text \<open>Of several registrations of a name the last one counts.\<close>

definition register_all :: "('k \<times> string \<times> 'ty) list \<Rightarrow> 'r \<Rightarrow> 'r" where
  "register_all regs r = fold (\<lambda>(k, l, ty). register k l ty) regs r"

lemma exact_register_all:
  "exact k l (register_all regs r) =
     (case filter (\<lambda>(k', l', _). k' = k \<and> l' = l) (rev regs) of
        [] \<Rightarrow> exact k l r
      | (_, _, ty) # _ \<Rightarrow> Some ty)"
proof (induction regs arbitrary: r rule: rev_induct)
  case Nil
  then show ?case by (simp add: register_all_def)
next
  case (snoc x regs)
  obtain k' l' ty where x: "x = (k', l', ty)" by (cases x)
  have "register_all (regs @ [x]) r = register k' l' ty (register_all regs r)"
    by (simp add: register_all_def x)
  then show ?case using snoc.IH [of r] by (simp add: exact_register x)
qed

end

definition registry_register :: "packet_type \<times> string \<Rightarrow> string \<Rightarrow> gotype \<Rightarrow> registry \<Rightarrow> registry" where
  "registry_register k l ty r = MapExtension (fst k) (XName (snd k) l) ty r"

definition registry_exact :: "packet_type \<times> string \<Rightarrow> string \<Rightarrow> registry \<Rightarrow> gotype option" where
  "registry_exact k l r =
     (case r (registryKey (fst k) (XName (snd k) l)) of Some s \<Rightarrow> s l | None \<Rightarrow> None)"

definition registry_get :: "packet_type \<times> string \<Rightarrow> string \<Rightarrow> registry \<Rightarrow> gotype option" where
  "registry_get k l r = GetExtensionType (fst k) (XName (snd k) l) r"

lemma registryKey_eq:
  "registryKey p (XName s l) = registryKey p' (XName s' l') \<longleftrightarrow> p = p' \<and> s = s'"
  by (auto simp: registryKey_def)

interpretation reg: extension_registry registry_register registry_exact registry_get
proof unfold_locales
  fix k' l' k l ty r
  show "registry_exact k' l' (registry_register k l ty r) =
      (if k' = k \<and> l' = l then Some ty else registry_exact k' l' r)"
    by (cases k; cases k')
      (auto simp: registry_exact_def registry_register_def MapExtension_def MapExtension_write_def
        MapExtension_read_def registryKey_def Let_def split: option.splits)
next
  fix k l r
  show "registry_get k l r = (case registry_exact k l r of Some ty \<Rightarrow> Some ty | None \<Rightarrow> registry_exact k ''*'' r)"
    by (auto simp: registry_get_def registry_exact_def GetExtensionType_def registryKey_def Let_def
        split: option.splits)
qed

lemma GetExtensionType_get: "GetExtensionType p n r = registry_get (p, nSpace n) (nLocal n) r"
  by (simp add: registry_get_def)

lemma MapExtension_register: "MapExtension p n ty r = registry_register (p, nSpace n) (nLocal n) ty r"
  by (simp add: registry_register_def)

text \<open>
  A lookup after a registration: the name registered is found with its type; with the name
  \<^verbatim>\<open>*\<close>, so is every name of that packet type and name space that has no registration of its
  own; every other name is found as before.
\<close>

theorem GetExtensionType_MapExtension:
  "GetExtensionType p n (MapExtension p' n' ty r) =
     (if p = p' \<and> nSpace n = nSpace n'
         \<and> (nLocal n = nLocal n'
            \<or> nLocal n' = ''*'' \<and> registry_exact (p, nSpace n) (nLocal n) r = None)
      then Some ty else GetExtensionType p n r)"
  unfolding GetExtensionType_get MapExtension_register
  by (auto simp: reg.get_exact reg.exact_register split: option.splits)

subsection \<open>Two registrations at once\<close>

text \<open>
  The two critical sections of two calls, in the order in which the first call finishes last
  but both read before either writes.
\<close>

definition MapExtension_race ::
  "packet_type \<Rightarrow> xname \<Rightarrow> gotype \<Rightarrow> xname \<Rightarrow> gotype \<Rightarrow> registry \<Rightarrow> registry" where
  "MapExtension_race p n1 ty1 n2 ty2 r =
     (let found1 = MapExtension_read p n1 r;
          found2 = MapExtension_read p n2 r;
          r1 = MapExtension_write found1 p n1 ty1 r in
      MapExtension_write found2 p n2 ty2 r1)"

text \<open>
  The lock does not make \<^verbatim>\<open>MapExtension\<close> atomic: when two calls register the first two
  names of a name space and both read before either writes, one registration is lost,
  although one call after the other keeps both.
\<close>

theorem MapExtension_race_loses:
  assumes "nSpace n1 = nSpace n2" "nLocal n1 \<noteq> nLocal n2" "nLocal n2 \<noteq> ''*''"
    and "r (registryKey p n1) = None"
  shows "GetExtensionType p n1 (MapExtension_race p n1 ty1 n2 ty2 r) = None
    \<and> GetExtensionType p n1 (MapExtension p n2 ty2 (MapExtension p n1 ty1 r)) = Some ty1
    \<and> GetExtensionType p n2 (MapExtension p n2 ty2 (MapExtension p n1 ty1 r)) = Some ty2"
proof (intro conjI)
  have k: "registryKey p n2 = registryKey p n1" using assms(1) by (simp add: registryKey_def)
  show "GetExtensionType p n1 (MapExtension_race p n1 ty1 n2 ty2 r) = None"
    using assms by (simp add: MapExtension_race_def MapExtension_read_def MapExtension_write_def k
        GetExtensionType_def Let_def)
qed (use assms in \<open>simp_all add: GetExtensionType_get MapExtension_register reg.get_registered reg.get_exact
    reg.exact_register\<close>)

theorem MapExtension_race_loses_witness:
  "GetExtensionType PKTIQ (XName ''urn:a'' ''x'')
     (MapExtension_race PKTIQ (XName ''urn:a'' ''x'') ''X'' (XName ''urn:a'' ''y'') ''Y'' newRegistry) = None"
  using MapExtension_race_loses [of "XName ''urn:a'' ''x''" "XName ''urn:a'' ''y''" newRegistry PKTIQ "''X''" "''Y''"]
  by (simp add: newRegistry_def)

subsection \<open>The registrations of the package\<close>

type_synonym registration = "packet_type \<times> xname \<times> gotype"

definition init_commands :: "registration list" where
  "init_commands = [(PKTIQ, XName ''http://jabber.org/protocol/commands'' ''command'', ''Command'')]"

definition init_component :: "registration list" where
  "init_component =
     [(PKTMessage, XName ''urn:xmpp:delegation:1'' ''delegation'', ''Delegation''),
      (PKTIQ, XName ''urn:xmpp:delegation:1'' ''delegation'', ''Delegation'')]"

definition init_iot :: "registration list" where
  "init_iot = [(PKTIQ, XName ''urn:xmpp:iot:control'' ''set'', ''ControlSet'')]"

definition init_iq_disco :: "registration list" where
  "init_iq_disco =
     [(PKTIQ, XName ''http://jabber.org/protocol/disco#info'' ''query'', ''DiscoInfo''),
      (PKTIQ, XName ''http://jabber.org/protocol/disco#items'' ''query'', ''DiscoItems'')]"

definition init_iq_roster :: "registration list" where
  "init_iq_roster =
     [(PKTIQ, XName ''jabber:iq:roster'' ''query'', ''Roster''),
      (PKTIQ, XName ''jabber:iq:roster'' ''query'', ''RosterItems'')]"

definition init_iq_version :: "registration list" where
  "init_iq_version = [(PKTIQ, XName ''jabber:iq:version'' ''query'', ''Version'')]"

definition init_msg_chat_markers :: "registration list" where
  "init_msg_chat_markers =
     [(PKTMessage, XName ''urn:xmpp:chat-markers:0'' ''markable'', ''Markable''),
      (PKTMessage, XName ''urn:xmpp:chat-markers:0'' ''received'', ''MarkReceived''),
      (PKTMessage, XName ''urn:xmpp:chat-markers:0'' ''displayed'', ''MarkDisplayed''),
      (PKTMessage, XName ''urn:xmpp:chat-markers:0'' ''acknowledged'', ''MarkAcknowledged'')]"

definition init_msg_chat_state :: "registration list" where
  "init_msg_chat_state =
     [(PKTMessage, XName ''http://jabber.org/protocol/chatstates'' ''active'', ''StateActive''),
      (PKTMessage, XName ''http://jabber.org/protocol/chatstates'' ''composing'', ''StateComposing''),
      (PKTMessage, XName ''http://jabber.org/protocol/chatstates'' ''gone'', ''StateGone''),
      (PKTMessage, XName ''http://jabber.org/protocol/chatstates'' ''inactive'', ''StateInactive''),
      (PKTMessage, XName ''http://jabber.org/protocol/chatstates'' ''paused'', ''StatePaused'')]"

definition init_msg_hint :: "registration list" where
  "init_msg_hint =
     [(PKTMessage, XName ''urn:xmpp:hints'' ''no-permanent-store'', ''HintNoPermanentStore''),
      (PKTMessage, XName ''urn:xmpp:hints'' ''no-store'', ''HintNoStore''),
      (PKTMessage, XName ''urn:xmpp:hints'' ''no-copy'', ''HintNoCopy''),
      (PKTMessage, XName ''urn:xmpp:hints'' ''store'', ''HintStore'')]"

definition init_msg_html :: "registration list" where
  "init_msg_html = [(PKTMessage, XName ''http://jabber.org/protocol/xhtml-im'' ''html'', ''HTML'')]"

definition init_msg_oob :: "registration list" where
  "init_msg_oob = [(PKTMessage, XName ''jabber:x:oob'' ''x'', ''OOB'')]"

definition init_msg_pubsub_event :: "registration list" where
  "init_msg_pubsub_event =
     [(PKTMessage, XName ''http://jabber.org/protocol/pubsub#event'' ''event'', ''PubSubEvent'')]"

definition init_msg_receipts :: "registration list" where
  "init_msg_receipts =
     [(PKTMessage, XName ''urn:xmpp:receipts'' ''request'', ''ReceiptRequest''),
      (PKTMessage, XName ''urn:xmpp:receipts'' ''received'', ''ReceiptReceived'')]"

definition init_pres_muc :: "registration list" where
  "init_pres_muc = [(PKTPresence, XName ''http://jabber.org/protocol/muc'' ''x'', ''MucPresence'')]"

definition init_pubsub :: "registration list" where
  "init_pubsub = [(PKTIQ, XName ''http://jabber.org/protocol/pubsub'' ''pubsub'', ''PubSubGeneric'')]"

definition init_pubsub_owner :: "registration list" where
  "init_pubsub_owner = [(PKTIQ, XName ''http://jabber.org/protocol/pubsub#owner'' ''pubsub'', ''PubSubOwner'')]"

definition init_sasl_auth :: "registration list" where
  "init_sasl_auth =
     [(PKTIQ, XName ''urn:ietf:params:xml:ns:xmpp-bind'' ''bind'', ''Bind''),
      (PKTIQ, XName ''urn:ietf:params:xml:ns:xmpp-session'' ''session'', ''StreamSession'')]"

text \<open>The registry after the package is initialised; Go runs the \<^verbatim>\<open>init\<close> functions by file name.\<close>

definition package_registrations :: "registration list" where
  "package_registrations =
     init_commands @ init_component @ init_iot @ init_iq_disco @ init_iq_roster @ init_iq_version
     @ init_msg_chat_markers @ init_msg_chat_state @ init_msg_hint @ init_msg_html @ init_msg_oob
     @ init_msg_pubsub_event @ init_msg_receipts @ init_pres_muc @ init_pubsub @ init_pubsub_owner
     @ init_sasl_auth"

definition TypeRegistry :: registry where
  "TypeRegistry = fold (\<lambda>(p, n, ty). MapExtension p n ty) package_registrations newRegistry"

lemmas init_defs = init_commands_def init_component_def init_iot_def init_iq_disco_def init_iq_roster_def
  init_iq_version_def init_msg_chat_markers_def init_msg_chat_state_def init_msg_hint_def init_msg_html_def
  init_msg_oob_def init_msg_pubsub_event_def init_msg_receipts_def init_pres_muc_def init_pubsub_def
  init_pubsub_owner_def init_sasl_auth_def

definition registration_of :: "packet_type \<Rightarrow> xname \<Rightarrow> gotype option" where
  "registration_of p n =
     (case filter (\<lambda>(p', n', _). p' = p \<and> n' = n) (rev package_registrations) of
        [] \<Rightarrow> None
      | (_, _, ty) # _ \<Rightarrow> Some ty)"

lemma filter_rev_keys:
  "(case filter (\<lambda>(k', l', _). k' = (p, nSpace n) \<and> l' = nLocal n)
       (rev (map (\<lambda>(p, n, ty). ((p, nSpace n), nLocal n, ty)) xs)) of
      [] \<Rightarrow> None | (_, _, ty) # _ \<Rightarrow> Some ty)
   = (case filter (\<lambda>(p', n', _). p' = p \<and> n' = n) (rev xs) of [] \<Rightarrow> None | (_, _, ty) # _ \<Rightarrow> Some ty)"
proof (induction xs rule: rev_induct)
  case (snoc x xs)
  then show ?case by (cases x) (auto simp: xname.expand)
qed simp

lemma TypeRegistry_register_all:
  "TypeRegistry = reg.register_all (map (\<lambda>(p, n, ty). ((p, nSpace n), nLocal n, ty)) package_registrations) newRegistry"
proof -
  have "fold (\<lambda>(p, n, ty). MapExtension p n ty) xs r
      = reg.register_all (map (\<lambda>(p, n, ty). ((p, nSpace n), nLocal n, ty)) xs) r" for xs r
    by (induction xs arbitrary: r) (auto simp: reg.register_all_def MapExtension_register)
  then show ?thesis by (simp add: TypeRegistry_def)
qed

lemma exact_TypeRegistry: "registry_exact (p, nSpace n) (nLocal n) TypeRegistry = registration_of p n"
proof -
  have n: "registry_exact k l newRegistry = None" for k l
    by (simp add: registry_exact_def newRegistry_def)
  show ?thesis
    unfolding TypeRegistry_register_all reg.exact_register_all n registration_of_def by (rule filter_rev_keys)
qed

lemma registration_of_wildcard: "registration_of p (XName s ''*'') = None"
  by (simp add: registration_of_def package_registrations_def init_defs)

lemma GetExtensionType_package: "GetExtensionType p n TypeRegistry = registration_of p n"
  using exact_TypeRegistry [of p n] exact_TypeRegistry [of p "XName (nSpace n) ''*''"]
  by (simp add: GetExtensionType_get reg.get_exact registration_of_wildcard split: option.split)

text \<open>
  After package initialisation every lookup finds the type that was registered last under
  exactly that packet type and name, and nothing for the other names: no wildcard is
  registered. A roster query is therefore always decoded into \<^verbatim>\<open>RosterItems\<close>: the
  registration of \<^verbatim>\<open>Roster\<close> is replaced at once.
\<close>

theorem TypeRegistry_lookup:
  "GetExtensionType p n TypeRegistry = registration_of p n
   \<and> GetExtensionType PKTIQ (XName ''jabber:iq:roster'' ''query'') TypeRegistry = Some ''RosterItems''"
  by (simp add: GetExtensionType_package)
    (simp add: registration_of_def package_registrations_def init_defs)

end
