(* ===== verification/Stanza.thy ===== *)
theory Stanza
  imports PubSubOwner PubSubEvent Muc Extensions Registry
begin

text \<open>
  The three stanzas and their decoders: \<^verbatim>\<open>stanza/packet.go\<close>, \<^verbatim>\<open>packet_enum.go\<close>,
  \<^verbatim>\<open>iq.go\<close>, \<^verbatim>\<open>message.go\<close>, \<^verbatim>\<open>presence.go\<close>, with the payloads of \<^verbatim>\<open>sasl_auth.go\<close>
  (\<^verbatim>\<open>Bind\<close> and \<^verbatim>\<open>StreamSession\<close>) and those of the theories that this one imports.

  Payload types are open: a program registers its own. A codec \<open>cdc\<close> gives what the decoders
  use of them: the registry, which types are an \<^verbatim>\<open>IQPayload\<close>, and what \<^verbatim>\<open>DecodeElement\<close>
  does for a value of a type. A payload of a type that is not modelled is kept as its element
  (\<open>PExt\<close>).
\<close>

subsection \<open>Payloads\<close>

record bind =
  bindXMLName :: xname
  bindResource :: string
  bindJid :: string
  bindResultSet :: "result_set option"

record stream_session =
  ssXMLName :: xname
  ssOptional :: bool
  ssResultSet :: "result_set option"

datatype payload =
    PBind bind
  | PStreamSession stream_session
  | PForm form
  | PPubSub pubsub_generic
  | PPubSubOwner pubsub_owner
  | PPubSubEvent pubsub_event
  | PCommand command
  | PDiscoInfo disco_info
  | PDiscoItems disco_items
  | PRoster roster
  | PRosterItems roster_items
  | PVersion version
  | PControlSet control_set
  | PMsgExt msg_extension
  | PExt gotype xml

definition zero_bind :: bind where
  "zero_bind = \<lparr>bindXMLName = XName [] [], bindResource = [], bindJid = [], bindResultSet = None\<rparr>"

definition zero_stream_session :: stream_session where
  "zero_stream_session = \<lparr>ssXMLName = XName [] [], ssOptional = False, ssResultSet = None\<rparr>"

definition decode_bind :: "bind \<Rightarrow> xml \<Rightarrow> error + bind" where
  "decode_bind v0 t =
     bind_result (expect_name ''urn:ietf:params:xml:ns:xmpp-bind'' ''bind'' t) (\<lambda>n.
       fold_result (\<lambda>k v.
           let l = nLocal (elem_name k) in
           if l = ''resource'' then Inr (v\<lparr>bindResource := elem_text k\<rparr>)
           else if l = ''jid'' then Inr (v\<lparr>bindJid := elem_text k\<rparr>)
           else if l = ''set'' then bind_result (decode_set_field (bindResultSet v) k) (\<lambda>s. Inr (v\<lparr>bindResultSet := s\<rparr>))
           else Inr v)
         (elements (xml_kids t)) (v0\<lparr>bindXMLName := n\<rparr>))"

text \<open>
  The field \<^verbatim>\<open>Optional *struct{}\<close> has no tag, so it stands for a child element named
  \<^verbatim>\<open>Optional\<close>: names are compared exactly.
\<close>

definition decode_stream_session :: "stream_session \<Rightarrow> xml \<Rightarrow> error + stream_session" where
  "decode_stream_session v0 t =
     bind_result (expect_name ''urn:ietf:params:xml:ns:xmpp-session'' ''session'' t) (\<lambda>n.
       fold_result (\<lambda>k v.
           let l = nLocal (elem_name k) in
           if l = ''Optional'' then Inr (v\<lparr>ssOptional := True\<rparr>)
           else if l = ''set'' then bind_result (decode_set_field (ssResultSet v) k) (\<lambda>s. Inr (v\<lparr>ssResultSet := s\<rparr>))
           else Inr v)
         (elements (xml_kids t)) (v0\<lparr>ssXMLName := n\<rparr>))"

definition StreamSession_IsOptional :: "stream_session \<Rightarrow> bool" where
  "StreamSession_IsOptional s = (if nLocal (ssXMLName s) = ''session'' then ssOptional s else True)"

text \<open>\<^verbatim>\<open>IQPayload.Namespace\<close>: the name space of the payload's \<^verbatim>\<open>XMLName\<close>.\<close>

fun payload_Namespace :: "payload \<Rightarrow> string" where
  "payload_Namespace (PBind b) = nSpace (bindXMLName b)"
| "payload_Namespace (PStreamSession s) = nSpace (ssXMLName s)"
| "payload_Namespace (PForm f) = []"
| "payload_Namespace (PPubSub p) = nSpace (psXMLName p)"
| "payload_Namespace (PPubSubOwner p) = nSpace (poXMLName p)"
| "payload_Namespace (PPubSubEvent p) = nSpace (peXMLName p)"
| "payload_Namespace (PCommand c) = nSpace (cmXMLName c)"
| "payload_Namespace (PDiscoInfo d) = nSpace (diXMLName d)"
| "payload_Namespace (PDiscoItems d) = nSpace (dtXMLName d)"
| "payload_Namespace (PRoster r) = nSpace (roXMLName r)"
| "payload_Namespace (PRosterItems r) = nSpace (risXMLName r)"
| "payload_Namespace (PVersion v) = nSpace (veXMLName v)"
| "payload_Namespace (PControlSet c) = nSpace (csXMLName c)"
| "payload_Namespace (PMsgExt e) = []"
| "payload_Namespace (PExt ty t) = nSpace (elem_name t)"

record codec =
  cdcRegistry :: registry
  cdcIsIQPayload :: "gotype \<Rightarrow> bool"
  cdcDecode :: "gotype \<Rightarrow> xname \<Rightarrow> xattr list \<Rightarrow> decoder \<Rightarrow> error + payload \<times> decoder"

definition codec_forward :: "codec \<Rightarrow> bool" where
  "codec_forward cdc \<longleftrightarrow> (\<forall>ty. forward (cdcDecode cdc ty))"

text \<open>
  The codec of the package itself, with the types that are modelled; the fields of the other
  types are not converted. Three types have decoders of their own, which read from the stream.
\<close>

definition payload_of :: "gotype \<Rightarrow> xml \<Rightarrow> error + payload" where
  "payload_of ty t =
     (if ty = ''Bind'' then bind_result (decode_bind zero_bind t) (\<lambda>b. Inr (PBind b))
      else if ty = ''StreamSession'' then bind_result (decode_stream_session zero_stream_session t) (\<lambda>s. Inr (PStreamSession s))
      else if ty = ''PubSubGeneric'' then bind_result (decode_pubsub zero_pubsub t) (\<lambda>p. Inr (PPubSub p))
      else if ty = ''PubSubOwner'' then bind_result (owner_of t) (\<lambda>p. Inr (PPubSubOwner p))
      else if ty = ''PubSubEvent'' then bind_result (event_of t) (\<lambda>p. Inr (PPubSubEvent p))
      else if ty = ''Command'' then bind_result (command_of t) (\<lambda>c. Inr (PCommand c))
      else if ty = ''DiscoInfo'' then bind_result (decode_disco_info zero_disco_info t) (\<lambda>d. Inr (PDiscoInfo d))
      else if ty = ''DiscoItems'' then bind_result (decode_disco_items zero_disco_items t) (\<lambda>d. Inr (PDiscoItems d))
      else if ty = ''RosterItems'' then bind_result (decode_roster_items zero_roster_items t) (\<lambda>r. Inr (PRosterItems r))
      else if ty = ''Version'' then bind_result (decode_version zero_version t) (\<lambda>v. Inr (PVersion v))
      else if ty = ''ControlSet'' then bind_result (decode_control_set zero_control_set t) (\<lambda>c. Inr (PControlSet c))
      else
        (case map_of extension_decoders ty of
           Some dec \<Rightarrow> bind_result (dec t) (\<lambda>e. Inr (PMsgExt e))
         | None \<Rightarrow> Inr (PExt ty t)))"

definition decode_payload :: "gotype \<Rightarrow> xname \<Rightarrow> xattr list \<Rightarrow> decoder \<Rightarrow> error + payload \<times> decoder" where
  "decode_payload ty n at d =
     (if ty = ''PubSubOwner'' then bind_result (DecodePubSubOwner n at d) (\<lambda>(p, d'). Inr (PPubSubOwner p, d'))
      else if ty = ''PubSubEvent'' then bind_result (DecodePubSubEvent n at d) (\<lambda>(p, d'). Inr (PPubSubEvent p, d'))
      else if ty = ''Command'' then bind_result (DecodeCommand n at d) (\<lambda>(c, d'). Inr (PCommand c, d'))
      else decode_struct (payload_of ty) n at d)"

definition package_codec :: codec where
  "package_codec = \<lparr>cdcRegistry = TypeRegistry, cdcIsIQPayload = (\<lambda>_. True), cdcDecode = decode_payload\<rparr>"

lemma forward_wrap: "forward dec \<Longrightarrow> forward (\<lambda>n at d. bind_result (dec n at d) (\<lambda>(v, d'). Inr (C v, d')))"
  by (fastforce simp: forward_def bind_result_Inr_iff)

lemma forward_decode_payload: "forward (decode_payload ty)"
proof -
  consider "ty = ''PubSubOwner''" | "ty = ''PubSubEvent''" | "ty = ''Command''"
    | "ty \<notin> {''PubSubOwner'', ''PubSubEvent'', ''Command''}" by blast
  then show ?thesis
    by cases (simp_all add: decode_payload_def [abs_def] forward_wrap forward_owner forward_event forward_command forward_decode_struct)
qed

lemma codec_forward_package: "codec_forward package_codec"
  by (simp add: codec_forward_def package_codec_def forward_decode_payload)

lemma wrap_tree:
  "bind_result (with_decoder d r) (\<lambda>(v, d'). Inr (C v, d')) = with_decoder d (bind_result r (\<lambda>v. Inr (C v)))"
  by (cases r) simp_all

lemma decode_payload_tree:
  "decode_payload ty n at (inside kids n rest stk d) = with_decoder (after rest stk d) (payload_of ty (Elem n at kids))"
proof -
  consider "ty = ''PubSubOwner''" | "ty = ''PubSubEvent''" | "ty = ''Command''"
    | "ty \<notin> {''PubSubOwner'', ''PubSubEvent'', ''Command''}" by blast
  then show ?thesis
    by cases (simp_all add: decode_payload_def DecodePubSubOwner_tree DecodePubSubEvent_tree DecodeCommand_tree
        decode_struct_tree wrap_tree payload_of_def)
qed

lemma child_payload:
  "decode_child (decode_payload ty) upd n at s (inside kids n rest stk d) =
     with_decoder (after rest stk d) (bind_result (payload_of ty (Elem n at kids)) (\<lambda>v. Inr (upd v s)))"
  by (simp add: decode_child_def decode_payload_tree with_decoder_def bind_assoc)

subsection \<open>Attributes\<close>

record attrs =
  aType :: string
  aId :: string
  aFrom :: string
  aTo :: string
  aLang :: string

definition zero_attrs :: attrs where
  "zero_attrs = \<lparr>aType = [], aId = [], aFrom = [], aTo = [], aLang = []\<rparr>"

definition StanzaType_IsEmpty :: "string \<Rightarrow> bool" where
  "StanzaType_IsEmpty s = TrimSpace_is_empty s"

definition IQ_attr :: "xattr \<Rightarrow> attrs \<Rightarrow> attrs" where
  "IQ_attr attr a =
     (let l = nLocal (fst attr); v = snd attr in
      if l = ''id'' then a\<lparr>aId := v\<rparr>
      else if l = ''type'' then a\<lparr>aType := v\<rparr>
      else if l = ''to'' then a\<lparr>aTo := v\<rparr>
      else if l = ''from'' then a\<lparr>aFrom := v\<rparr>
      else a)"

definition stanza_attr :: "xattr \<Rightarrow> attrs \<Rightarrow> attrs" where
  "stanza_attr attr a =
     (if nLocal (fst attr) = ''lang'' then a\<lparr>aLang := snd attr\<rparr> else IQ_attr attr a)"

subsection \<open>IQ\<close>

record iq =
  iqXMLName :: xname
  iqAttrs :: attrs
  iqPayload :: "payload option"
  iqError :: "err option"
  iqAny :: "node option"

definition zero_iq :: iq where
  "zero_iq = \<lparr>iqXMLName = XName [] [], iqAttrs = zero_attrs, iqPayload = None, iqError = None, iqAny = None\<rparr>"

definition IqTypeUnset :: error where
  "IqTypeUnset = Err ''iq type is not set but is mandatory''"

definition IqIDUnset :: error where
  "IqIDUnset = Err ''iq stanza ID is not set but is mandatory''"

definition IqSGetNoPl :: error where
  "IqSGetNoPl = Err ''iq is of type get or set but has no payload''"

definition IqResNoPl :: error where
  "IqResNoPl = Err ''iq is of type result but has no payload''"

definition IqErrNoErrPl :: error where
  "IqErrNoErrPl = Err ''iq is of type error but has no error payload''"

text \<open>\<open>uuid\<close> is the outcome of \<^verbatim>\<open>uuid.NewRandom()\<close>, as text.\<close>

definition NewIQ :: "error + string \<Rightarrow> attrs \<Rightarrow> error + iq" where
  "NewIQ uuid a =
     (let a1 = (if aId a = [] then (case uuid of Inr i \<Rightarrow> a\<lparr>aId := i\<rparr> | Inl _ \<Rightarrow> a) else a);
          iq = zero_iq\<lparr>iqXMLName := XName [] ''iq'', iqAttrs := a1\<rparr> in
      if StanzaType_IsEmpty (aType a1) then Inl IqTypeUnset else Inr iq)"

definition IQ_MakeError :: "err \<Rightarrow> iq \<Rightarrow> iq" where
  "IQ_MakeError xerror iq =
     (let from = aFrom (iqAttrs iq); to = aTo (iqAttrs iq) in
      iq\<lparr>iqAttrs := (iqAttrs iq)\<lparr>aType := ''error'', aFrom := to, aTo := from\<rparr>, iqError := Some xerror\<rparr>)"

definition IQ_IsValid :: "iq \<Rightarrow> bool \<times> error option" where
  "IQ_IsValid iq =
     (let t = aType (iqAttrs iq) in
      if TrimSpace_is_empty (aId (iqAttrs iq)) then (False, Some IqIDUnset)
      else if StanzaType_IsEmpty t then (False, Some IqTypeUnset)
      else if (t = ''get'' \<or> t = ''set'') \<and> iqPayload iq = None \<and> iqAny iq = None then (False, Some IqSGetNoPl)
      else if t = ''result'' \<and> iqPayload iq \<noteq> None \<and> iqAny iq \<noteq> None then (False, Some IqResNoPl)
      else if t = ''error'' \<and> iqError iq = None then (False, Some IqErrNoErrPl)
      else (True, None))"

definition IQ_start :: "xname \<Rightarrow> xattr list \<Rightarrow> iq" where
  "IQ_start name at = zero_iq\<lparr>iqXMLName := name, iqAttrs := fold IQ_attr at zero_attrs\<rparr>"

definition IQ_child :: "codec \<Rightarrow> iq elem_handler" where
  "IQ_child cdc n at iq d =
     (if nLocal n = ''error'' then
        decode_child (DecodeErr zero_err) (\<lambda>e iq. iq\<lparr>iqError := Some e\<rparr>) n at iq d
      else
        (case GetIQExtension (cdcIsIQPayload cdc) n (cdcRegistry cdc) of
           Some ty \<Rightarrow> decode_child (cdcDecode cdc ty) (\<lambda>p iq. iq\<lparr>iqPayload := Some p\<rparr>) n at iq d
         | None \<Rightarrow> decode_child DecodeNode (\<lambda>node iq. iq\<lparr>iqAny := Some node\<rparr>) n at iq d))"

definition IQ_UnmarshalXML :: "codec \<Rightarrow> xname \<Rightarrow> xattr list \<Rightarrow> decoder \<Rightarrow> error + iq \<times> decoder" where
  "IQ_UnmarshalXML cdc = elem_unmarshal IQ_start (IQ_child cdc)"

definition DecodeIQ :: "codec \<Rightarrow> xname \<Rightarrow> xattr list \<Rightarrow> decoder \<Rightarrow> error + iq \<times> decoder" where
  "DecodeIQ cdc = unmarshalInterface ''*stanza.IQ'' (IQ_UnmarshalXML cdc)"

subsection \<open>Message\<close>

record message =
  msgXMLName :: xname
  msgAttrs :: attrs
  msgSubject :: string
  msgBody :: string
  msgThread :: string
  msgError :: err
  msgExtensions :: "payload list"

definition zero_message :: message where
  "zero_message = \<lparr>msgXMLName = XName [] [], msgAttrs = zero_attrs, msgSubject = [], msgBody = [],
     msgThread = [], msgError = zero_err, msgExtensions = []\<rparr>"

definition NewMessage :: "attrs \<Rightarrow> message" where
  "NewMessage a = zero_message\<lparr>msgXMLName := XName [] ''message'', msgAttrs := a\<rparr>"

definition Message_start :: "xname \<Rightarrow> xattr list \<Rightarrow> message" where
  "Message_start name at = zero_message\<lparr>msgXMLName := name, msgAttrs := fold stanza_attr at zero_attrs\<rparr>"

definition Message_child :: "codec \<Rightarrow> message elem_handler" where
  "Message_child cdc n at m d =
     (case GetMsgExtension n (cdcRegistry cdc) of
        Some ty \<Rightarrow> decode_child (cdcDecode cdc ty) (\<lambda>p m. m\<lparr>msgExtensions := msgExtensions m @ [p]\<rparr>) n at m d
      | None \<Rightarrow>
          if nLocal n = ''body'' then decode_child (decode_struct decode_string) (\<lambda>s m. m\<lparr>msgBody := s\<rparr>) n at m d
          else if nLocal n = ''thread'' then decode_child (decode_struct decode_string) (\<lambda>s m. m\<lparr>msgThread := s\<rparr>) n at m d
          else if nLocal n = ''subject'' then decode_child (decode_struct decode_string) (\<lambda>s m. m\<lparr>msgSubject := s\<rparr>) n at m d
          else if nLocal n = ''error'' then decode_child (DecodeErr (msgError m)) (\<lambda>e m. m\<lparr>msgError := e\<rparr>) n at m d
          else Inr (m, d))"

definition Message_UnmarshalXML :: "codec \<Rightarrow> xname \<Rightarrow> xattr list \<Rightarrow> decoder \<Rightarrow> error + message \<times> decoder" where
  "Message_UnmarshalXML cdc = elem_unmarshal Message_start (Message_child cdc)"

definition DecodeMessage :: "codec \<Rightarrow> xname \<Rightarrow> xattr list \<Rightarrow> decoder \<Rightarrow> error + message \<times> decoder" where
  "DecodeMessage cdc = unmarshalInterface ''*stanza.Message'' (Message_UnmarshalXML cdc)"

subsection \<open>Presence\<close>

record presence =
  presXMLName :: xname
  presAttrs :: attrs
  presShow :: string
  presStatus :: string
  presPriority :: int
  presError :: err
  presExtensions :: "payload list"

definition zero_presence :: presence where
  "zero_presence = \<lparr>presXMLName = XName [] [], presAttrs = zero_attrs, presShow = [], presStatus = [],
     presPriority = 0, presError = zero_err, presExtensions = []\<rparr>"

definition NewPresence :: "attrs \<Rightarrow> presence" where
  "NewPresence a = zero_presence\<lparr>presXMLName := XName [] ''presence'', presAttrs := a\<rparr>"

definition Presence_start :: "xname \<Rightarrow> xattr list \<Rightarrow> presence" where
  "Presence_start name at = zero_presence\<lparr>presXMLName := name, presAttrs := fold stanza_attr at zero_attrs\<rparr>"

definition decode_int8 :: "xml \<Rightarrow> error + int" where
  "decode_int8 t = xml_int 8 (elem_text t)"

definition Presence_child :: "codec \<Rightarrow> presence elem_handler" where
  "Presence_child cdc n at p d =
     (case GetPresExtension n (cdcRegistry cdc) of
        Some ty \<Rightarrow> decode_child (cdcDecode cdc ty) (\<lambda>x p. p\<lparr>presExtensions := presExtensions p @ [x]\<rparr>) n at p d
      | None \<Rightarrow>
          if nLocal n = ''show'' then decode_child (decode_struct decode_string) (\<lambda>s p. p\<lparr>presShow := s\<rparr>) n at p d
          else if nLocal n = ''status'' then decode_child (decode_struct decode_string) (\<lambda>s p. p\<lparr>presStatus := s\<rparr>) n at p d
          else if nLocal n = ''priority'' then decode_child (decode_struct decode_int8) (\<lambda>i p. p\<lparr>presPriority := i\<rparr>) n at p d
          else if nLocal n = ''error'' then decode_child (DecodeErr (presError p)) (\<lambda>e p. p\<lparr>presError := e\<rparr>) n at p d
          else Inr (p, d))"

definition Presence_UnmarshalXML :: "codec \<Rightarrow> xname \<Rightarrow> xattr list \<Rightarrow> decoder \<Rightarrow> error + presence \<times> decoder" where
  "Presence_UnmarshalXML cdc = elem_unmarshal Presence_start (Presence_child cdc)"

definition DecodePresence :: "codec \<Rightarrow> xname \<Rightarrow> xattr list \<Rightarrow> decoder \<Rightarrow> error + presence \<times> decoder" where
  "DecodePresence cdc = unmarshalInterface ''*stanza.Presence'' (Presence_UnmarshalXML cdc)"

lemma forward_stanzas: "forward (DecodeIQ cdc)" "forward (DecodeMessage cdc)" "forward (DecodePresence cdc)"
  unfolding DecodeIQ_def IQ_UnmarshalXML_def DecodeMessage_def Message_UnmarshalXML_def
    DecodePresence_def Presence_UnmarshalXML_def
  by (rule forward_unmarshalInterface [OF forward_elem_unmarshal])+

text \<open>The handlers only read forward, so the loops are those of the source.\<close>

lemma forward_handlers:
  assumes "codec_forward cdc"
  shows "forward_handler (IQ_child cdc)" "forward_handler (Message_child cdc)" "forward_handler (Presence_child cdc)"
proof -
  have f: "forward (cdcDecode cdc ty)" for ty using assms by (simp add: codec_forward_def)
  note le = decode_child_le [OF f] decode_child_le [OF forward_DecodeErr] decode_child_le [OF forward_DecodeNode]
    decode_child_le [OF forward_decode_struct]
  show "forward_handler (IQ_child cdc)"
    by (rule forward_handlerI) (auto simp: IQ_child_def split: if_splits option.splits dest: le)
  show "forward_handler (Message_child cdc)"
    by (rule forward_handlerI) (auto simp: Message_child_def split: if_splits option.splits dest: le)
  show "forward_handler (Presence_child cdc)"
    by (rule forward_handlerI) (auto simp: Presence_child_def split: if_splits option.splits dest: le)
qed

subsection \<open>Building IQs\<close>

text \<open>
  \<^verbatim>\<open>NewIQ\<close> fails exactly on an empty type. Otherwise the IQ has the attributes asked for,
  with a fresh identifier in place of a missing one; with a payload of its own it is valid when
  the identifier is not blank and it is a request, and so is any error reply made from it.
\<close>

theorem NewIQ_spec:
  "case NewIQ uuid a of
     Inl e \<Rightarrow> StanzaType_IsEmpty (aType a) \<and> e = IqTypeUnset
   | Inr iq \<Rightarrow>
       \<not> StanzaType_IsEmpty (aType a)
       \<and> iqAttrs iq = (case (aId a, uuid) of ([], Inr i) \<Rightarrow> a\<lparr>aId := i\<rparr> | _ \<Rightarrow> a)
       \<and> IQ_IsValid (iq\<lparr>iqPayload := Some p\<rparr>) =
           (if TrimSpace_is_empty (aId (iqAttrs iq)) then (False, Some IqIDUnset)
            else if aType a = ''error'' then (False, Some IqErrNoErrPl) else (True, None))
       \<and> fst (IQ_IsValid (IQ_MakeError x iq)) = (\<not> TrimSpace_is_empty (aId (iqAttrs iq)))"
proof -
  have "\<not> TrimSpace_is_empty ''error''"
    by (simp add: TrimSpace_is_empty_def runes_ascii is_ascii_def IsSpace_def)
  then show ?thesis
    by (auto simp: NewIQ_def Let_def zero_iq_def IQ_IsValid_def IQ_MakeError_def StanzaType_IsEmpty_def
        split: sum.splits list.splits)
qed

text \<open>
  An error reply goes back: it keeps the identifier and the payload, exchanges sender and
  recipient, and making it twice restores the addresses. It is a valid IQ exactly when the
  identifier is not blank.
\<close>

theorem IQ_MakeError_spec:
  "aFrom (iqAttrs (IQ_MakeError e i)) = aTo (iqAttrs i)
   \<and> aTo (iqAttrs (IQ_MakeError e i)) = aFrom (iqAttrs i)
   \<and> aId (iqAttrs (IQ_MakeError e i)) = aId (iqAttrs i)
   \<and> aType (iqAttrs (IQ_MakeError e i)) = ''error''
   \<and> iqError (IQ_MakeError e i) = Some e
   \<and> iqPayload (IQ_MakeError e i) = iqPayload i
   \<and> IQ_MakeError e (IQ_MakeError e' i) = i\<lparr>iqAttrs := (iqAttrs i)\<lparr>aType := ''error''\<rparr>, iqError := Some e\<rparr>
   \<and> fst (IQ_IsValid (IQ_MakeError e i)) = (\<not> TrimSpace_is_empty (aId (iqAttrs i)))"
proof -
  have "\<not> TrimSpace_is_empty ''error''"
    by (simp add: TrimSpace_is_empty_def runes_ascii is_ascii_def IsSpace_def)
  then show ?thesis
    by (simp add: IQ_MakeError_def IQ_IsValid_def StanzaType_IsEmpty_def Let_def)
qed

subsection \<open>Decoding complete stanzas\<close>

text \<open>
  The decoders as functions of the element's tree, for the package's codec: one step for
  each child element.
\<close>

definition IQ_step :: "xml \<Rightarrow> iq \<Rightarrow> error + iq" where
  "IQ_step t i =
     (if nLocal (elem_name t) = ''error''
      then bind_result (err_of zero_err t) (\<lambda>e. Inr (i\<lparr>iqError := Some e\<rparr>))
      else
        (case GetExtensionType PKTIQ (elem_name t) TypeRegistry of
           Some ty \<Rightarrow> bind_result (payload_of ty t) (\<lambda>p. Inr (i\<lparr>iqPayload := Some p\<rparr>))
         | None \<Rightarrow> bind_result (node_of 1 t) (\<lambda>node. Inr (i\<lparr>iqAny := Some node\<rparr>))))"

definition Message_known :: "xname \<Rightarrow> bool" where
  "Message_known n \<longleftrightarrow>
     GetExtensionType PKTMessage n TypeRegistry \<noteq> None
     \<or> nLocal n \<in> {''body'', ''thread'', ''subject'', ''error''}"

definition Message_step :: "xml \<Rightarrow> message \<Rightarrow> error + message" where
  "Message_step t m =
     (case GetExtensionType PKTMessage (elem_name t) TypeRegistry of
        Some ty \<Rightarrow> bind_result (payload_of ty t) (\<lambda>p. Inr (m\<lparr>msgExtensions := msgExtensions m @ [p]\<rparr>))
      | None \<Rightarrow>
          let l = nLocal (elem_name t) in
          if l = ''body'' then Inr (m\<lparr>msgBody := elem_text t\<rparr>)
          else if l = ''thread'' then Inr (m\<lparr>msgThread := elem_text t\<rparr>)
          else if l = ''subject'' then Inr (m\<lparr>msgSubject := elem_text t\<rparr>)
          else bind_result (err_of (msgError m) t) (\<lambda>e. Inr (m\<lparr>msgError := e\<rparr>)))"

definition Presence_known :: "xname \<Rightarrow> bool" where
  "Presence_known n \<longleftrightarrow>
     GetExtensionType PKTPresence n TypeRegistry \<noteq> None
     \<or> nLocal n \<in> {''show'', ''status'', ''priority'', ''error''}"

definition Presence_step :: "xml \<Rightarrow> presence \<Rightarrow> error + presence" where
  "Presence_step t p =
     (case GetExtensionType PKTPresence (elem_name t) TypeRegistry of
        Some ty \<Rightarrow> bind_result (payload_of ty t) (\<lambda>x. Inr (p\<lparr>presExtensions := presExtensions p @ [x]\<rparr>))
      | None \<Rightarrow>
          let l = nLocal (elem_name t) in
          if l = ''show'' then Inr (p\<lparr>presShow := elem_text t\<rparr>)
          else if l = ''status'' then Inr (p\<lparr>presStatus := elem_text t\<rparr>)
          else if l = ''priority'' then bind_result (decode_int8 t) (\<lambda>i. Inr (p\<lparr>presPriority := i\<rparr>))
          else bind_result (err_of (presError p) t) (\<lambda>e. Inr (p\<lparr>presError := e\<rparr>)))"

lemma package_codec_simps [simp]:
  "cdcRegistry package_codec = TypeRegistry" "cdcIsIQPayload package_codec ty"
  "cdcDecode package_codec ty = decode_payload ty"
  by (simp_all add: package_codec_def)

lemma GetIQExtension_package [simp]:
  "GetIQExtension (cdcIsIQPayload package_codec) n TypeRegistry = GetExtensionType PKTIQ n TypeRegistry"
  by (simp add: GetIQExtension_def split: option.split)

lemma exact_IQ_child: "exact_on (IQ_child package_codec) IQ_step t"
proof (cases t)
  case (Elem n at kids)
  show ?thesis
    by (simp add: Elem exact_on_def IQ_child_def IQ_step_def child_steps child_payload split: option.split del: node_of.simps)
qed (simp add: exact_on_def)

lemma passes_Message_child: "passes (Message_child package_codec) Message_known Message_step"
  unfolding passes_def
proof (intro conjI allI impI)
  fix n at kids
  assume "Message_known n"
  then show "exact_on (Message_child package_codec) Message_step (Elem n at kids)"
    by (auto simp: child_steps child_payload exact_on_def Message_child_def Message_step_def Message_known_def GetMsgExtension_def
        decode_string_def elem_text_def split: option.split)
next
  fix n at s d
  assume "\<not> Message_known n"
  then show "Message_child package_codec n at s d = Inr (s, d)"
    by (simp add: Message_child_def Message_known_def GetMsgExtension_def)
qed

lemma passes_Presence_child: "passes (Presence_child package_codec) Presence_known Presence_step"
  unfolding passes_def
proof (intro conjI allI impI)
  fix n at kids
  assume "Presence_known n"
  then show "exact_on (Presence_child package_codec) Presence_step (Elem n at kids)"
    by (auto simp: child_steps child_payload exact_on_def Presence_child_def Presence_step_def Presence_known_def GetPresExtension_def
        decode_string_def elem_text_def split: option.split)
next
  fix n at s d
  assume "\<not> Presence_known n"
  then show "Presence_child package_codec n at s d = Inr (s, d)"
    by (simp add: Presence_child_def Presence_known_def GetPresExtension_def)
qed

text \<open>
  C33. Decoding the tokens of a complete IQ element computes the same as going through the
  element's tree child by child, fails exactly when a child fails, and leaves the decoder right
  after the element.
\<close>

theorem DecodeIQ_tree:
  "DecodeIQ package_codec n at (inside kids n rest stk d) =
     with_decoder (after rest stk d) (fold_result IQ_step (elements kids) (IQ_start n at))"
  unfolding DecodeIQ_def IQ_UnmarshalXML_def
  by (rule unmarshalInterface_tree) (rule exact_IQ_child)

text \<open>
  A message is decoded through unknown children: the result is that of the known elements
  (body, subject, thread, error, registered extensions) found at any depth below unknown ones,
  as if they stood in the message itself, provided that no unknown element there has the name of
  the message. Otherwise decoding the message fails.
\<close>

theorem DecodeMessage_tree:
  "(if avoids Message_known n kids
    then DecodeMessage package_codec n at (inside kids n rest stk d) =
           with_decoder (after rest stk d) (fold_result Message_step (spliced Message_known kids) (Message_start n at))
    else \<exists>e. DecodeMessage package_codec n at (inside kids n rest stk d) = Inl e)"
  unfolding DecodeMessage_def Message_UnmarshalXML_def
  using unmarshalInterface_spliced [OF passes_Message_child]
    unmarshalInterface_stops_inside [OF passes_Message_child]
  by simp

text \<open>The same for a presence with its elements show, status, priority and error.\<close>

theorem DecodePresence_tree:
  "(if avoids Presence_known n kids
    then DecodePresence package_codec n at (inside kids n rest stk d) =
           with_decoder (after rest stk d) (fold_result Presence_step (spliced Presence_known kids) (Presence_start n at))
    else \<exists>e. DecodePresence package_codec n at (inside kids n rest stk d) = Inl e)"
  unfolding DecodePresence_def Presence_UnmarshalXML_def
  using unmarshalInterface_spliced [OF passes_Presence_child]
    unmarshalInterface_stops_inside [OF passes_Presence_child]
  by simp


text \<open>
  The body of a message can come from inside an element that the library does not know: a
  child of another name space replaces the body of the message itself.
\<close>

theorem Message_body_injected:
  assumes "GetExtensionType PKTMessage (XName sp l) TypeRegistry = None"
    and "l \<notin> {''body'', ''thread'', ''subject'', ''error''}" "XName sp l \<noteq> n"
    and "GetExtensionType PKTMessage (XName sp' ''body'') TypeRegistry = None"
    and "GetExtensionType PKTMessage (XName (nSpace n) ''body'') TypeRegistry = None"
  shows "\<exists>m d'. DecodeMessage package_codec n at
      (inside [Elem (XName (nSpace n) ''body'') [] [Text own],
               Elem (XName sp l) [] [Elem (XName sp' ''body'') [] [Text other]]] n rest stk d) = Inr (m, d')
    \<and> msgBody m = other"
proof -
  have k: "\<not> Message_known (XName sp l)" "Message_known (XName s ''body'')" for s
    using assms(1,2) by (simp_all add: Message_known_def)
  let ?kids = "[Elem (XName (nSpace n) ''body'') [] [Text own],
               Elem (XName sp l) [] [Elem (XName sp' ''body'') [] [Text other]]]"
  have "avoids Message_known n ?kids" using assms(3) by (simp add: k)
  then show ?thesis
    unfolding DecodeMessage_def Message_UnmarshalXML_def
    using assms(4,5)
    by (simp add: unmarshalInterface_spliced [OF passes_Message_child] k Message_step_def elem_text_def
        Message_start_def)
qed

text \<open>
  A message that carries another message inside an unknown element, as message carbons and
  forwarded messages do, cannot be decoded.
\<close>

theorem Message_carbon_fails:
  assumes "GetExtensionType PKTMessage (XName sp l) TypeRegistry = None"
    and "l \<notin> {''body'', ''thread'', ''subject'', ''error''}"
    and "GetExtensionType PKTMessage n TypeRegistry = None" "nLocal n = ''message''"
  shows "\<exists>e. DecodeMessage package_codec n at (inside [Elem (XName sp l) at1 [Elem n at2 inner]] n rest stk d) = Inl e"
proof -
  have "\<not> avoids Message_known n [Elem (XName sp l) at1 [Elem n at2 inner]]"
    using assms by (auto simp: Message_known_def)
  then show ?thesis
    unfolding DecodeMessage_def Message_UnmarshalXML_def
    by (rule unmarshalInterface_stops_inside [OF passes_Message_child])
qed

lemmas registration_simps = GetExtensionType_package registration_of_def package_registrations_def init_defs

theorem Message_body_injected_witness:
  "\<exists>m d'. DecodeMessage package_codec (XName ''jabber:client'' ''message'') []
      (inside [Elem (XName ''jabber:client'' ''body'') [] [Text ''hello''],
               Elem (XName ''urn:x'' ''data'') [] [Elem (XName ''urn:x'' ''body'') [] [Text ''other'']]]
        (XName ''jabber:client'' ''message'') [] [] (new_decoder [])) = Inr (m, d')
    \<and> msgBody m = ''other''"
  using Message_body_injected [of "''urn:x''" "''data''" "XName ''jabber:client'' ''message''" "''urn:x''"
      "[]" "''hello''" "''other''" "[]" "[]" "new_decoder []"]
  by (simp add: registration_simps)

theorem Message_carbon_fails_witness:
  "\<exists>e. DecodeMessage package_codec (XName ''jabber:client'' ''message'') []
      (inside [Elem (XName ''urn:xmpp:carbons:2'' ''sent'') [] [Elem (XName ''jabber:client'' ''message'') [] []]]
        (XName ''jabber:client'' ''message'') [] [] (new_decoder [])) = Inl e"
  using Message_carbon_fails [of "''urn:xmpp:carbons:2''" "''sent''" "XName ''jabber:client'' ''message''"
      "[]" "[]" "[]" "[]" "[]" "[]" "new_decoder []"]
  by (simp add: registration_simps)

subsection \<open>The session feature\<close>

text \<open>
  The flag \<^verbatim>\<open>optional\<close> of the session feature (RFC 3921) is never seen: whatever the feature
  holds, if it decodes and no child is called \<^verbatim>\<open>Optional\<close> with a capital letter, the session is
  taken to be mandatory.
\<close>

theorem StreamSession_optional_missed:
  assumes "decode_stream_session zero_stream_session t = Inr s"
    and "list_all (\<lambda>k. nLocal (elem_name k) \<noteq> ''Optional'') (elements (xml_kids t))"
  shows "\<not> StreamSession_IsOptional s"
proof -
  let ?step = "\<lambda>k v.
           let l = nLocal (elem_name k) in
           if l = ''Optional'' then Inr (v\<lparr>ssOptional := True\<rparr>)
           else if l = ''set'' then bind_result (decode_set_field (ssResultSet v) k) (\<lambda>s. Inr (v\<lparr>ssResultSet := s\<rparr>))
           else Inr v"
  obtain n where n: "expect_name ''urn:ietf:params:xml:ns:xmpp-session'' ''session'' t = Inr n"
    and f: "fold_result ?step (elements (xml_kids t)) (zero_stream_session\<lparr>ssXMLName := n\<rparr>) = Inr s"
    using assms(1) by (auto simp: decode_stream_session_def bind_result_Inr_iff)
  have "nLocal n = ''session''" using n by (auto simp: expect_name_def Let_def split: if_splits)
  then have "\<not> ssOptional s \<and> nLocal (ssXMLName s) = ''session''"
    using assms(2)
    by (intro fold_result_invariant [OF f, where P = "\<lambda>v. \<not> ssOptional v \<and> nLocal (ssXMLName v) = ''session''"])
      (auto simp: zero_stream_session_def bind_result_Inr_iff Let_def list_all_iff split: if_splits)
  then show ?thesis by (simp add: StreamSession_IsOptional_def)
qed

definition session_feature :: xml where
  "session_feature = Elem (XName ''urn:ietf:params:xml:ns:xmpp-session'' ''session'') []
     [Elem (XName ''urn:ietf:params:xml:ns:xmpp-session'' ''optional'') [] []]"

theorem StreamSession_optional_missed_witness:
  "\<exists>s. decode_stream_session zero_stream_session session_feature = Inr s \<and> \<not> StreamSession_IsOptional s"
proof (intro exI conjI)
  show d: "decode_stream_session zero_stream_session session_feature =
      Inr (zero_stream_session\<lparr>ssXMLName := XName ''urn:ietf:params:xml:ns:xmpp-session'' ''session''\<rparr>)"
    by (simp add: session_feature_def decode_stream_session_def expect_name_def)
  show "\<not> StreamSession_IsOptional
      (zero_stream_session\<lparr>ssXMLName := XName ''urn:ietf:params:xml:ns:xmpp-session'' ''session''\<rparr>)"
    by (rule StreamSession_optional_missed [OF d]) (simp add: session_feature_def)
qed
end
