(* ===== verification/Packets.thy ===== *)
theory Packets
  imports Stanza
begin

text \<open>
  The packets that are not stanzas, and the dispatch on incoming elements:
  \<^verbatim>\<open>stanza/stream_features.go\<close>, \<^verbatim>\<open>stream_management.go\<close> (the nonzas), \<^verbatim>\<open>sasl_auth.go\<close>,
  \<^verbatim>\<open>stanza_errors.go\<close>, \<^verbatim>\<open>component.go\<close> (\<open>Handshake\<close>) and \<^verbatim>\<open>parser.go\<close>.
\<close>

definition NSStream :: string where "NSStream = ''http://etherx.jabber.org/streams''"
definition nsTLS :: string where "nsTLS = ''urn:ietf:params:xml:ns:xmpp-tls''"
definition NSSASL :: string where "NSSASL = ''urn:ietf:params:xml:ns:xmpp-sasl''"
definition NSFraming :: string where "NSFraming = ''urn:ietf:params:xml:ns:xmpp-framing''"
definition NSClient :: string where "NSClient = ''jabber:client''"
definition NSComponent :: string where "NSComponent = ''jabber:component:accept''"
definition NSStreamManagement :: string where "NSStreamManagement = ''urn:xmpp:sm:3''"

lemmas ns_defs = NSStream_def nsTLS_def NSSASL_def NSFraming_def NSClient_def NSComponent_def NSStreamManagement_def

subsection \<open>Stanza error groups\<close>

datatype stanza_error_group =
    BadFormat
  | BadNamespacePrefix | Conflict | ConnectionTimeout | HostGone
  | HostUnknown | ImproperAddressing | InternalServerError | InvalidForm
  | InvalidId | InvalidNamespace | InvalidXML | NotAuthorized
  | NotWellFormed | PolicyViolation | RemoteConnectionFailed | ResourceConstraint
  | RestrictedXML | SeeOtherHost | SystemShutdown | UndefinedCondition
  | UnexpectedRequest | UnsupportedEncoding | UnsupportedStanzaType | UnsupportedVersion
  | XMLNotWellFormed
  | Reset

fun GroupErrorName :: "stanza_error_group \<Rightarrow> string" where
  "GroupErrorName BadFormat = ''bad-format''"
| "GroupErrorName BadNamespacePrefix = ''bad-namespace-prefix''"
| "GroupErrorName Conflict = ''conflict''"
| "GroupErrorName ConnectionTimeout = ''connection-timeout''"
| "GroupErrorName HostGone = ''host-gone''"
| "GroupErrorName HostUnknown = ''host-unknown''"
| "GroupErrorName ImproperAddressing = ''improper-addressing''"
| "GroupErrorName InternalServerError = ''internal-server-error''"
| "GroupErrorName InvalidForm = ''invalid-from''"
| "GroupErrorName InvalidId = ''invalid-id''"
| "GroupErrorName InvalidNamespace = ''invalid-namespace''"
| "GroupErrorName InvalidXML = ''invalid-xml''"
| "GroupErrorName NotAuthorized = ''not-authorized''"
| "GroupErrorName NotWellFormed = ''not-well-formed''"
| "GroupErrorName PolicyViolation = ''policy-violation''"
| "GroupErrorName RemoteConnectionFailed = ''remote-connection-failed''"
| "GroupErrorName ResourceConstraint = ''resource-constraint''"
| "GroupErrorName RestrictedXML = ''restricted-xml''"
| "GroupErrorName SeeOtherHost = ''see-other-host''"
| "GroupErrorName SystemShutdown = ''system-shutdown''"
| "GroupErrorName UndefinedCondition = ''undefined-condition''"
| "GroupErrorName UnexpectedRequest = ''unexpected-request''"
| "GroupErrorName UnsupportedEncoding = ''unsupported-encoding''"
| "GroupErrorName UnsupportedStanzaType = ''unsupported-stanza-type''"
| "GroupErrorName UnsupportedVersion = ''unsupported-version''"
| "GroupErrorName XMLNotWellFormed = ''xml-not-well-formed''"
| "GroupErrorName Reset = ''reset''"

text \<open>The cases of the switch in \<^verbatim>\<open>SMFailed.UnmarshalXML\<close>.\<close>

definition sm_failed_cases :: "(string \<times> stanza_error_group) list" where
  "sm_failed_cases =
     [(''bad-format'', BadFormat),
      (''bad-namespace-prefix'', BadNamespacePrefix),
      (''conflict'', Conflict),
      (''connection-timeout'', ConnectionTimeout),
      (''host-gone'', HostGone),
      (''host-unknown'', HostUnknown),
      (''improper-addressing'', ImproperAddressing),
      (''internal-server-error'', InternalServerError),
      (''invalid-from'', InvalidForm),
      (''invalid-id'', InvalidId),
      (''invalid-namespace'', InvalidNamespace),
      (''invalid-xml'', InvalidXML),
      (''not-authorized'', NotAuthorized),
      (''not-well-formed'', NotWellFormed),
      (''policy-violation'', PolicyViolation),
      (''remote-connection-failed'', RemoteConnectionFailed),
      (''resource-constraint'', ResourceConstraint),
      (''restricted-xml'', RestrictedXML),
      (''see-other-host'', SeeOtherHost),
      (''system-shutdown'', SystemShutdown),
      (''undefined-condition'', UndefinedCondition),
      (''unexpected-request'', UnexpectedRequest),
      (''unsupported-encoding'', UnsupportedEncoding),
      (''unsupported-stanza-type'', UnsupportedStanzaType),
      (''unsupported-version'', UnsupportedVersion),
      (''xml-not-well-formed'', XMLNotWellFormed)]"

text \<open>Every type of the group has an \<^verbatim>\<open>XMLName\<close> field with the stanza name space and its name.\<close>

definition decode_error_group :: "stanza_error_group \<Rightarrow> xml \<Rightarrow> error + stanza_error_group" where
  "decode_error_group g t = bind_result (expect_name NSStanzas (GroupErrorName g) t) (\<lambda>_. Inr g)"

subsection \<open>Stream management\<close>

record sm_enabled =
  smeId :: string
  smeLocation :: string
  smeResume :: string
  smeMax :: gouint

record sm_resumed =
  smrPrevId :: string
  smrH :: "gouint option"

record sm_failed =
  smfH :: "gouint option"
  smfStreamErrorGroup :: "stanza_error_group option"

text \<open>\<^verbatim>\<open>strconv.ParseUint(strings.TrimSpace(s), 10, 64)\<close> for a field of type \<^verbatim>\<open>uint\<close>.\<close>

definition xml_uint :: "string \<Rightarrow> error + gouint" where
  "xml_uint s =
     (if s = [] then Inr 0
      else
        let t = map char_of (trim_left (map of_char s)) :: string;
            core = takeWhile (\<lambda>c. digit_val c \<noteq> None) t;
            rest = dropWhile (\<lambda>c. digit_val c \<noteq> None) t in
        if core = [] \<or> \<not> TrimSpace_is_empty rest then Inl (LibErr ''strconv.ParseUint: parsing: invalid syntax'')
        else
          (case parse_digits 0 core of
             None \<Rightarrow> Inl (LibErr ''strconv.ParseUint: parsing: invalid syntax'')
           | Some n \<Rightarrow> if n < 2 ^ 64 then Inr (word_of_nat n)
               else Inl (LibErr ''strconv.ParseUint: parsing: value out of range'')))"

definition zero_sm_enabled :: sm_enabled where
  "zero_sm_enabled = \<lparr>smeId = [], smeLocation = [], smeResume = [], smeMax = 0\<rparr>"

definition decode_sm_enabled :: "xml \<Rightarrow> error + sm_enabled" where
  "decode_sm_enabled t =
     bind_result (expect_name NSStreamManagement ''enabled'' t) (\<lambda>_.
       fold_result (\<lambda>a v.
           let l = nLocal (fst a) in
           if l = ''id'' then Inr (v\<lparr>smeId := snd a\<rparr>)
           else if l = ''location'' then Inr (v\<lparr>smeLocation := snd a\<rparr>)
           else if l = ''resume'' then Inr (v\<lparr>smeResume := snd a\<rparr>)
           else if l = ''max'' then bind_result (xml_uint (snd a)) (\<lambda>m. Inr (v\<lparr>smeMax := m\<rparr>))
           else Inr v)
         (elem_attrs t) zero_sm_enabled)"

text \<open>\<^verbatim>\<open>SMResumed\<close> and \<^verbatim>\<open>SMResume\<close> have the same fields.\<close>

definition decode_sm_resumed :: "string \<Rightarrow> xml \<Rightarrow> error + sm_resumed" where
  "decode_sm_resumed l t =
     bind_result (expect_name NSStreamManagement l t) (\<lambda>_.
       fold_result (\<lambda>a v.
           if nLocal (fst a) = ''previd'' then Inr (v\<lparr>smrPrevId := snd a\<rparr>)
           else if nLocal (fst a) = ''h'' then bind_result (xml_uint (snd a)) (\<lambda>h. Inr (v\<lparr>smrH := Some h\<rparr>))
           else Inr v)
         (elem_attrs t) \<lparr>smrPrevId = [], smrH = None\<rparr>)"

definition decode_sm_request :: "xml \<Rightarrow> error + unit" where
  "decode_sm_request t = bind_result (expect_name NSStreamManagement ''r'' t) (\<lambda>_. Inr ())"

definition decode_sm_answer :: "xml \<Rightarrow> error + gouint" where
  "decode_sm_answer t =
     bind_result (expect_name NSStreamManagement ''a'' t) (\<lambda>_.
       fold_result (\<lambda>a v. if nLocal (fst a) = ''h'' then xml_uint (snd a) else Inr v) (elem_attrs t) 0)"

definition SMFailed_child :: "sm_failed elem_handler" where
  "SMFailed_child n at s d =
     (case map_of sm_failed_cases (nLocal n) of
        Some g \<Rightarrow>
          decode_child (decode_struct (decode_error_group g)) (\<lambda>g s. s\<lparr>smfStreamErrorGroup := Some g\<rparr>) n at s d
      | None \<Rightarrow> Inl (Err ''error is unknown''))"

definition SMFailed_UnmarshalXML :: "xname \<Rightarrow> xattr list \<Rightarrow> decoder \<Rightarrow> error + sm_failed \<times> decoder" where
  "SMFailed_UnmarshalXML = elem_unmarshal (\<lambda>_ _. \<lparr>smfH = None, smfStreamErrorGroup = None\<rparr>) SMFailed_child"

definition DecodeSMFailed :: "xname \<Rightarrow> xattr list \<Rightarrow> decoder \<Rightarrow> error + sm_failed \<times> decoder" where
  "DecodeSMFailed = unmarshalInterface ''*stanza.SMFailed'' SMFailed_UnmarshalXML"

subsection \<open>Stream features\<close>

record tls_starttls =
  stlsXMLName :: xname
  stlsRequired :: bool

definition TlsStartTLS_child :: "node \<Rightarrow> tls_starttls \<Rightarrow> tls_starttls" where
  "TlsStartTLS_child elt s = (if nLocal (nodeXMLName elt) = ''required'' then s\<lparr>stlsRequired := True\<rparr> else s)"

definition TlsStartTLS_UnmarshalXML ::
  "tls_starttls \<Rightarrow> xname \<Rightarrow> xattr list \<Rightarrow> decoder \<Rightarrow> error + tls_starttls \<times> decoder" where
  "TlsStartTLS_UnmarshalXML v0 =
     elem_unmarshal (\<lambda>n _. v0\<lparr>stlsXMLName := n\<rparr>) (decode_child DecodeNode TlsStartTLS_child)"

definition starttls_of :: "tls_starttls \<Rightarrow> xml \<Rightarrow> error + tls_starttls" where
  "starttls_of v0 t =
     fold_result (\<lambda>k s. bind_result (node_of 1 k) (\<lambda>elt. Inr (TlsStartTLS_child elt s)))
       (elements (xml_kids t)) (v0\<lparr>stlsXMLName := elem_name t\<rparr>)"

lemma TlsStartTLS_tree:
  "unmarshalInterface r (TlsStartTLS_UnmarshalXML v0) n at (inside kids n rest stk d) =
     with_decoder (after rest stk d) (starttls_of v0 (Elem n at kids))"
  unfolding TlsStartTLS_UnmarshalXML_def starttls_of_def
  by (simp add: unmarshalInterface_tree [OF exact_DecodeNode])

text \<open>Entity capabilities.\<close>

record caps =
  cpsXMLName :: xname
  cpsHash :: string
  cpsNode :: string
  cpsVer :: string
  cpsExt :: string

definition zero_caps :: caps where
  "zero_caps = \<lparr>cpsXMLName = XName [] [], cpsHash = [], cpsNode = [], cpsVer = [], cpsExt = []\<rparr>"

definition decode_caps :: "caps \<Rightarrow> xml \<Rightarrow> error + caps" where
  "decode_caps v0 t =
     bind_result (expect_name ''http://jabber.org/protocol/caps'' ''c'' t) (\<lambda>n.
       decode_fields (\<lambda>l v s. Inr (if l = ''hash'' then s\<lparr>cpsHash := v\<rparr> else if l = ''node'' then s\<lparr>cpsNode := v\<rparr>
           else if l = ''ver'' then s\<lparr>cpsVer := v\<rparr> else if l = ''ext'' then s\<lparr>cpsExt := v\<rparr> else s))
         no_child t (v0\<lparr>cpsXMLName := n\<rparr>))"

record stream_features =
  sfCaps :: caps
  sfStartTLS :: tls_starttls
  sfMechanismsName :: xname
  sfMechanism :: "string list"
  sfChannelBindingName :: xname
  sfChannelBinding :: "string list"
  sfBind :: bind
  sfStreamManagement :: xname
  sfSession :: stream_session
  sfP1Push :: xname
  sfP1Rebind :: xname
  sfAny :: "xname list"

definition zero_name :: xname where "zero_name = XName [] []"

definition zero_features :: stream_features where
  "zero_features = \<lparr>sfCaps = zero_caps, sfStartTLS = \<lparr>stlsXMLName = zero_name, stlsRequired = False\<rparr>,
     sfMechanismsName = zero_name, sfMechanism = [], sfChannelBindingName = zero_name, sfChannelBinding = [],
     sfBind = zero_bind, sfStreamManagement = zero_name, sfSession = zero_stream_session,
     sfP1Push = zero_name, sfP1Rebind = zero_name, sfAny = []\<rparr>"

text \<open>
  A field without a tag is matched by the tag of its type's \<^verbatim>\<open>XMLName\<close>; the unexported field
  \<^verbatim>\<open>p1Ack\<close> is not decoded, so that its element counts as unknown.
\<close>

definition StreamFeatures_child :: "xml \<Rightarrow> stream_features \<Rightarrow> error + stream_features" where
  "StreamFeatures_child k v =
     (let n = elem_name k in
      if n = XName ''http://jabber.org/protocol/caps'' ''c'' then bind_result (decode_caps (sfCaps v) k) (\<lambda>c. Inr (v\<lparr>sfCaps := c\<rparr>))
      else if n = XName nsTLS ''starttls'' then
        bind_result (starttls_of (sfStartTLS v) k) (\<lambda>s. Inr (v\<lparr>sfStartTLS := s\<rparr>))
      else if n = XName NSSASL ''mechanisms'' then
        Inr (v\<lparr>sfMechanismsName := n,
          sfMechanism := sfMechanism v
            @ map elem_text (child_elems (\<lambda>m. nLocal m = ''mechanism'') (xml_kids k))\<rparr>)
      else if n = XName ''urn:xmpp:sasl-cb:0'' ''sasl-channel-binding'' then
        Inr (v\<lparr>sfChannelBindingName := n,
          sfChannelBinding := sfChannelBinding v
            @ map (\<lambda>c. attr_of ''type'' (elem_attrs c)) (child_elems (\<lambda>m. nLocal m = ''channel-binding'') (xml_kids k))\<rparr>)
      else if n = XName ''urn:ietf:params:xml:ns:xmpp-bind'' ''bind'' then
        bind_result (decode_bind (sfBind v) k) (\<lambda>b. Inr (v\<lparr>sfBind := b\<rparr>))
      else if n = XName NSStreamManagement ''sm'' then Inr (v\<lparr>sfStreamManagement := n\<rparr>)
      else if n = XName ''urn:ietf:params:xml:ns:xmpp-session'' ''session'' then
        bind_result (decode_stream_session (sfSession v) k) (\<lambda>s. Inr (v\<lparr>sfSession := s\<rparr>))
      else if n = XName ''p1:push'' ''push'' then Inr (v\<lparr>sfP1Push := n\<rparr>)
      else if n = XName ''p1:rebind'' ''rebind'' then Inr (v\<lparr>sfP1Rebind := n\<rparr>)
      else Inr (v\<lparr>sfAny := sfAny v @ [n]\<rparr>))"

definition decode_features :: "stream_features \<Rightarrow> xml \<Rightarrow> error + stream_features" where
  "decode_features v0 t =
     bind_result (expect_name NSStream ''features'' t) (\<lambda>_.
       fold_result StreamFeatures_child (elements (xml_kids t)) v0)"

definition DoesStartTLS :: "stream_features \<Rightarrow> tls_starttls \<times> bool" where
  "DoesStartTLS sf =
     (if nSpace (stlsXMLName (sfStartTLS sf)) @ '' '' @ nLocal (stlsXMLName (sfStartTLS sf)) = nsTLS @ '' starttls''
      then (sfStartTLS sf, True)
      else (\<lparr>stlsXMLName = zero_name, stlsRequired = False\<rparr>, False))"

definition DoesStreamManagement :: "stream_features \<Rightarrow> bool" where
  "DoesStreamManagement sf \<longleftrightarrow>
     nSpace (sfStreamManagement sf) @ '' '' @ nLocal (sfStreamManagement sf) = ''urn:xmpp:sm:3 sm''"

definition ChannelBinding_Types :: "stream_features \<Rightarrow> string list" where
  "ChannelBinding_Types sf = (if nLocal (sfChannelBindingName sf) = [] then [] else sfChannelBinding sf)"
end
