(* ===== verification/Parser.thy ===== *)
theory Parser
  imports Packets
begin

text \<open>
  \<^verbatim>\<open>stanza/parser.go\<close>: opening a stream, scanning for the next element, and decoding it into
  a packet by its name space and name.
\<close>

text \<open>
  The dynamic types of the interface \<^verbatim>\<open>Packet\<close> that \<^verbatim>\<open>NextPacket\<close> returns. The text of a SASL
  success and of a handshake is the character data of the element (the field takes the inner
  XML). \<^verbatim>\<open>SASLFailure.Any\<close> has no tag, so that it is set from a child element with the name \<^verbatim>\<open>Any\<close>
  only, never from the reason that a server gives.
\<close>

datatype packet =
    PktMessage message
  | PktPresence presence
  | PktIQ iq
  | PktStreamFeatures stream_features
  | PktStreamError xname string
  | PktStreamClose
  | PktSASLSuccess string
  | PktSASLFailure xname
  | PktHandshake string
  | PktSMEnabled sm_enabled
  | PktSMResumed sm_resumed
  | PktSMResume sm_resumed
  | PktSMRequest
  | PktSMAnswer gouint
  | PktSMFailed sm_failed

subsection \<open>Scanning\<close>

function InitStream :: "decoder \<Rightarrow> error + string \<times> decoder" where
  "InitStream p =
     (case Token p of
        Inl e \<Rightarrow> Inl e
      | Inr (StartElement n at, p') \<Rightarrow>
          (let isStreamOpen = (nSpace n = NSStream \<and> nLocal n = ''stream'');
               isFrameOpen = (nSpace n = NSFraming \<and> nLocal n = ''open'') in
           if \<not> isStreamOpen \<and> \<not> isFrameOpen
           then Inl (Err (''xmpp: expected <stream> or <open> but got <'' @ nLocal n @ ''> in '' @ nSpace n))
           else Inr (attr_of ''id'' at, p'))
      | Inr (_, p') \<Rightarrow> InitStream p')"
  by pat_completeness auto
termination by (relation "measure (\<lambda>p. length (decInput p))") (auto simp: Token_less)

declare InitStream.simps [simp del]

definition scan_error :: "error \<Rightarrow> error" where
  "scan_error e = (if e = IoEOF then Err ''connection closed'' else Err (''NextStart '' @ error_text e))"

function NextXmppToken :: "decoder \<Rightarrow> error + xtoken \<times> decoder" where
  "NextXmppToken p =
     (case Token p of
        Inl e \<Rightarrow> Inl (scan_error e)
      | Inr (StartElement n at, p') \<Rightarrow> Inr (StartElement n at, p')
      | Inr (EndElement n, p') \<Rightarrow>
          (if nSpace n = NSStream \<and> nLocal n = ''stream'' then Inr (EndElement n, p') else NextXmppToken p')
      | Inr (_, p') \<Rightarrow> NextXmppToken p')"
  by pat_completeness auto
termination by (relation "measure (\<lambda>p. length (decInput p))") (auto simp: Token_less)

declare NextXmppToken.simps [simp del]

function NextStart :: "decoder \<Rightarrow> error + (xname \<times> xattr list) \<times> decoder" where
  "NextStart p =
     (case Token p of
        Inl e \<Rightarrow> Inl (scan_error e)
      | Inr (StartElement n at, p') \<Rightarrow> Inr ((n, at), p')
      | Inr (_, p') \<Rightarrow> NextStart p')"
  by pat_completeness auto
termination by (relation "measure (\<lambda>p. length (decInput p))") (auto simp: Token_less)

declare NextStart.simps [simp del]

subsection \<open>Decoding\<close>

definition unexpected :: "xname \<Rightarrow> error" where
  "unexpected n = Err (''unexpected XMPP packet '' @ nSpace n @ '' <'' @ nLocal n @ ''/>'')"

definition as_packet :: "('a \<Rightarrow> packet) \<Rightarrow> error + 'a \<times> decoder \<Rightarrow> error + packet \<times> decoder" where
  "as_packet f r = bind_result r (\<lambda>(v, d). Inr (f v, d))"

text \<open>The field \<^verbatim>\<open>Error xml.Name `xml:",any"`\<close> takes the name of every child that is not the text.\<close>

definition decode_stream_error :: "xml \<Rightarrow> error + xname \<times> string" where
  "decode_stream_error t =
     bind_result (expect_name NSStream ''error'' t) (\<lambda>_.
       fold_result (\<lambda>k (e, text).
           if elem_name k = XName ''urn:ietf:params:xml:ns:xmpp-streams'' ''text'' then Inr (e, elem_text k)
           else Inr (elem_name k, text))
         (elements (xml_kids t)) (zero_name, []))"

definition streamError_decode :: "xname \<Rightarrow> xattr list \<Rightarrow> decoder \<Rightarrow> error + packet \<times> decoder" where
  "streamError_decode n at p = as_packet (\<lambda>(e, text). PktStreamError e text) (decode_struct decode_stream_error n at p)"

definition streamFeatures_decode :: "xname \<Rightarrow> xattr list \<Rightarrow> decoder \<Rightarrow> error + packet \<times> decoder" where
  "streamFeatures_decode n at p = as_packet PktStreamFeatures (decode_struct (decode_features zero_features) n at p)"

definition decodeStream :: "xtoken \<Rightarrow> decoder \<Rightarrow> error + packet \<times> decoder" where
  "decodeStream t p =
     (case t of
        StartElement n at \<Rightarrow>
          (if nLocal n = ''error'' then streamError_decode n at p
           else if nLocal n = ''features'' then streamFeatures_decode n at p
           else Inl (unexpected n))
      | EndElement n \<Rightarrow> (if nLocal n = ''stream'' then Inr (PktStreamClose, p) else Inl (unexpected n))
      | _ \<Rightarrow> Inl (Err ''unexpected XML token ''))"

text \<open>
  A field \<^verbatim>\<open>,innerxml\<close> holds the raw text between the tags. Tokens do not have it; it is the
  character data when there are no child elements and no entities, as in base64 and hexadecimal.
\<close>

definition decode_inner :: "string \<Rightarrow> string \<Rightarrow> xml \<Rightarrow> error + string" where
  "decode_inner sp l t = bind_result (expect_name sp l t) (\<lambda>_. Inr (elem_text t))"

definition decode_sasl_failure :: "xml \<Rightarrow> error + xname" where
  "decode_sasl_failure t =
     bind_result (expect_name NSSASL ''failure'' t) (\<lambda>_.
       Inr (fold (\<lambda>k any. if nLocal (elem_name k) = ''Any'' then elem_name k else any) (elements (xml_kids t)) (XName [] [])))"

definition decodeSASL :: "xname \<Rightarrow> xattr list \<Rightarrow> decoder \<Rightarrow> error + packet \<times> decoder" where
  "decodeSASL n at p =
     (if nLocal n = ''success'' then
        as_packet PktSASLSuccess (decode_struct (decode_inner NSSASL ''success'') n at p)
      else if nLocal n = ''failure'' then
        as_packet PktSASLFailure (decode_struct decode_sasl_failure n at p)
      else Inl (unexpected n))"

text \<open>The reason of a failed authentication is not read, whatever the server gives.\<close>

theorem SASLFailure_reason_lost:
  assumes "list_all (\<lambda>k. nLocal (elem_name k) \<noteq> ''Any'') (elements kids)"
  shows "decode_sasl_failure (Elem (XName NSSASL ''failure'') at kids) = Inr (XName [] [])"
proof -
  have "list_all (\<lambda>k. nLocal (elem_name k) \<noteq> ''Any'') ks \<Longrightarrow>
      fold (\<lambda>k any. if nLocal (elem_name k) = ''Any'' then elem_name k else any) ks a = a" for ks a
    by (induction ks) simp_all
  with assms show ?thesis by (simp add: decode_sasl_failure_def expect_name_def)
qed

theorem SASLFailure_reason_lost_witness:
  "decode_sasl_failure (Elem (XName NSSASL ''failure'') [] [Elem (XName NSSASL ''not-authorized'') [] []]) = Inr (XName [] [])"
  by (rule SASLFailure_reason_lost) simp

definition decodeClient :: "codec \<Rightarrow> xname \<Rightarrow> xattr list \<Rightarrow> decoder \<Rightarrow> error + packet \<times> decoder" where
  "decodeClient cdc n at p =
     (if nLocal n = ''message'' then as_packet PktMessage (DecodeMessage cdc n at p)
      else if nLocal n = ''presence'' then as_packet PktPresence (DecodePresence cdc n at p)
      else if nLocal n = ''iq'' then as_packet PktIQ (DecodeIQ cdc n at p)
      else Inl (unexpected n))"

definition decodeComponent :: "codec \<Rightarrow> xname \<Rightarrow> xattr list \<Rightarrow> decoder \<Rightarrow> error + packet \<times> decoder" where
  "decodeComponent cdc n at p =
     (if nLocal n = ''handshake'' then
        as_packet PktHandshake (decode_struct (decode_inner NSComponent ''handshake'') n at p)
      else if nLocal n = ''message'' then as_packet PktMessage (DecodeMessage cdc n at p)
      else if nLocal n = ''presence'' then as_packet PktPresence (DecodePresence cdc n at p)
      else if nLocal n = ''iq'' then as_packet PktIQ (DecodeIQ cdc n at p)
      else Inl (unexpected n))"

definition sm_decode :: "xname \<Rightarrow> xattr list \<Rightarrow> decoder \<Rightarrow> error + packet \<times> decoder" where
  "sm_decode n at p =
     (if nLocal n = ''enabled'' then as_packet PktSMEnabled (decode_struct decode_sm_enabled n at p)
      else if nLocal n = ''resumed'' then as_packet PktSMResumed (decode_struct (decode_sm_resumed ''resumed'') n at p)
      else if nLocal n = ''resume'' then as_packet PktSMResume (decode_struct (decode_sm_resumed ''resume'') n at p)
      else if nLocal n = ''r'' then as_packet (\<lambda>_. PktSMRequest) (decode_struct decode_sm_request n at p)
      else if nLocal n = ''a'' then as_packet PktSMAnswer (decode_struct decode_sm_answer n at p)
      else if nLocal n = ''failed'' then as_packet PktSMFailed (DecodeSMFailed n at p)
      else Inl (unexpected n))"

definition decode_packet :: "codec \<Rightarrow> xname \<Rightarrow> xattr list \<Rightarrow> decoder \<Rightarrow> error + packet \<times> decoder" where
  "decode_packet cdc n at p =
     (if nSpace n = NSStream then decodeStream (StartElement n at) p
      else if nSpace n = NSSASL then decodeSASL n at p
      else if nSpace n = NSClient then decodeClient cdc n at p
      else if nSpace n = NSComponent then decodeComponent cdc n at p
      else if nSpace n = NSStreamManagement then sm_decode n at p
      else Inl (Err (''unknown namespace '' @ nSpace n @ '' <'' @ nLocal n @ ''/>'')))"

definition NextPacket :: "codec \<Rightarrow> decoder \<Rightarrow> error + packet \<times> decoder" where
  "NextPacket cdc p =
     bind_result (NextXmppToken p) (\<lambda>(t, p').
       case t of
         EndElement n \<Rightarrow> decodeStream (EndElement n) p'
       | StartElement n at \<Rightarrow> decode_packet cdc n at p'
       | _ \<Rightarrow> Inl (Err ''unknown token ''))"

subsection \<open>Reading forward\<close>

lemma NextXmppToken_less: "NextXmppToken p = Inr (t, p') \<Longrightarrow> length (decInput p') < length (decInput p)"
proof (induction p arbitrary: p' rule: NextXmppToken.induct)
  case (1 p)
  from "1.prems" obtain t1 p1 where t: "Token p = Inr (t1, p1)"
    by (subst (asm) NextXmppToken.simps) (auto split: sum.splits)
  note less = Token_less [OF t]
  show ?case
  proof (cases t1)
    case (StartElement n at)
    with "1.prems" t less show ?thesis by (subst (asm) NextXmppToken.simps) auto
  next
    case (EndElement n)
    show ?thesis
    proof (cases "nSpace n = NSStream \<and> nLocal n = ''stream''")
      case True
      with "1.prems" t less EndElement show ?thesis by (subst (asm) NextXmppToken.simps) auto
    next
      case False
      with "1.prems" t EndElement have "NextXmppToken p1 = Inr (t, p')"
        by (subst (asm) NextXmppToken.simps) auto
      from "1.IH"(1) [OF t refl EndElement False this] less show ?thesis by simp
    qed
  next
    case (CharData s)
    with "1.prems" t have "NextXmppToken p1 = Inr (t, p')" by (subst (asm) NextXmppToken.simps) simp
    from "1.IH"(2) [OF t refl CharData this] less show ?thesis by simp
  next
    case OtherToken
    with "1.prems" t have "NextXmppToken p1 = Inr (t, p')" by (subst (asm) NextXmppToken.simps) simp
    from "1.IH"(3) [OF t refl OtherToken this] less show ?thesis by simp
  qed
qed

lemma as_packet_less:
  "forward dec \<Longrightarrow> as_packet f (dec n at p) = Inr (v, p') \<Longrightarrow> length (decInput p') < length (decInput p)"
  by (auto simp: as_packet_def bind_result_Inr_iff dest: forwardD)

lemma forward_DecodeSMFailed: "forward DecodeSMFailed"
  unfolding DecodeSMFailed_def SMFailed_UnmarshalXML_def
  by (rule forward_unmarshalInterface [OF forward_elem_unmarshal])

lemma decode_packet_less:
  "decode_packet cdc n at p = Inr (v, p') \<Longrightarrow> length (decInput p') < length (decInput p)"
  by (auto simp: decode_packet_def decodeStream_def decodeSASL_def decodeClient_def decodeComponent_def
      sm_decode_def streamError_decode_def streamFeatures_decode_def split: if_splits
      dest: as_packet_less [OF forward_decode_struct] as_packet_less [OF forward_stanzas(1)]
        as_packet_less [OF forward_stanzas(2)] as_packet_less [OF forward_stanzas(3)]
        as_packet_less [OF forward_DecodeSMFailed])

lemma NextPacket_less:
  assumes "NextPacket cdc p = Inr (v, p')"
  shows "length (decInput p') < length (decInput p)"
proof -
  from assms obtain t p1 where t: "NextXmppToken p = Inr (t, p1)"
    and k: "(case t of EndElement n \<Rightarrow> decodeStream (EndElement n) p1
       | StartElement n at \<Rightarrow> decode_packet cdc n at p1 | _ \<Rightarrow> Inl (Err ''unknown token '')) = Inr (v, p')"
    by (auto simp: NextPacket_def bind_result_Inr_iff)
  show ?thesis
    using NextXmppToken_less [OF t] k
    by (auto simp: decodeStream_def split: xtoken.splits if_splits dest: decode_packet_less)
qed

text \<open>
  Every packet read shortens the input, whatever the payload decoders of a program do, so
  the loops that read packets until an error always end.
\<close>

theorem NextPacket_progress:
  assumes "NextPacket cdc p = Inr (v, p')"
  shows "length (decInput p') < length (decInput p)"
  using assms by (rule NextPacket_less)

theorem NextPacket_progress_witness:
  "length (decInput \<lparr>decInput = [], decErr = IoEOF, decStk = [StkStart (XName NSStream ''stream'')]\<rparr>)
   < length (decInput (new_decoder (StartElement (XName NSStream ''stream'') [] # xml_tokens (Elem (XName NSStreamManagement ''r'') [] []))))"
proof -
  let ?p = "after (xml_tokens (Elem (XName NSStreamManagement ''r'') [] [])) [StkStart (XName NSStream ''stream'')] (new_decoder [])"
  have "NextXmppToken ?p = Inr (StartElement (XName NSStreamManagement ''r'') [],
      inside [] (XName NSStreamManagement ''r'') [] [StkStart (XName NSStream ''stream'')] (new_decoder []))"
    by (subst NextXmppToken.simps) (simp add: after_def inside_def)
  then have "NextPacket package_codec ?p = Inr (PktSMRequest,
      after [] [StkStart (XName NSStream ''stream'')] (new_decoder []))"
    by (simp add: NextPacket_def decode_packet_def sm_decode_def ns_defs as_packet_def decode_struct_tree
        decode_sm_request_def expect_name_def)
  from NextPacket_progress [OF this] show ?thesis
    by (simp add: after_def new_decoder_def)
qed

subsection \<open>A sequence of stanzas\<close>

text \<open>The packet of a complete element in the client's name space, for the package's codec.\<close>

definition stanza_packet :: "xml \<Rightarrow> error + packet" where
  "stanza_packet t =
     (case t of
        Elem n at kids \<Rightarrow>
          if n = XName NSClient ''iq'' then
            bind_result (fold_result IQ_step (elements kids) (IQ_start n at)) (\<lambda>i. Inr (PktIQ i))
          else if n = XName NSClient ''message'' \<and> avoids Message_known n kids then
            bind_result (fold_result Message_step (spliced Message_known kids) (Message_start n at)) (\<lambda>m. Inr (PktMessage m))
          else if n = XName NSClient ''presence'' \<and> avoids Presence_known n kids then
            bind_result (fold_result Presence_step (spliced Presence_known kids) (Presence_start n at)) (\<lambda>p. Inr (PktPresence p))
          else Inl (Err ''not a client stanza'')
      | Text s \<Rightarrow> Inl (Err ''not a client stanza''))"

fun read_packets :: "codec \<Rightarrow> nat \<Rightarrow> decoder \<Rightarrow> error + packet list \<times> decoder" where
  "read_packets cdc 0 p = Inr ([], p)"
| "read_packets cdc (Suc k) p =
     bind_result (NextPacket cdc p) (\<lambda>(v, p').
     bind_result (read_packets cdc k p') (\<lambda>(vs, p''). Inr (v # vs, p'')))"

text \<open>The proofs of the decoders by tree, as equations that other proofs rewrite with.\<close>

lemma client_decoders:
  "DecodeIQ package_codec n at (inside kids n rest stk d) =
     with_decoder (after rest stk d) (fold_result IQ_step (elements kids) (IQ_start n at))"
  "avoids Message_known n kids \<Longrightarrow> DecodeMessage package_codec n at (inside kids n rest stk d) =
     with_decoder (after rest stk d) (fold_result Message_step (spliced Message_known kids) (Message_start n at))"
  "avoids Presence_known n kids \<Longrightarrow> DecodePresence package_codec n at (inside kids n rest stk d) =
     with_decoder (after rest stk d) (fold_result Presence_step (spliced Presence_known kids) (Presence_start n at))"
  unfolding DecodeIQ_def IQ_UnmarshalXML_def DecodeMessage_def Message_UnmarshalXML_def
    DecodePresence_def Presence_UnmarshalXML_def
  using unmarshalInterface_tree [OF exact_IQ_child] unmarshalInterface_spliced [OF passes_Message_child]
    unmarshalInterface_spliced [OF passes_Presence_child]
  by simp_all

lemma NextXmppToken_elem:
  assumes "not_at_eof stk"
  shows "NextXmppToken (after (xml_tokens (Elem n at kids) @ rest) stk d) = Inr (StartElement n at, inside kids n rest stk d)"
proof -
  have "Token (after (xml_tokens (Elem n at kids) @ rest) stk d) = Inr (StartElement n at, inside kids n rest stk d)"
    using assms by (simp add: after_def inside_def)
  then show ?thesis by (subst NextXmppToken.simps) simp
qed

lemma NextPacket_stanza:
  assumes "stanza_packet t = Inr v" "not_at_eof stk"
  shows "NextPacket package_codec (after (xml_tokens t @ rest) stk d) = Inr (v, after rest stk d)"
proof (cases t)
  case (Elem n at kids)
  have ns: "NSClient \<noteq> NSStream" "NSClient \<noteq> NSSASL" by (simp_all add: ns_defs)
  show ?thesis
    using assms(1) unfolding Elem NextPacket_def NextXmppToken_elem [OF assms(2)]
    by (auto simp: stanza_packet_def decode_packet_def decodeClient_def client_decoders ns as_packet_def
        bind_result_Inr_iff split: if_splits)
next
  case (Text s)
  with assms(1) show ?thesis by (simp add: stanza_packet_def)
qed

text \<open>
  C30. A stream that carries complete client stanzas one after the other is read into exactly the
  packets of these stanzas, in their order, and the decoder is left after the last one.
\<close>

theorem read_packets_stanzas:
  assumes "list_all2 (\<lambda>t v. stanza_packet t = Inr v) ts vs" "not_at_eof stk"
  shows "read_packets package_codec (length ts) (after (concat (map xml_tokens ts) @ rest) stk d)
    = Inr (vs, after rest stk d)"
  using assms(1)
proof (induction ts vs rule: list_all2_induct)
  case Nil
  then show ?case by simp
next
  case (Cons t ts v vs)
  have "NextPacket package_codec (after (xml_tokens t @ concat (map xml_tokens ts) @ rest) stk d)
      = Inr (v, after (concat (map xml_tokens ts) @ rest) stk d)"
    by (rule NextPacket_stanza [OF Cons.hyps(1) assms(2)])
  with Cons.IH show ?case by simp
qed

definition sample_stanzas :: "xml list" where
  "sample_stanzas =
     [Elem (XName NSClient ''message'') [(XName [] ''from'', ''a@b'')] [Elem (XName NSClient ''body'') [] [Text ''hi'']],
      Elem (XName NSClient ''presence'') [] [],
      Elem (XName NSClient ''iq'') [(XName [] ''id'', ''1''), (XName [] ''type'', ''result'')] []]"

theorem read_packets_stanzas_witness:
  "read_packets package_codec 3 (after (concat (map xml_tokens sample_stanzas)) [StkStart (XName NSStream ''stream'')] (new_decoder []))
   = Inr ([PktMessage (zero_message\<lparr>msgXMLName := XName NSClient ''message'',
              msgAttrs := zero_attrs\<lparr>aFrom := ''a@b''\<rparr>, msgBody := ''hi''\<rparr>),
           PktPresence (zero_presence\<lparr>presXMLName := XName NSClient ''presence''\<rparr>),
           PktIQ (zero_iq\<lparr>iqXMLName := XName NSClient ''iq'', iqAttrs := zero_attrs\<lparr>aId := ''1'', aType := ''result''\<rparr>\<rparr>)],
          after [] [StkStart (XName NSStream ''stream'')] (new_decoder []))"
proof -
  have len: "length sample_stanzas = 3" by (simp add: sample_stanzas_def)
  show ?thesis
    unfolding len [symmetric]
    by (rule read_packets_stanzas [where rest = "[]", simplified append_Nil2])
      (simp_all add: sample_stanzas_def stanza_packet_def ns_defs Message_known_def Message_step_def elem_text_def
        registration_simps Message_start_def Presence_start_def IQ_start_def stanza_attr_def IQ_attr_def zero_attrs_def
        zero_message_def zero_presence_def zero_iq_def)
qed

subsection \<open>Failed stream management\<close>

text \<open>
  A \<^verbatim>\<open><failed/>\<close> answer of stream management is decoded exactly when its condition is one of
  the listed ones; with another condition, such as \<^verbatim>\<open>item-not-found\<close>, which XEP-0198 uses when
  a session cannot be resumed, the decoder fails and with it the connection. Without a condition
  the packet has no error group.
\<close>

theorem NextPacket_SMFailed:
  assumes "not_at_eof stk"
  shows "NextPacket package_codec (after (xml_tokens (Elem (XName NSStreamManagement ''failed'') at
        [Elem (XName NSStanzas c) [] []]) @ rest) stk d) =
      (case map_of sm_failed_cases c of
         None \<Rightarrow> Inl (Err ''error is unknown'')
       | Some g \<Rightarrow> Inr (PktSMFailed \<lparr>smfH = None, smfStreamErrorGroup = Some g\<rparr>, after rest stk d))
    \<and> NextPacket package_codec (after (xml_tokens (Elem (XName NSStreamManagement ''failed'') at []) @ rest) stk d) =
      Inr (PktSMFailed \<lparr>smfH = None, smfStreamErrorGroup = None\<rparr>, after rest stk d)
    \<and> map_of sm_failed_cases ''item-not-found'' = None"
proof -
  define step where "step = (\<lambda>t (s :: sm_failed). case map_of sm_failed_cases (nLocal (elem_name t)) of
      Some g \<Rightarrow> bind_result (decode_error_group g t) (\<lambda>g. Inr (s\<lparr>smfStreamErrorGroup := Some g\<rparr>))
    | None \<Rightarrow> Inl (Err ''error is unknown''))"
  have ex: "exact_on SMFailed_child step t" for t
    by (cases t) (auto simp: exact_on_def SMFailed_child_def step_def child_steps split: option.split)
  have ns: "NSStreamManagement \<noteq> NSStream" "NSStreamManagement \<noteq> NSSASL" "NSStreamManagement \<noteq> NSClient"
    "NSStreamManagement \<noteq> NSComponent" by (simp_all add: ns_defs)
  have name: "GroupErrorName g = c" if "map_of sm_failed_cases c = Some g" for g
    using map_of_SomeD [OF that] by (auto simp: sm_failed_cases_def)
  have dec: "DecodeSMFailed n at (inside kids n rest stk d) =
      with_decoder (after rest stk d) (fold_result step (elements kids) \<lparr>smfH = None, smfStreamErrorGroup = None\<rparr>)"
    for n kids
    unfolding DecodeSMFailed_def SMFailed_UnmarshalXML_def by (rule unmarshalInterface_tree) (rule ex)
  have inf: "map_of sm_failed_cases ''item-not-found'' = None" by (simp add: sm_failed_cases_def)
  show ?thesis
    unfolding NextPacket_def NextXmppToken_elem [OF assms]
    by (auto simp: decode_packet_def sm_decode_def ns as_packet_def dec step_def decode_error_group_def
        expect_name_def Let_def name inf split: option.split)
qed

theorem NextPacket_SMFailed_witness:
  "NextPacket package_codec (after (xml_tokens (Elem (XName NSStreamManagement ''failed'') []
        [Elem (XName NSStanzas ''item-not-found'') [] []]) @ []) [] (new_decoder [])) = Inl (Err ''error is unknown'')"
  using NextPacket_SMFailed [of "[]" "[]" "''item-not-found''" "[]" "new_decoder []"]
  by (auto simp: sm_failed_cases_def)
end
