(* ===== verification/Network.thy ===== *)
theory Network
  imports GoStrconv
begin

text \<open>
  Addresses: \<^verbatim>\<open>network.go\<close> (\<open>ensurePort\<close>), \<^verbatim>\<open>cert_checker.go\<close> (\<open>extractParams\<close>,
  \<open>NewChecker\<close>) and the choice among DNS SRV records in \<^verbatim>\<open>client.go\<close> (\<open>selectSrv\<close>).
\<close>

subsection \<open>Ports\<close>

definition ensurePort :: "string \<Rightarrow> int \<Rightarrow> string" where
  "ensurePort addr port =
     (if HasPrefix addr ''['' then
        if LastIndex addr (CHR '':'') \<le> LastIndex addr (CHR '']'')
        then addr @ '':'' @ Itoa port
        else addr
      else if Count addr (CHR '':'') = 0 then addr @ '':'' @ Itoa port
      else if Count addr (CHR '':'') = 1 then addr
      else ''['' @ addr @ '']:'' @ Itoa port)"

text \<open>
  An address carries a port when it is a bracketed IPv6 literal with a colon after the
  bracket, or an unbracketed name with exactly one colon.
\<close>

definition has_port :: "string \<Rightarrow> bool" where
  "has_port addr \<longleftrightarrow>
     (if HasPrefix addr ''['' then LastIndex addr (CHR '']'') < LastIndex addr (CHR '':'')
      else Count addr (CHR '':'') = 1)"

lemma Itoa_notin:
  "CHR '':'' \<notin> set (Itoa k)" "CHR '']'' \<notin> set (Itoa k)"
  using nat_string_chars by (auto simp: Itoa_def)

lemma Count_zero: "Count s c = 0 \<longleftrightarrow> c \<notin> set s"
  by (simp add: Count_def count_list_0_iff)

lemma LastIndex_port:
  "LastIndex (s @ CHR '':'' # Itoa k) (CHR '':'') = int (length s)"
  "LastIndex (s @ CHR '':'' # Itoa k) (CHR '']'') = LastIndex s (CHR '']'')"
  by (simp_all add: LastIndex_append_in LastIndex_append_notin LastIndex_notin Itoa_notin)

lemma has_port_appended_bracket:
  "HasPrefix s ''['' \<Longrightarrow> has_port (s @ CHR '':'' # Itoa k)"
  using LastIndex_less [of s "CHR '']''"]
  by (auto simp: has_port_def LastIndex_port HasPrefix_iff append_eq_Cons_conv)

lemma has_port_appended_name:
  assumes "\<not> HasPrefix s ''[''" "CHR '':'' \<notin> set s"
  shows "has_port (s @ CHR '':'' # Itoa k)"
proof -
  have "\<not> HasPrefix (s @ CHR '':'' # Itoa k) ''[''"
    using assms(1) by (cases s) (auto simp: HasPrefix_def)
  moreover have "count_list (s @ CHR '':'' # Itoa k) (CHR '':'') = 1"
    using assms(2) Itoa_notin(1) by (simp add: count_list_0_iff)
  ultimately show ?thesis by (simp add: has_port_def Count_def)
qed

lemma has_port_ensurePort: "has_port (ensurePort addr port)"
proof (cases "HasPrefix addr ''[''")
  case True
  then show ?thesis
    using has_port_appended_bracket by (auto simp: ensurePort_def has_port_def)
next
  case False
  consider "Count addr (CHR '':'') = 0" | "Count addr (CHR '':'') = 1" | "Count addr (CHR '':'') > 1"
    by linarith
  then show ?thesis
  proof cases
    case 1
    with False show ?thesis by (simp add: ensurePort_def has_port_appended_name Count_zero)
  next
    case 2
    with False show ?thesis by (simp add: ensurePort_def has_port_def)
  next
    case 3
    with False have "ensurePort addr port = (''['' @ addr @ '']'') @ CHR '':'' # Itoa port"
      by (simp add: ensurePort_def)
    then show ?thesis
      using has_port_appended_bracket [of "''['' @ addr @ '']''"] by (simp add: HasPrefix_def)
  qed
qed

lemma ensurePort_unchanged: "has_port addr \<Longrightarrow> ensurePort addr port = addr"
  by (auto simp: ensurePort_def has_port_def split: if_splits)

lemma ensurePort_changed: "ensurePort addr port = addr \<Longrightarrow> has_port addr"
  using has_port_ensurePort [of addr port] by simp

text \<open>
  \<open>ensurePort\<close> always returns an address with a port, changes an address exactly when it
  has none, and is idempotent, whatever ports it is called with.
\<close>

theorem ensurePort_spec:
  "has_port (ensurePort addr port)
   \<and> (ensurePort addr port = addr \<longleftrightarrow> has_port addr)
   \<and> ensurePort (ensurePort addr port) port' = ensurePort addr port"
  using has_port_ensurePort ensurePort_unchanged ensurePort_changed by blast

subsection \<open>The certificate checker's parameters\<close>

definition extractParams :: "string \<Rightarrow> error + string \<times> string" where
  "extractParams addr =
     (let hostport = Split addr (CHR '':'') in
      if length hostport > 2 then Inl (Err ''too many colons in xmpp server address'')
      else if length hostport = 2 \<and> hostport ! 1 \<noteq> [] then Inr (addr, hostport ! 0)
      else Inr (Join [hostport ! 0, ''5222''] '':'', hostport ! 0))"

record server_check =
  scAddress :: string
  scDomain :: string

definition NewChecker :: "string \<Rightarrow> string \<Rightarrow> error + server_check" where
  "NewChecker address domain =
     bind_result (extractParams address) (\<lambda>(addr, host).
       Inr \<lparr>scAddress = addr, scDomain = (if domain \<noteq> [] then domain else host)\<rparr>)"

text \<open>
  The checker fails exactly on an address with more than one colon. Otherwise the address
  it dials is \<^verbatim>\<open>host:port\<close> with the port given or the XMPP default, and the domain is the
  one asked for, or else the host.
\<close>

theorem NewChecker_spec:
  "NewChecker address domain =
     (if 1 < Count address (CHR '':'') then Inl (Err ''too many colons in xmpp server address'')
      else let host = takeWhile (\<lambda>x. x \<noteq> CHR '':'') address;
               port = tl (dropWhile (\<lambda>x. x \<noteq> CHR '':'') address) in
        Inr \<lparr>scAddress = host @ '':'' @ (if port = [] then ''5222'' else port),
              scDomain = (if domain = [] then host else domain)\<rparr>)"
proof (cases "1 < Count address (CHR '':'')")
  case True
  then show ?thesis
    by (simp add: NewChecker_def extractParams_def length_Split Count_def)
next
  case False
  show ?thesis
  proof (cases "CHR '':'' \<in> set address")
    case True
    let ?h = "takeWhile (\<lambda>x. x \<noteq> CHR '':'') address"
    let ?p = "tl (dropWhile (\<lambda>x. x \<noteq> CHR '':'') address)"
    have a: "address = ?h @ CHR '':'' # ?p"
      using split_at_first [OF True] by simp
    have h: "CHR '':'' \<notin> set ?h" by (auto dest: set_takeWhileD)
    have "count_list address (CHR '':'') = Suc (count_list ?p (CHR '':''))"
      using h by (subst a) (simp add: count_list_0_iff)
    with False have p: "CHR '':'' \<notin> set ?p" by (simp add: Count_def count_list_0_iff)
    have "Split address (CHR '':'') = [?h, ?p]"
      by (subst a) (simp only: Split_append [OF h] Split_notin [OF p])
    then show ?thesis
      using False a by (auto simp: NewChecker_def extractParams_def Let_def)
  next
    case notin: False
    have tw: "takeWhile (\<lambda>x. x \<noteq> CHR '':'') address = address" "dropWhile (\<lambda>x. x \<noteq> CHR '':'') address = []"
      using notin by (auto simp: takeWhile_eq_all_conv dropWhile_eq_Nil_conv)
    show ?thesis
      unfolding tw using notin False by (simp add: NewChecker_def extractParams_def Split_notin Let_def)
  qed
qed

subsection \<open>DNS SRV records\<close>

record srv =
  srvTarget :: string
  srvPort :: nat
  srvPriority :: nat
  srvWeight :: nat

text \<open>
  The loop of \<^verbatim>\<open>NewClient\<close> over the records that \<^verbatim>\<open>net.LookupSRV\<close> returned: the best record
  so far and the address set from it.
\<close>

fun srv_loop :: "srv list \<Rightarrow> srv \<Rightarrow> string \<Rightarrow> srv \<times> string" where
  "srv_loop [] bestSrv addr = (bestSrv, addr)"
| "srv_loop (e # es) bestSrv addr =
     (if srvPriority e \<le> srvPriority bestSrv \<and> srvWeight bestSrv \<le> srvWeight e
      then srv_loop es e (ensurePort (srvTarget e) (int (srvPort e)))
      else srv_loop es bestSrv addr)"

definition selectSrv :: "srv list \<Rightarrow> string \<Rightarrow> string" where
  "selectSrv srvEntries domain =
     (case srvEntries of [] \<Rightarrow> domain | e # _ \<Rightarrow> snd (srv_loop srvEntries e domain))"

definition srv_address :: "srv \<Rightarrow> string" where
  "srv_address e = ensurePort (srvTarget e) (int (srvPort e))"

lemma srv_loop_sorted:
  assumes "sorted_wrt (\<lambda>a b. srvPriority a \<le> srvPriority b) (b # es)" "addr = srv_address b"
  shows "\<exists>e. srv_loop es b addr = (e, srv_address e) \<and> e \<in> set (b # es)
     \<and> srvPriority e = srvPriority b
     \<and> (\<forall>x \<in> set (b # es). srvPriority x = srvPriority b \<longrightarrow> srvWeight x \<le> srvWeight e)"
  using assms
proof (induction es arbitrary: b addr)
  case Nil
  then show ?case by simp
next
  case (Cons x es)
  show ?case
  proof (cases "srvPriority x \<le> srvPriority b \<and> srvWeight b \<le> srvWeight x")
    case True
    with Cons.prems have eq: "srvPriority x = srvPriority b"
      and s: "sorted_wrt (\<lambda>a b. srvPriority a \<le> srvPriority b) (x # es)" by auto
    from Cons.IH [OF s refl] True eq show ?thesis
      by (fastforce simp: srv_address_def)
  next
    case False
    from Cons.prems have s: "sorted_wrt (\<lambda>a b. srvPriority a \<le> srvPriority b) (b # es)"
      and le: "srvPriority b \<le> srvPriority x" by auto
    from Cons.IH [OF s Cons.prems(2)] obtain e where
      e: "srv_loop es b addr = (e, srv_address e)" "e \<in> set (b # es)" "srvPriority e = srvPriority b"
        "\<forall>y \<in> set (b # es). srvPriority y = srvPriority b \<longrightarrow> srvWeight y \<le> srvWeight e"
      by blast
    have "srvPriority x = srvPriority b \<longrightarrow> srvWeight x \<le> srvWeight e"
      using False e(4) by (auto intro: order_trans [OF less_imp_le])
    with e False show ?thesis by (intro exI [of _ e]) auto
  qed
qed

text \<open>
  On records sorted by priority, as \<^verbatim>\<open>net.LookupSRV\<close> documents them, the client connects
  to a record of the best (lowest) priority, and to one of the greatest weight among those.
\<close>

theorem selectSrv_best:
  assumes "sorted_wrt (\<lambda>a b. srvPriority a \<le> srvPriority b) es" "es \<noteq> []"
  shows "\<exists>e \<in> set es. selectSrv es domain = ensurePort (srvTarget e) (int (srvPort e))
     \<and> (\<forall>x \<in> set es. srvPriority e \<le> srvPriority x
          \<and> (srvPriority x = srvPriority e \<longrightarrow> srvWeight x \<le> srvWeight e))"
proof -
  obtain b rest where es: "es = b # rest" using assms(2) by (cases es) auto
  from srv_loop_sorted [OF assms(1) [unfolded es] refl] obtain e where
    e: "srv_loop rest b (srv_address b) = (e, srv_address e)" "e \<in> set es" "srvPriority e = srvPriority b"
      "\<forall>x \<in> set es. srvPriority x = srvPriority b \<longrightarrow> srvWeight x \<le> srvWeight e"
    unfolding es by blast
  have "selectSrv es domain = srv_address e"
    using e(1) by (simp add: selectSrv_def es srv_address_def)
  moreover have "\<forall>x \<in> set es. srvPriority b \<le> srvPriority x"
    using assms(1) es by auto
  ultimately show ?thesis
    using e by (auto simp: srv_address_def intro!: bexI [of _ e])
qed

theorem selectSrv_best_witness:
  "\<exists>e \<in> set [\<lparr>srvTarget = ''a'', srvPort = 1, srvPriority = 1, srvWeight = 5\<rparr>,
             \<lparr>srvTarget = ''b'', srvPort = 2, srvPriority = 1, srvWeight = 9\<rparr>,
             \<lparr>srvTarget = ''c'', srvPort = 3, srvPriority = 2, srvWeight = 20\<rparr>].
     selectSrv [\<lparr>srvTarget = ''a'', srvPort = 1, srvPriority = 1, srvWeight = 5\<rparr>,
             \<lparr>srvTarget = ''b'', srvPort = 2, srvPriority = 1, srvWeight = 9\<rparr>,
             \<lparr>srvTarget = ''c'', srvPort = 3, srvPriority = 2, srvWeight = 20\<rparr>] []
       = ensurePort (srvTarget e) (int (srvPort e))
     \<and> (\<forall>x \<in> set [\<lparr>srvTarget = ''a'', srvPort = 1, srvPriority = 1, srvWeight = 5\<rparr>,
             \<lparr>srvTarget = ''b'', srvPort = 2, srvPriority = 1, srvWeight = 9\<rparr>,
             \<lparr>srvTarget = ''c'', srvPort = 3, srvPriority = 2, srvWeight = 20\<rparr>].
          srvPriority e \<le> srvPriority x
          \<and> (srvPriority x = srvPriority e \<longrightarrow> srvWeight x \<le> srvWeight e))"
  by (rule selectSrv_best) simp_all

end
