(* ===== verification/Transport.thy ===== *)
theory Transport
  imports Parser Network
begin

text \<open>
  The transports: \<^verbatim>\<open>xmpp_transport.go\<close> (TCP), \<^verbatim>\<open>websocket_transport.go\<close>,
  \<^verbatim>\<open>transport.go\<close> (the interface and its constructors) and \<^verbatim>\<open>stream_logger.go\<close>.

  The other side is a script: one \<open>server\<close> per dial, with the outcome of the dial, the tokens
  that arrive before and after TLS is started, the outcome of the handshake and of the check
  of the host name, and the outcome of every write. A statement for all scripts is one for all
  behaviours of the network and the server. Whatever is written is recorded with the channel
  it went through (\<open>Clear\<close> or \<open>Encrypted\<close>).
\<close>

subsection \<open>What is written\<close>

text \<open>
  Text, or the value that \<^verbatim>\<open>xml.Marshal\<close> turns into text: \<open>OSASLAuth\<close> is a mechanism and a
  Base64 value, \<open>OSMEnable\<close> the attribute \<^verbatim>\<open>resume\<close>, \<open>OSMResume\<close> the previous identifier and
  the inbound count.
\<close>

datatype outgoing =
    ORaw string
  | OSASLAuth string string
  | OSASLResponse string
  | OIQ iq
  | OSMEnable bool
  | OSMResume string gouint

datatype channel = Clear | Encrypted

datatype write_result = WOk | WZero | WErr string

record server =
  svDial :: "error option"
  svPlain :: decoder
  svHandshake :: "error option"
  svVerifyHostname :: "error option"
  svSecure :: decoder
  svWrite :: "nat \<Rightarrow> write_result"
  svSubprotocol :: string

text \<open>What a call of \<^verbatim>\<open>Write\<close> tells its caller: an error, or whether any byte was written.\<close>

definition write_outcome :: "write_result \<Rightarrow> error + bool" where
  "write_outcome r = (case r of WOk \<Rightarrow> Inr True | WZero \<Rightarrow> Inr False | WErr e \<Rightarrow> Inl (LibErr e))"

subsection \<open>Configuration\<close>

record transport_config =
  tcAddress :: string
  tcDomain :: string
  tcConnectTimeout :: int
  tcServerName :: string
  tcInsecureSkipVerify :: bool

text \<open>
  A format with one \<^verbatim>\<open>%s\<close>: the text before and after it.
\<close>

type_synonym format1 = "string \<times> string"

definition fprintf1 :: "format1 \<Rightarrow> string \<Rightarrow> string" where
  "fprintf1 f arg = fst f @ arg @ snd f"

definition quote :: string where
  "quote = [CHR 0x27]"

definition componentStreamOpen :: format1 where
  "componentStreamOpen =
     (''<?xml version='' @ quote @ ''1.0'' @ quote @ ''?><stream:stream to='' @ quote,
      quote @ '' xmlns='' @ quote @ NSComponent @ quote @ '' xmlns:stream='' @ quote @ NSStream @ quote @ ''>'')"

definition clientStreamOpen :: format1 where
  "clientStreamOpen =
     (''<?xml version='' @ quote @ ''1.0'' @ quote @ ''?><stream:stream to='' @ quote,
      quote @ '' xmlns='' @ quote @ NSClient @ quote @ '' xmlns:stream='' @ quote @ NSStream @ quote
        @ '' version='' @ quote @ ''1.0'' @ quote @ ''>'')"

definition StreamClose :: string where
  "StreamClose = ''</stream:stream>''"

subsection \<open>The TCP transport\<close>

text \<open>
  \<open>xtConn\<close> is whether \<^verbatim>\<open>conn\<close> is not nil, \<open>xtChannel\<close> what \<^verbatim>\<open>readWriter\<close> writes to (\<open>None\<close>
  when it is nil), \<open>xtClosed\<close> whether that connection has been closed, \<open>xtCloseChan\<close> the
  number of signals waiting in the channel of capacity 1, \<open>xtServers\<close> the scripts of the
  dials to come, \<open>xtOut\<close> everything written so far.
\<close>

record xmpp_transport =
  xtOpenStatement :: format1
  xtConfig :: transport_config
  xtDecoder :: decoder
  xtConn :: bool
  xtChannel :: "channel option"
  xtClosed :: bool
  xtIsSecure :: bool
  xtTLSServerName :: string
  xtCloseChan :: "nat option"
  xtServer :: "server option"
  xtServers :: "server list"
  xtWrites :: nat
  xtOut :: "(channel \<times> outgoing) list"

definition no_decoder :: decoder where
  "no_decoder = \<lparr>decInput = [], decErr = IoEOF, decStk = []\<rparr>"

definition new_xmpp_transport :: "format1 \<Rightarrow> transport_config \<Rightarrow> server list \<Rightarrow> xmpp_transport" where
  "new_xmpp_transport open_st cfg svs =
     \<lparr>xtOpenStatement = open_st, xtConfig = cfg, xtDecoder = no_decoder, xtConn = False, xtChannel = None,
      xtClosed = False, xtIsSecure = False, xtTLSServerName = [], xtCloseChan = None, xtServer = None,
      xtServers = svs, xtWrites = 0, xtOut = []\<rparr>"

definition xt_Write :: "outgoing \<Rightarrow> xmpp_transport \<Rightarrow> (error + bool) \<times> xmpp_transport" where
  "xt_Write p t =
     (case (xtChannel t, xtServer t) of
        (Some ch, Some sv) \<Rightarrow>
          if xtClosed t then (Inl (LibErr ''use of closed network connection''), t)
          else (write_outcome (svWrite sv (xtWrites t)),
                t\<lparr>xtWrites := Suc (xtWrites t), xtOut := xtOut t @ [(ch, p)]\<rparr>)
      | _ \<Rightarrow> (Inl (Err ''cannot write: not connected, no readwriter''), t))"

text \<open>Waiting for the stream close of the server ends by a signal or by the timeout.\<close>

definition xt_Close :: "xmpp_transport \<Rightarrow> (error + unit) \<times> xmpp_transport" where
  "xt_Close t =
     (let t1 = (if xtChannel t \<noteq> None then snd (xt_Write (ORaw StreamClose) t) else t);
          t2 = t1\<lparr>xtCloseChan := map_option (\<lambda>_. 0) (xtCloseChan t1)\<rparr> in
      if \<not> xtConn t2 then (Inr (), t2)
      else if xtClosed t2 then (Inl (LibErr ''use of closed network connection''), t2)
      else (Inr (), t2\<lparr>xtClosed := True\<rparr>))"

definition xt_StartStream :: "xmpp_transport \<Rightarrow> (error + string) \<times> xmpp_transport" where
  "xt_StartStream t =
     (case xt_Write (ORaw (fprintf1 (xtOpenStatement t) (tcDomain (xtConfig t)))) t of
        (Inl e, t1) \<Rightarrow> (Inl (NewConnError e True), snd (xt_Close t1))
      | (Inr _, t1) \<Rightarrow>
          (case InitStream (xtDecoder t1) of
             Inl e \<Rightarrow> (Inl (NewConnError e False), snd (xt_Close t1))
           | Inr (sessionID, d) \<Rightarrow> (Inr sessionID, t1\<lparr>xtDecoder := d\<rparr>)))"

text \<open>A dial beyond the scripts fails.\<close>

definition xt_Connect :: "xmpp_transport \<Rightarrow> (error + string) \<times> xmpp_transport" where
  "xt_Connect t =
     (case xtServers t of
        [] \<Rightarrow> (Inl (NewConnError (LibErr ''dial tcp: connection refused'') True), t\<lparr>xtConn := False\<rparr>)
      | sv # svs \<Rightarrow>
          (case svDial sv of
             Some e \<Rightarrow> (Inl (NewConnError e True), t\<lparr>xtConn := False, xtServers := svs\<rparr>)
           | None \<Rightarrow>
               xt_StartStream
                 (t\<lparr>xtConn := True, xtClosed := False, xtCloseChan := Some 0, xtChannel := Some Clear,
                    xtDecoder := svPlain sv, xtServer := Some sv, xtServers := svs, xtWrites := 0\<rparr>)))"

definition xt_StartTLS :: "xmpp_transport \<Rightarrow> (error + unit) \<times> xmpp_transport" where
  "xt_StartTLS t =
     (let cfg = xtConfig t;
          t0 = t\<lparr>xtTLSServerName := (if tcServerName cfg = [] then tcDomain cfg else tcServerName cfg)\<rparr> in
      case xtServer t0 of
        None \<Rightarrow> (Inl (Panic ''nil connection''), t0)
      | Some sv \<Rightarrow>
          (case svHandshake sv of
             Some e \<Rightarrow> (Inl e, t0)
           | None \<Rightarrow>
               let t1 = t0\<lparr>xtIsSecure := False, xtChannel := Some Encrypted, xtDecoder := svSecure sv\<rparr> in
               if \<not> tcInsecureSkipVerify cfg \<and> svVerifyHostname sv \<noteq> None
               then (Inl (the (svVerifyHostname sv)), t1)
               else (Inr (), t1\<lparr>xtIsSecure := True\<rparr>)))"

definition xt_Ping :: "xmpp_transport \<Rightarrow> (error + unit) \<times> xmpp_transport" where
  "xt_Ping t =
     (if \<not> xtConn t then (Inl (Panic ''nil connection''), t)
      else
        (case xt_Write (ORaw [CHR 0x0A]) t of
           (Inl e, t1) \<Rightarrow> (Inl e, t1)
         | (Inr True, t1) \<Rightarrow> (Inr (), t1)
         | (Inr False, t1) \<Rightarrow> (Inl (Err ''could not write ping''), t1)))"

definition xt_ReceivedStreamClose :: "xmpp_transport \<Rightarrow> xmpp_transport" where
  "xt_ReceivedStreamClose t =
     (case xtCloseChan t of
        None \<Rightarrow> t
      | Some k \<Rightarrow> if k < 1 then t\<lparr>xtCloseChan := Some (Suc k)\<rparr> else t)"

subsection \<open>The websocket transport\<close>

text \<open>
  Its channel \<^verbatim>\<open>queue\<close> is nil, open or closed; \<open>wtConn\<close> is whether \<^verbatim>\<open>wsConn\<close> is not nil,
  \<open>wtCtx\<close> whether \<^verbatim>\<open>closeCtx\<close> is set, and then whether it is still live. \<open>svPlain\<close> holds the
  tokens of the connection.
\<close>

datatype ws_queue = QNil | QOpen | QClosed

record websocket_transport =
  wtConfig :: transport_config
  wtDecoder :: decoder
  wtQueue :: ws_queue
  wtConn :: bool
  wtConnClosed :: bool
  wtCtx :: "bool option"
  wtServer :: "server option"
  wtServers :: "server list"
  wtWrites :: nat
  wtOut :: "(channel \<times> outgoing) list"

definition new_websocket_transport :: "transport_config \<Rightarrow> server list \<Rightarrow> websocket_transport" where
  "new_websocket_transport cfg svs =
     \<lparr>wtConfig = cfg, wtDecoder = no_decoder, wtQueue = QNil, wtConn = False, wtConnClosed = False,
      wtCtx = None, wtServer = None, wtServers = svs, wtWrites = 0, wtOut = []\<rparr>"

definition ws_IsSecure :: "websocket_transport \<Rightarrow> bool" where
  "ws_IsSecure t = HasPrefix (tcAddress (wtConfig t)) ''wss:''"

definition ws_channel :: "websocket_transport \<Rightarrow> channel" where
  "ws_channel t = (if ws_IsSecure t then Encrypted else Clear)"

definition ws_Write :: "outgoing \<Rightarrow> websocket_transport \<Rightarrow> (error + bool) \<times> websocket_transport" where
  "ws_Write p t =
     (case (wtConn t, wtServer t) of
        (True, Some sv) \<Rightarrow>
          if wtConnClosed t \<or> wtCtx t \<noteq> Some True then (Inl (LibErr ''failed to write msg: connection closed''), t)
          else ((case svWrite sv (wtWrites t) of WErr e \<Rightarrow> Inl (LibErr e) | _ \<Rightarrow> Inr True),
                t\<lparr>wtWrites := Suc (wtWrites t), wtOut := wtOut t @ [(ws_channel t, p)]\<rparr>)
      | _ \<Rightarrow> (Inl (Panic ''nil pointer dereference''), t))"

text \<open>
  \<^verbatim>\<open>cleanup\<close> called through a pointer (\<open>copy = False\<close>) clears the fields. The methods with a
  value receiver call it on their own copy of the struct (\<open>copy = True\<close>): the channel is
  closed, the connection is closed and the context is cancelled, but the fields of the
  transport stay as they were.
\<close>

definition ws_cleanup :: "bool \<Rightarrow> websocket_transport \<Rightarrow> (error + unit) \<times> websocket_transport" where
  "ws_cleanup copy t =
     (if wtQueue t = QClosed then (Inl (Panic ''close of closed channel''), t)
      else
        let t1 = t\<lparr>wtQueue := (if copy \<and> wtQueue t = QOpen then QClosed else QNil)\<rparr>;
            err = (if wtConn t \<and> wtConnClosed t then Inl (LibErr ''already wrote close'') else Inr ());
            t2 = (if wtConn t1 then t1\<lparr>wtConn := copy, wtConnClosed := True\<rparr> else t1);
            t3 = t2\<lparr>wtCtx := (if copy then map_option (\<lambda>_. False) (wtCtx t2) else None)\<rparr> in
        (err, t3))"

definition ws_close :: string where
  "ws_close = ''<close xmlns=\"urn:ietf:params:xml:ns:xmpp-framing\" />''"

definition ws_Close :: "websocket_transport \<Rightarrow> (error + unit) \<times> websocket_transport" where
  "ws_Close t =
     (case ws_Write (ORaw ws_close) t of
        (Inl (Panic m), t1) \<Rightarrow> (Inl (Panic m), t1)
      | (_, t1) \<Rightarrow> ws_cleanup True t1)"

definition ws_open :: format1 where
  "ws_open = (''<open xmlns=\"urn:ietf:params:xml:ns:xmpp-framing\" to=\"'', ''\" version=\"1.0\" />'')"

text \<open>An error of \<^verbatim>\<open>Close\<close> or \<^verbatim>\<open>cleanup\<close> is dropped; a panic is not.\<close>

definition unless_panic :: "(error + unit) \<times> 't \<Rightarrow> error \<Rightarrow> (error + string) \<times> 't" where
  "unless_panic r e = (case r of (Inl (Panic m), t) \<Rightarrow> (Inl (Panic m), t) | (_, t) \<Rightarrow> (Inl e, t))"

definition ws_StartStream :: "websocket_transport \<Rightarrow> (error + string) \<times> websocket_transport" where
  "ws_StartStream t =
     (case ws_Write (ORaw (fprintf1 ws_open (tcDomain (wtConfig t)))) t of
        (Inl (Panic m), t1) \<Rightarrow> (Inl (Panic m), t1)
      | (Inl e, t1) \<Rightarrow> unless_panic (ws_cleanup True t1) (NewConnError e True)
      | (Inr _, t1) \<Rightarrow>
          (case InitStream (wtDecoder t1) of
             Inl e \<Rightarrow> unless_panic (ws_Close t1) (NewConnError e False)
           | Inr (sessionID, d) \<Rightarrow> (Inr sessionID, t1\<lparr>wtDecoder := d\<rparr>)))"

definition ws_Connect :: "websocket_transport \<Rightarrow> (error + string) \<times> websocket_transport" where
  "ws_Connect t =
     (let t0 = t\<lparr>wtQueue := QOpen, wtCtx := Some True\<rparr> in
      case wtServers t0 of
        [] \<Rightarrow> (Inl (NewConnError (LibErr ''failed to WebSocket dial'') True), t0)
      | sv # svs \<Rightarrow>
          (case svDial sv of
             Some e \<Rightarrow> (Inl (NewConnError e True), t0\<lparr>wtServers := svs\<rparr>)
           | None \<Rightarrow>
               if svSubprotocol sv \<noteq> ''xmpp'' then
                 unless_panic (ws_cleanup False (t0\<lparr>wtServers := svs\<rparr>))
                   (NewConnError (Err ''the websocket server does not support the xmpp subprotocol'') True)
               else
                 ws_StartStream
                   (t0\<lparr>wtConn := True, wtConnClosed := False, wtDecoder := svPlain sv, wtServer := Some sv,
                      wtServers := svs, wtWrites := 0\<rparr>)))"

definition ws_Ping :: "websocket_transport \<Rightarrow> (error + unit) \<times> websocket_transport" where
  "ws_Ping t =
     (case (wtCtx t, wtConn t) of
        (Some live, True) \<Rightarrow>
          if live \<and> \<not> wtConnClosed t then (Inr (), t) else (Inl (LibErr ''failed to ping''), t)
      | _ \<Rightarrow> (Inl (Panic ''nil pointer dereference''), t))"

subsection \<open>The interface\<close>

datatype transport = TCP xmpp_transport | WS websocket_transport

fun tr_Connect :: "transport \<Rightarrow> (error + string) \<times> transport" where
  "tr_Connect (TCP t) = apsnd TCP (xt_Connect t)"
| "tr_Connect (WS t) = apsnd WS (ws_Connect t)"

fun tr_StartStream :: "transport \<Rightarrow> (error + string) \<times> transport" where
  "tr_StartStream (TCP t) = apsnd TCP (xt_StartStream t)"
| "tr_StartStream (WS t) = apsnd WS (ws_StartStream t)"

fun tr_DoesStartTLS :: "transport \<Rightarrow> bool" where
  "tr_DoesStartTLS (TCP t) = True"
| "tr_DoesStartTLS (WS t) = False"

fun tr_StartTLS :: "transport \<Rightarrow> (error + unit) \<times> transport" where
  "tr_StartTLS (TCP t) = apsnd TCP (xt_StartTLS t)"
| "tr_StartTLS (WS t) = (Inl (Err ''transport does not support StartTLS''), WS t)"

fun tr_IsSecure :: "transport \<Rightarrow> bool" where
  "tr_IsSecure (TCP t) = xtIsSecure t"
| "tr_IsSecure (WS t) = ws_IsSecure t"

fun tr_Write :: "outgoing \<Rightarrow> transport \<Rightarrow> (error + bool) \<times> transport" where
  "tr_Write p (TCP t) = apsnd TCP (xt_Write p t)"
| "tr_Write p (WS t) = apsnd WS (ws_Write p t)"

fun tr_Close :: "transport \<Rightarrow> (error + unit) \<times> transport" where
  "tr_Close (TCP t) = apsnd TCP (xt_Close t)"
| "tr_Close (WS t) = apsnd WS (ws_Close t)"

fun tr_Ping :: "transport \<Rightarrow> (error + unit) \<times> transport" where
  "tr_Ping (TCP t) = apsnd TCP (xt_Ping t)"
| "tr_Ping (WS t) = apsnd WS (ws_Ping t)"

fun tr_ReceivedStreamClose :: "transport \<Rightarrow> transport" where
  "tr_ReceivedStreamClose (TCP t) = TCP (xt_ReceivedStreamClose t)"
| "tr_ReceivedStreamClose (WS t) = WS t"

fun tr_GetDecoder :: "transport \<Rightarrow> decoder" where
  "tr_GetDecoder (TCP t) = xtDecoder t"
| "tr_GetDecoder (WS t) = wtDecoder t"

fun tr_set_decoder :: "decoder \<Rightarrow> transport \<Rightarrow> transport" where
  "tr_set_decoder d (TCP t) = TCP (t\<lparr>xtDecoder := d\<rparr>)"
| "tr_set_decoder d (WS t) = WS (t\<lparr>wtDecoder := d\<rparr>)"

fun tr_out :: "transport \<Rightarrow> (channel \<times> outgoing) list" where
  "tr_out (TCP t) = xtOut t"
| "tr_out (WS t) = wtOut t"

fun tr_channel :: "transport \<Rightarrow> channel option" where
  "tr_channel (TCP t) = xtChannel t"
| "tr_channel (WS t) = Some (ws_channel t)"

definition NewClientTransport :: "server list \<Rightarrow> transport_config \<Rightarrow> transport" where
  "NewClientTransport svs cfg =
     (if HasPrefix (tcAddress cfg) ''ws:'' \<or> HasPrefix (tcAddress cfg) ''wss:''
      then WS (new_websocket_transport cfg svs)
      else TCP (new_xmpp_transport clientStreamOpen (cfg\<lparr>tcAddress := ensurePort (tcAddress cfg) 5222\<rparr>) svs))"

definition NewComponentTransport :: "server list \<Rightarrow> transport_config \<Rightarrow> error + transport" where
  "NewComponentTransport svs cfg =
     (if HasPrefix (tcAddress cfg) ''ws:'' \<or> HasPrefix (tcAddress cfg) ''wss:''
      then Inl (Err ''components only support XMPP transport: transport protocol not supported'')
      else Inr (TCP (new_xmpp_transport componentStreamOpen (cfg\<lparr>tcAddress := ensurePort (tcAddress cfg) 5222\<rparr>) svs)))"

text \<open>
  What the clients of the interface rely on when they write: a write goes through the present
  channel of the transport, at most once, is recorded when it succeeds, and changes nothing
  else of the transport.
\<close>

locale transport_writer =
  fixes send :: "outgoing \<Rightarrow> 't \<Rightarrow> (error + bool) \<times> 't"
    and channel :: "'t \<Rightarrow> channel option"
    and secure :: "'t \<Rightarrow> bool"
    and out :: "'t \<Rightarrow> (channel \<times> outgoing) list"
    and decoder :: "'t \<Rightarrow> decoder"
  assumes write_out: "out (snd (send p t)) = out t \<and> \<not> is_ok (fst (send p t))
      \<or> (\<exists>c. channel t = Some c \<and> out (snd (send p t)) = out t @ [(c, p)])"
    and write_channel: "channel (snd (send p t)) = channel t"
    and write_secure: "secure (snd (send p t)) = secure t"
    and write_decoder: "decoder (snd (send p t)) = decoder t"
begin

lemma write_ok: "fst (send p t) = Inr b \<Longrightarrow> \<exists>c. channel t = Some c \<and> out (snd (send p t)) = out t @ [(c, p)]"
  using write_out [of p t] by auto

text \<open>Writes to a transport whose link is encrypted whenever it says so.\<close>

definition honest :: "'t \<Rightarrow> bool" where
  "honest t \<longleftrightarrow> (secure t \<longrightarrow> channel t = Some Encrypted)"

lemma honest_write: "honest t \<Longrightarrow> honest (snd (send p t))"
  by (simp add: honest_def write_channel write_secure)

definition clear_writes :: "'t \<Rightarrow> outgoing set" where
  "clear_writes t = {p. (Clear, p) \<in> set (out t)}"

lemma clear_writes_write:
  "clear_writes (snd (send p t)) \<subseteq> insert p (clear_writes t)"
  "honest t \<Longrightarrow> secure t \<Longrightarrow> clear_writes (snd (send p t)) = clear_writes t"
  using write_out [of p t] by (auto simp: clear_writes_def honest_def)

text \<open>A secure transport that has written nothing in the clear but what is in \<open>W\<close>.\<close>

definition sealed :: "outgoing set \<Rightarrow> 't \<Rightarrow> bool" where
  "sealed W t \<longleftrightarrow> secure t \<and> channel t = Some Encrypted \<and> clear_writes t \<subseteq> W"

lemma sealed_write: "sealed W t \<Longrightarrow> sealed W (snd (send p t))"
  using clear_writes_write(2) [of t p] by (simp add: sealed_def write_channel write_secure honest_def)

lemma out_grows: "\<exists>ps. out (snd (send p t)) = out t @ ps"
  using write_out [of p t] by auto

end

interpretation xt: transport_writer xt_Write xtChannel xtIsSecure xtOut xtDecoder
proof unfold_locales
  fix p and t :: xmpp_transport
  show "xtOut (snd (xt_Write p t)) = xtOut t \<and> \<not> is_ok (fst (xt_Write p t))
      \<or> (\<exists>c. xtChannel t = Some c \<and> xtOut (snd (xt_Write p t)) = xtOut t @ [(c, p)])"
    "xtChannel (snd (xt_Write p t)) = xtChannel t" "xtIsSecure (snd (xt_Write p t)) = xtIsSecure t"
    "xtDecoder (snd (xt_Write p t)) = xtDecoder t"
    by (simp_all add: xt_Write_def split: option.split)
qed

interpretation ws: transport_writer ws_Write "\<lambda>t. Some (ws_channel t)" ws_IsSecure wtOut wtDecoder
proof unfold_locales
  fix p and t :: websocket_transport
  show "wtOut (snd (ws_Write p t)) = wtOut t \<and> \<not> is_ok (fst (ws_Write p t))
      \<or> (\<exists>c. Some (ws_channel t) = Some c \<and> wtOut (snd (ws_Write p t)) = wtOut t @ [(c, p)])"
    "Some (ws_channel (snd (ws_Write p t))) = Some (ws_channel t)" "ws_IsSecure (snd (ws_Write p t)) = ws_IsSecure t"
    "wtDecoder (snd (ws_Write p t)) = wtDecoder t"
    by (simp_all add: ws_Write_def ws_channel_def ws_IsSecure_def split: option.split bool.split)
qed

interpretation tr: transport_writer tr_Write tr_channel tr_IsSecure tr_out tr_GetDecoder
proof unfold_locales
  fix p and t :: transport
  show "tr_out (snd (tr_Write p t)) = tr_out t \<and> \<not> is_ok (fst (tr_Write p t))
      \<or> (\<exists>c. tr_channel t = Some c \<and> tr_out (snd (tr_Write p t)) = tr_out t @ [(c, p)])"
    using xt.write_out ws.write_out by (cases t) simp_all
  show "tr_channel (snd (tr_Write p t)) = tr_channel t" "tr_IsSecure (snd (tr_Write p t)) = tr_IsSecure t"
    "tr_GetDecoder (snd (tr_Write p t)) = tr_GetDecoder t"
    using xt.write_channel xt.write_secure xt.write_decoder ws.write_channel ws.write_secure ws.write_decoder
    by (cases t; simp)+
qed

subsection \<open>Security of the TCP transport\<close>

lemma snd_xt_Close:
  "xtIsSecure (snd (xt_Close t)) = xtIsSecure t" "xtChannel (snd (xt_Close t)) = xtChannel t"
  by (simp_all add: xt_Close_def Let_def xt.write_channel xt.write_secure)

lemma snd_xt_StartStream:
  "xtIsSecure (snd (xt_StartStream t)) = xtIsSecure t" "xtChannel (snd (xt_StartStream t)) = xtChannel t"
proof -
  let ?p = "ORaw (fprintf1 (xtOpenStatement t) (tcDomain (xtConfig t)))"
  obtain r t1 where w: "xt_Write ?p t = (r, t1)" by (cases "xt_Write ?p t")
  have "xtIsSecure t1 = xtIsSecure t" "xtChannel t1 = xtChannel t"
    using xt.write_secure [of ?p t] xt.write_channel [of ?p t] w by simp_all
  then show "xtIsSecure (snd (xt_StartStream t)) = xtIsSecure t" "xtChannel (snd (xt_StartStream t)) = xtChannel t"
    by (simp_all add: xt_StartStream_def w snd_xt_Close split: sum.split)
qed

lemma snd_xt_Ping:
  "xtIsSecure (snd (xt_Ping t)) = xtIsSecure t" "xtChannel (snd (xt_Ping t)) = xtChannel t"
proof -
  obtain r t1 where w: "xt_Write (ORaw [CHR 0x0A]) t = (r, t1)" by (cases "xt_Write (ORaw [CHR 0x0A]) t")
  have "xtIsSecure t1 = xtIsSecure t" "xtChannel t1 = xtChannel t"
    using xt.write_secure [of "ORaw [CHR 0x0A]" t] xt.write_channel [of "ORaw [CHR 0x0A]" t] w by simp_all
  then show "xtIsSecure (snd (xt_Ping t)) = xtIsSecure t" "xtChannel (snd (xt_Ping t)) = xtChannel t"
    by (simp_all add: xt_Ping_def w split: sum.split bool.split)
qed

text \<open>
  Starting TLS succeeds exactly when there is a connection whose handshake succeeds and,
  unless verification is switched off, whose certificate matches the domain; then the transport
  is marked secure and everything written goes through the encrypted connection. A certificate
  that does not match leaves it marked insecure.
\<close>

theorem xt_StartTLS_spec:
  "case xtServer t of
     None \<Rightarrow> fst (xt_StartTLS t) = Inl (Panic ''nil connection'')
   | Some sv \<Rightarrow>
       (case (svHandshake sv, if tcInsecureSkipVerify (xtConfig t) then None else svVerifyHostname sv) of
          (None, None) \<Rightarrow> fst (xt_StartTLS t) = Inr () \<and> xtIsSecure (snd (xt_StartTLS t))
            \<and> xtChannel (snd (xt_StartTLS t)) = Some Encrypted \<and> xtDecoder (snd (xt_StartTLS t)) = svSecure sv
        | (None, Some e) \<Rightarrow> fst (xt_StartTLS t) = Inl e \<and> \<not> xtIsSecure (snd (xt_StartTLS t))
        | (Some e, _) \<Rightarrow> fst (xt_StartTLS t) = Inl e
            \<and> xtIsSecure (snd (xt_StartTLS t)) = xtIsSecure t \<and> xtChannel (snd (xt_StartTLS t)) = xtChannel t)"
  by (auto simp: xt_StartTLS_def Let_def split: option.split)

text \<open>
  Every operation of the TCP transport except \<^verbatim>\<open>Connect\<close> keeps it honest: if it claims to
  be secure, it writes through the encrypted connection.
\<close>

theorem xt_honest:
  assumes "xt.honest t"
  shows "xt.honest (snd (xt_Write p t)) \<and> xt.honest (snd (xt_Close t)) \<and> xt.honest (snd (xt_StartStream t))
    \<and> xt.honest (snd (xt_StartTLS t)) \<and> xt.honest (snd (xt_Ping t)) \<and> xt.honest (xt_ReceivedStreamClose t)"
  using assms
  by (auto simp: xt.honest_def xt.write_channel xt.write_secure snd_xt_Close snd_xt_StartStream snd_xt_Ping
      xt_StartTLS_def xt_ReceivedStreamClose_def Let_def split: option.splits if_splits)

text \<open>A server that answers with a stream header and goes on as the two decoders say.\<close>

definition stream_header :: "xtoken list" where
  "stream_header = [StartElement (XName NSStream ''stream'') [(XName [] ''id'', ''s1'')]]"

definition sample_server :: "xtoken list \<Rightarrow> xtoken list \<Rightarrow> server" where
  "sample_server plain secure =
     \<lparr>svDial = None, svPlain = new_decoder (stream_header @ plain), svHandshake = None, svVerifyHostname = None,
      svSecure = new_decoder secure, svWrite = (\<lambda>_. WOk), svSubprotocol = ''xmpp''\<rparr>"

definition sample_config :: transport_config where
  "sample_config = \<lparr>tcAddress = ''localhost:5222'', tcDomain = ''localhost'', tcConnectTimeout = 15,
     tcServerName = [], tcInsecureSkipVerify = False\<rparr>"

definition sample_transport :: xmpp_transport where
  "sample_transport = new_xmpp_transport clientStreamOpen sample_config [sample_server [] [], sample_server [] []]"

text \<open>The sample after it connected and started TLS.\<close>

definition sample_secure :: xmpp_transport where
  "sample_secure = snd (xt_StartTLS (snd (xt_Connect sample_transport)))"

lemma xtServers_StartStream: "xtServers (snd (xt_StartStream t)) = xtServers t"
  by (auto simp: xt_StartStream_def xt_Write_def xt_Close_def Let_def split: option.split sum.split)

lemma xtServer_StartStream: "xtServer (snd (xt_StartStream t)) = xtServer t"
  by (auto simp: xt_StartStream_def xt_Write_def xt_Close_def Let_def split: option.split sum.split)

lemma sample_secure_props:
  "xtIsSecure sample_secure" "xtChannel sample_secure = Some Encrypted"
  "xtServers sample_secure = [sample_server [] []]"
  by (simp_all add: sample_secure_def sample_transport_def new_xmpp_transport_def sample_server_def xt_Connect_def
      xt_StartTLS_def Let_def xtServer_StartStream xtServers_StartStream)

theorem xt_honest_witness:
  "xt.honest (snd (xt_Write (ORaw ''x'') sample_secure)) \<and> xtIsSecure sample_secure"
  using xt_honest [of sample_secure "ORaw ''x''"] sample_secure_props by (simp add: xt.honest_def)

text \<open>
  \<^verbatim>\<open>Connect\<close> does not: it never resets the flag, so that a transport that was secure before
  claims to be secure on every later connection although it writes in the clear.
\<close>

theorem xt_Connect_keeps_secure:
  assumes "xtServers t = sv # svs" "svDial sv = None"
  shows "xtIsSecure (snd (xt_Connect t)) = xtIsSecure t \<and> xtChannel (snd (xt_Connect t)) = Some Clear"
  using assms by (simp add: xt_Connect_def snd_xt_StartStream)

theorem xt_Connect_keeps_secure_witness:
  "xtIsSecure (snd (xt_Connect sample_secure)) \<and> xtChannel (snd (xt_Connect sample_secure)) = Some Clear"
  using xt_Connect_keeps_secure [of sample_secure "sample_server [] []" "[]"] sample_secure_props
  by (simp add: sample_server_def)

subsection \<open>Closing a websocket\<close>

text \<open>
  Closing a connected websocket transport closes its queue without forgetting it, since
  \<^verbatim>\<open>Close\<close> works on a copy of the struct: closing it a second time panics.
\<close>

theorem ws_Close_twice:
  assumes "wtQueue t = QOpen" "wtConn t" "wtServer t = Some sv"
  shows "\<exists>m. fst (ws_Close (snd (ws_Close t))) = Inl (Panic m)"
proof -
  have "wtQueue (snd (ws_Close t)) = QClosed \<and> wtConn (snd (ws_Close t)) \<and> wtConnClosed (snd (ws_Close t))
      \<and> wtServer (snd (ws_Close t)) = Some sv"
    using assms
    by (cases "svWrite sv (wtWrites t)")
      (auto simp: ws_Close_def ws_Write_def ws_cleanup_def Let_def split: option.split)
  then show ?thesis
    by (simp add: ws_Close_def [of "snd (ws_Close t)"] ws_Write_def [of _ "snd (ws_Close t)"]
        ws_cleanup_def [of _ "snd (ws_Close t)"])
qed

text \<open>The websocket transport after connecting to a server.\<close>

definition sample_websocket :: websocket_transport where
  "sample_websocket = snd (ws_Connect (new_websocket_transport (sample_config\<lparr>tcAddress := ''wss://localhost''\<rparr>)
     [sample_server [] []]))"

lemma InitStream_header:
  "InitStream (new_decoder (stream_header @ ts)) =
     Inr (''s1'', \<lparr>decInput = ts, decErr = IoEOF, decStk = [StkStart (XName NSStream ''stream'')]\<rparr>)"
  by (subst InitStream.simps) (simp add: new_decoder_def stream_header_def attr_of_def)

theorem ws_Close_twice_witness:
  "\<exists>m. fst (ws_Close (snd (ws_Close sample_websocket))) = Inl (Panic m)"
  by (rule ws_Close_twice [where sv = "sample_server [] []"])
    (simp_all add: sample_websocket_def new_websocket_transport_def sample_server_def ws_Connect_def
      ws_StartStream_def ws_Write_def InitStream_header [of "[]", simplified])

subsection \<open>Choosing a transport\<close>

text \<open>
  A client gets a websocket exactly for an address with the scheme \<^verbatim>\<open>ws:\<close> or \<^verbatim>\<open>wss:\<close>;
  a component never does, but an error. A TCP transport starts unconnected and insecure, with an
  address that has a port and the stream header of its kind of client.
\<close>

theorem NewTransport_spec:
  "case NewClientTransport svs cfg of
     WS t \<Rightarrow> (HasPrefix (tcAddress cfg) ''ws:'' \<or> HasPrefix (tcAddress cfg) ''wss:'')
       \<and> \<not> is_ok (NewComponentTransport svs cfg) \<and> wtConfig t = cfg
   | TCP t \<Rightarrow>
       \<not> HasPrefix (tcAddress cfg) ''ws:'' \<and> \<not> HasPrefix (tcAddress cfg) ''wss:''
       \<and> has_port (tcAddress (xtConfig t)) \<and> \<not> xtIsSecure t \<and> xtChannel t = None
       \<and> xtOpenStatement t = clientStreamOpen
       \<and> NewComponentTransport svs cfg = Inr (TCP (t\<lparr>xtOpenStatement := componentStreamOpen\<rparr>))"
  by (auto simp: NewClientTransport_def NewComponentTransport_def new_websocket_transport_def
      new_xmpp_transport_def has_port_ensurePort)

subsection \<open>Logging traffic\<close>

text \<open>
  \<^verbatim>\<open>streamLogger\<close>, over the outcome (count and error) that the socket and the log file give for
  a buffer; the events are the buffers handed to each of them.
\<close>

datatype log_event = ToSocket string | ToLog string

type_synonym writer = "string \<Rightarrow> int \<times> error option"

definition ErrShortWrite :: error where
  "ErrShortWrite = LibErr ''short write''"

fun log_loop :: "(bool \<times> writer) list \<Rightarrow> string \<Rightarrow> (int \<times> error option) \<times> log_event list \<times> bool" where
  "log_loop [] p = ((int (length p), None), [], True)"
| "log_loop ((isSocket, w) # ws) p =
     (let (n, err) = w p; ev = (if isSocket then ToSocket p else ToLog p) in
      if err \<noteq> None then ((n, err), [ev], False)
      else if n \<noteq> int (length p) then ((n, Some ErrShortWrite), [ev], False)
      else (case log_loop ws p of (r, evs, completed) \<Rightarrow> (r, ev # evs, completed)))"

definition streamLogger_Write :: "writer \<Rightarrow> writer \<Rightarrow> string \<Rightarrow> (int \<times> error option) \<times> log_event list" where
  "streamLogger_Write socket logFile p =
     (case log_loop [(True, socket), (False, logFile)] p of
        (r, evs, completed) \<Rightarrow>
          (r, ToLog (''SEND:'' @ [CHR 0x0A]) # evs @ (if completed then [ToLog [CHR 0x0A, CHR 0x0A]] else [])))"

text \<open>\<open>n\<close>, \<open>err\<close> and \<open>data\<close> are what the socket's \<^verbatim>\<open>Read\<close> returns and has put into the buffer.\<close>

definition streamLogger_Read :: "int \<times> error option \<times> string \<Rightarrow> writer \<Rightarrow> (int \<times> error option) \<times> log_event list" where
  "streamLogger_Read sock logFile =
     (case sock of (n, err, data) \<Rightarrow>
        if 0 < n then
          (case logFile data of
             (n', Some e) \<Rightarrow> ((n', Some e), [ToLog (''RECV:'' @ [CHR 0x0A]), ToLog data])
           | (_, None) \<Rightarrow>
               ((n, err), [ToLog (''RECV:'' @ [CHR 0x0A]), ToLog data, ToLog [CHR 0x0A, CHR 0x0A]]))
        else ((n, err), []))"

text \<open>
  With a traffic log, a write hands the buffer to the socket exactly once and unchanged, and
  to the log only after the socket has taken all of it. It succeeds exactly when both take the
  whole buffer, so a full log file makes a write fail that the socket has carried out. A read
  passes on what the socket returned unless the log fails.
\<close>

theorem streamLogger_spec:
  "(case streamLogger_Write socket logFile p of
      ((n, err), evs) \<Rightarrow>
        filter (\<lambda>ev. ev = ToSocket q) evs = (if q = p then [ToSocket p] else [])
        \<and> (ToLog p \<in> set (tl evs) \<or> fst (socket p) \<noteq> int (length p) \<or> snd (socket p) \<noteq> None)
        \<and> (err = None) = (socket p = (int (length p), None) \<and> logFile p = (int (length p), None))
        \<and> (err = None) = (n = int (length p) \<and> err = None))
   \<and> (snd (logFile data) \<noteq> None
       \<or> fst (streamLogger_Read (k, e, data) logFile) = (k, e))"
proof -
  obtain n1 e1 where s: "socket p = (n1, e1)" by (cases "socket p")
  obtain n2 e2 where l: "logFile p = (n2, e2)" by (cases "logFile p")
  show ?thesis
    by (cases "logFile data"; cases "e1 = None"; cases "n1 = int (length p)"; cases "e2 = None";
        cases "n2 = int (length p)")
      (auto simp: streamLogger_Write_def streamLogger_Read_def s l Let_def split: option.split)
qed

theorem streamLogger_spec_witness:
  "fst (streamLogger_Write (\<lambda>p. (int (length p), None)) (\<lambda>p. (0, Some IoEOF)) ''ab'') = (0, Some IoEOF)
   \<and> fst (streamLogger_Read (2, None, ''ab'') (\<lambda>p. (int (length p), None))) = (2, None)"
  using streamLogger_spec [where socket = "\<lambda>p. (int (length p), None)" and logFile = "\<lambda>p. (0, Some IoEOF)"
      and p = "''ab''"]
    streamLogger_spec [where logFile = "\<lambda>p. (int (length p), None)" and data = "''ab''" and k = 2 and e = None]
  by (simp add: streamLogger_Write_def)

subsection \<open>Nothing in the clear\<close>

lemma sealed_updates [simp]:
  "xt.sealed W (t\<lparr>xtCloseChan := k\<rparr>) = xt.sealed W t" "xt.sealed W (t\<lparr>xtClosed := b\<rparr>) = xt.sealed W t"
  "xt.sealed W (t\<lparr>xtDecoder := d\<rparr>) = xt.sealed W t"
  by (simp_all add: xt.sealed_def xt.clear_writes_def)

lemma ws_sealed_updates [simp]:
  "ws.sealed W (u\<lparr>wtDecoder := d\<rparr>) = ws.sealed W u" "ws.sealed W (u\<lparr>wtQueue := q\<rparr>) = ws.sealed W u"
  "ws.sealed W (u\<lparr>wtConn := b\<rparr>) = ws.sealed W u" "ws.sealed W (u\<lparr>wtConnClosed := b\<rparr>) = ws.sealed W u"
  "ws.sealed W (u\<lparr>wtCtx := x\<rparr>) = ws.sealed W u"
  unfolding ws.sealed_def ws.clear_writes_def by (simp_all add: ws_IsSecure_def ws_channel_def)

lemma sealed_xt_Close: "xt.sealed W t \<Longrightarrow> xt.sealed W (snd (xt_Close t))"
  by (simp add: xt_Close_def Let_def xt.sealed_write)

lemma sealed_xt_StartStream: "xt.sealed W t \<Longrightarrow> xt.sealed W (snd (xt_StartStream t))"
  using xt.sealed_write [of W t "ORaw (fprintf1 (xtOpenStatement t) (tcDomain (xtConfig t)))"]
  by (auto simp: xt_StartStream_def sealed_xt_Close split: prod.split sum.split)

lemma sealed_ws_cleanup: "ws.sealed W t \<Longrightarrow> ws.sealed W (snd (ws_cleanup b t))"
  by (simp add: ws_cleanup_def Let_def)

lemma sealed_ws_Close: "ws.sealed W t \<Longrightarrow> ws.sealed W (snd (ws_Close t))"
  using ws.sealed_write [of W t "ORaw ws_close"] by (auto simp: ws_Close_def sealed_ws_cleanup split: prod.split sum.split error.split)

lemma snd_unless_panic: "snd (unless_panic r e) = snd r"
  by (cases r) (auto simp: unless_panic_def split: sum.split error.split)

lemma sealed_ws_StartStream: "ws.sealed W t \<Longrightarrow> ws.sealed W (snd (ws_StartStream t))"
  using ws.sealed_write [of W t "ORaw (fprintf1 ws_open (tcDomain (wtConfig t)))"]
  by (auto simp: ws_StartStream_def sealed_ws_Close sealed_ws_cleanup snd_unless_panic
      split: prod.split sum.split error.split)

lemma tr_sealed [simp]: "tr.sealed W (TCP t) = xt.sealed W t" "tr.sealed W (WS u) = ws.sealed W u"
  unfolding tr.sealed_def xt.sealed_def ws.sealed_def tr.clear_writes_def xt.clear_writes_def ws.clear_writes_def
  by simp_all

text \<open>What the negotiation of a session does to a transport keeps it sealed.\<close>

lemma sealed_operations:
  "keeps (tr.sealed W) (tr_Write p)" "keeps (tr.sealed W) tr_StartStream" "keeps (tr.sealed W) tr_Close"
  "tr.sealed W t \<Longrightarrow> tr.sealed W (tr_set_decoder d t)"
proof -
  show "keeps (tr.sealed W) (tr_Write p)" by (simp add: keeps_def tr.sealed_write)
  show "keeps (tr.sealed W) tr_StartStream"
  proof (unfold keeps_def, intro allI impI)
    fix t assume "tr.sealed W t"
    then show "tr.sealed W (snd (tr_StartStream t))"
      by (cases t) (simp_all add: sealed_xt_StartStream sealed_ws_StartStream)
  qed
  show "keeps (tr.sealed W) tr_Close"
  proof (unfold keeps_def, intro allI impI)
    fix t assume "tr.sealed W t"
    then show "tr.sealed W (snd (tr_Close t))"
      by (cases t) (simp_all add: sealed_xt_Close sealed_ws_Close)
  qed
  show "tr.sealed W t \<Longrightarrow> tr.sealed W (tr_set_decoder d t)" by (cases t) simp_all
qed

end
