(* ===== verification/Auth.thy ===== *)
theory Auth
  imports Transport "HOL-Library.List_Lexorder" "HOL-Library.Char_ord" "HOL-Library.Multiset"
begin

text \<open>
  SASL authentication, \<^verbatim>\<open>auth.go\<close>: the choice of the mechanism, \<^verbatim>\<open>PLAIN\<close> and
  \<^verbatim>\<open>X-OAUTH2\<close>, and the three \<^verbatim>\<open>SCRAM\<close> mechanisms with the check of the downgrade hash.

  Hash functions, HMAC, PBKDF2, the random nonce and the quoting of \<^verbatim>\<open>%q\<close> in error texts are
  not in the repository: they are the fields of the parameter \<open>cr\<close>.
\<close>

unbundle bit_operations_syntax

datatype hash_alg = SHA1 | SHA256 | SHA512

record crypto =
  crHash :: "hash_alg \<Rightarrow> string \<Rightarrow> string"
  crSize :: "hash_alg \<Rightarrow> nat"
  crHmac :: "hash_alg \<Rightarrow> string \<Rightarrow> string \<Rightarrow> string"
  crPbkdf2 :: "hash_alg \<Rightarrow> string \<Rightarrow> string \<Rightarrow> int \<Rightarrow> nat \<Rightarrow> string"
  crRand :: "error + string"
  crQuote :: "string \<Rightarrow> string"

record credential =
  credSecret :: string
  credMechanisms :: "string list"

definition Password :: "string \<Rightarrow> credential" where
  "Password pwd = \<lparr>credSecret = pwd,
     credMechanisms = [''SCRAM-SHA-512'', ''SCRAM-SHA-256'', ''SCRAM-SHA-1'', ''PLAIN'']\<rparr>"

definition OAuthToken :: "string \<Rightarrow> credential" where
  "OAuthToken token = \<lparr>credSecret = token, credMechanisms = [''X-OAUTH2'']\<rparr>"

definition scramIterationCountMinimum :: int where
  "scramIterationCountMinimum = 4096"

subsection \<open>Helpers\<close>

fun isSupportedMech :: "string \<Rightarrow> string list \<Rightarrow> bool" where
  "isSupportedMech mech [] = False"
| "isSupportedMech mech (m # ms) = (mech = m \<or> isSupportedMech mech ms)"

definition scramEscape :: "string \<Rightarrow> string" where
  "scramEscape value =
     concat (map (\<lambda>c. if c = CHR ''='' then ''=3D'' else if c = CHR '','' then ''=2C'' else [c]) value)"

definition scramNonce :: "crypto \<Rightarrow> error + string" where
  "scramNonce cr = bind_result (crRand cr) (\<lambda>buf. Inr (b64_encode buf))"

text \<open>The map of fields; a lookup of an absent key gives the empty string.\<close>

type_synonym scram_fields = "string \<Rightarrow> string option"

definition field :: "scram_fields \<Rightarrow> string \<Rightarrow> string" where
  "field fs k = (case fs k of Some v \<Rightarrow> v | None \<Rightarrow> [])"

fun parse_parts :: "(string \<Rightarrow> string) \<Rightarrow> string list \<Rightarrow> scram_fields \<Rightarrow> error + scram_fields" where
  "parse_parts quoted [] fs = Inr fs"
| "parse_parts quoted (part # parts) fs =
     (if part = [] then Inl (Err ''scram: empty attribute'')
      else
        (case SplitN2 part (CHR ''='') of
           [k, v] \<Rightarrow>
             if fs k \<noteq> None then Inl (Err (''scram: duplicate attribute '' @ quoted k))
             else parse_parts quoted parts (fs(k := Some v))
         | _ \<Rightarrow> Inl (Err ''scram: malformed attribute'')))"

definition parseSCRAMFields :: "(string \<Rightarrow> string) \<Rightarrow> string \<Rightarrow> error + scram_fields" where
  "parseSCRAMFields quoted message = parse_parts quoted (Split message (CHR '','')) (\<lambda>_. None)"

definition in_range :: "char \<Rightarrow> char \<Rightarrow> nat \<Rightarrow> bool" where
  "in_range lo hi r \<longleftrightarrow> of_char lo \<le> r \<and> r \<le> of_char hi"

definition is_rune :: "char \<Rightarrow> nat \<Rightarrow> bool" where
  "is_rune c r \<longleftrightarrow> r = of_char c"

definition isValidSASLMechanismName :: "string \<Rightarrow> bool" where
  "isValidSASLMechanismName name =
     (if name = [] \<or> 20 < length name \<or> in_range (CHR ''0'') (CHR ''9'') (of_char (hd name)) then False
      else list_all (\<lambda>r. in_range (CHR ''A'') (CHR ''Z'') r \<or> in_range (CHR ''0'') (CHR ''9'') r
              \<or> is_rune (CHR ''-'') r \<or> is_rune (CHR ''_'') r)
            (runes name))"

definition isValidChannelBindingName :: "string \<Rightarrow> bool" where
  "isValidChannelBindingName name =
     (if name = [] then False
      else list_all (\<lambda>r. in_range (CHR ''A'') (CHR ''Z'') r \<or> in_range (CHR ''a'') (CHR ''z'') r
              \<or> in_range (CHR ''0'') (CHR ''9'') r \<or> is_rune (CHR ''.'') r \<or> is_rune (CHR ''-'') r)
            (runes name))"

text \<open>
  The first invalid name of a list ends the loop. \<open>channelBindings\<close> is \<open>None\<close> when the server
  sent no such feature (a nil slice).
\<close>

definition scramDowngradeString ::
  "(string \<Rightarrow> string) \<Rightarrow> string list \<Rightarrow> string list option \<Rightarrow> error + string" where
  "scramDowngradeString quoted mechanisms channelBindings =
     (case filter (\<lambda>m. \<not> isValidSASLMechanismName m) mechanisms of
        m # _ \<Rightarrow> Inl (Err (''scram: invalid SASL mechanism name '' @ quoted m))
      | [] \<Rightarrow>
          let mechanismString = Join (sort mechanisms) [CHR 0x1E] in
          (case channelBindings of
             None \<Rightarrow> Inr mechanismString
           | Some bs \<Rightarrow>
               (case filter (\<lambda>b. \<not> isValidChannelBindingName b) bs of
                  b # _ \<Rightarrow> Inl (Err (''scram: invalid channel binding name '' @ quoted b))
                | [] \<Rightarrow> Inr (mechanismString @ [CHR 0x1F] @ Join (sort bs) [CHR 0x1E]))))"

definition verifySCRAMDowngradeHash ::
  "crypto \<Rightarrow> string \<Rightarrow> string list \<Rightarrow> string list option \<Rightarrow> hash_alg \<Rightarrow> error + unit" where
  "verifySCRAMDowngradeHash cr serverHash mechanisms channelBindings h =
     bind_result (scramDowngradeString (crQuote cr) mechanisms channelBindings) (\<lambda>downgradeString.
       let expectedHash = b64_encode (crHash cr h downgradeString) in
       if serverHash \<noteq> expectedHash then Inl (Err ''scram: mismatch in SASL SCRAM downgrade protection'')
       else Inr ())"

definition hmacHash :: "crypto \<Rightarrow> hash_alg \<Rightarrow> string \<Rightarrow> string \<Rightarrow> string" where
  "hmacHash cr h key data = crHmac cr h key data"

definition xor_char :: "char \<Rightarrow> char \<Rightarrow> char" where
  "xor_char a b = char_of (of_char a XOR (of_char b :: nat))"

definition xorBytes :: "string \<Rightarrow> string \<Rightarrow> string" where
  "xorBytes left right = (if length left \<noteq> length right then [] else map2 xor_char left right)"

subsection \<open>The exchange\<close>

text \<open>Reading with the transport's decoder.\<close>

definition tr_read :: "(decoder \<Rightarrow> error + 'a \<times> decoder) \<Rightarrow> (transport, 'a) action" where
  "tr_read f t =
     (case f (tr_GetDecoder t) of
        Inl e \<Rightarrow> (Inl e, t)
      | Inr (v, d) \<Rightarrow> (Inr v, tr_set_decoder d t))"

text \<open>A write that is an error when it writes nothing.\<close>

definition write_some :: "string \<Rightarrow> outgoing \<Rightarrow> (transport, unit) action" where
  "write_some nothing p =
     andThen (tr_Write p) (\<lambda>some. giving (if some then Inr () else Inl (Err nothing)))"

definition sendSASLAuth :: "string \<Rightarrow> string \<Rightarrow> (transport, unit) action" where
  "sendSASLAuth mech payload =
     write_some ''failed to write SASL auth nonza to socket : wrote 0 bytes'' (OSASLAuth mech (b64_encode payload))"

definition sendSASLResponse :: "string \<Rightarrow> (transport, unit) action" where
  "sendSASLResponse payload =
     write_some ''failed to write SASL response nonza to socket : wrote 0 bytes'' (OSASLResponse (b64_encode payload))"

definition readSASLChallenge :: "decoder \<Rightarrow> error + string \<times> decoder" where
  "readSASLChallenge d =
     bind_result (NextStart d) (\<lambda>((n, at), d1).
       if nSpace n \<noteq> NSSASL then Inl (Err ''expected SASL challenge'')
       else if nLocal n = ''challenge'' then decode_struct (decode_inner NSSASL ''challenge'') n at d1
       else if nLocal n = ''failure'' then
         bind_result (decode_struct decode_sasl_failure n at d1)
           (\<lambda>(any, _). Inl (NewConnError (Err (''auth failure: '' @ nLocal any)) True))
       else if nLocal n = ''success'' then
         bind_result (decode_struct (decode_inner NSSASL ''success'') n at d1)
           (\<lambda>_. Inl (Err ''unexpected SASL success without challenge''))
       else Inl (Err (''unexpected SASL element: '' @ nLocal n)))"

fun packet_Name :: "packet \<Rightarrow> string" where
  "packet_Name (PktMessage m) = ''message''"
| "packet_Name (PktPresence p) = ''presence''"
| "packet_Name (PktIQ i) = ''iq''"
| "packet_Name (PktStreamFeatures f) = ''stream:features''"
| "packet_Name (PktStreamError e t) = ''stream:error''"
| "packet_Name PktStreamClose = ''stream:stream''"
| "packet_Name (PktSASLSuccess v) = ''sasl:success''"
| "packet_Name (PktSASLFailure any) = ''sasl:failure''"
| "packet_Name (PktHandshake v) = ''component:handshake''"
| "packet_Name (PktSMEnabled e) = ''Stream Management: enabled''"
| "packet_Name (PktSMResumed r) = ''Stream Management: resumed''"
| "packet_Name (PktSMResume r) = ''Stream Management: resume''"
| "packet_Name PktSMRequest = ''Stream Management: request''"
| "packet_Name (PktSMAnswer h) = ''Stream Management: answer''"
| "packet_Name (PktSMFailed f) = ''Stream Management: failed''"

definition plain_message :: "string \<Rightarrow> string \<Rightarrow> string" where
  "plain_message user secret = [CHR 0x00] @ user @ [CHR 0x00] @ secret"

definition auth_result :: "packet \<Rightarrow> error + unit" where
  "auth_result val =
     (case val of
        PktSASLSuccess v \<Rightarrow> Inr ()
      | PktSASLFailure any \<Rightarrow> Inl (NewConnError (Err (''auth failure: '' @ nLocal any)) True)
      | v \<Rightarrow> Inl (Err (''expected SASL success or failure, got '' @ packet_Name v)))"

definition authPlain :: "codec \<Rightarrow> string \<Rightarrow> string \<Rightarrow> string \<Rightarrow> (transport, unit) action" where
  "authPlain cdc mech user secret =
     andThen (write_some ''failed to write authSASL nonza to socket : wrote 0 bytes''
         (OSASLAuth mech (b64_encode (plain_message user secret))))
       (\<lambda>_. andThen (tr_read (NextPacket cdc)) (\<lambda>val. giving (auth_result val)))"

definition scram_hash :: "string \<Rightarrow> hash_alg" where
  "scram_hash mech =
     (if mech = ''SCRAM-SHA-512'' then SHA512 else if mech = ''SCRAM-SHA-256'' then SHA256 else SHA1)"

definition gs2Header :: string where
  "gs2Header = ''y,,''"

text \<open>
  What \<^verbatim>\<open>authScram\<close> computes from the server's first message: the client's final message
  and, for the check of the server's signature, the message that is authenticated and the salted
  password.
\<close>

record scram_state =
  scFinal :: string
  scAuthMessage :: string
  scSaltedPassword :: string

definition scram_first :: "string \<Rightarrow> string \<Rightarrow> string" where
  "scram_first user clientNonce = ''n='' @ scramEscape user @ '',r='' @ clientNonce"

definition scram_proof ::
  "crypto \<Rightarrow> hash_alg \<Rightarrow> string \<Rightarrow> string \<Rightarrow> string \<Rightarrow> string \<Rightarrow> int \<Rightarrow> string \<Rightarrow> scram_state" where
  "scram_proof cr h clientFirstBare serverFirst secret salt iter serverNonce =
     (let clientFinalWithoutProof = ''c='' @ b64_encode gs2Header @ '',r='' @ serverNonce;
          authMessage = clientFirstBare @ '','' @ serverFirst @ '','' @ clientFinalWithoutProof;
          saltedPassword = crPbkdf2 cr h secret salt iter (crSize cr h);
          clientKey = hmacHash cr h saltedPassword ''Client Key'';
          storedKey = crHash cr h clientKey;
          clientSignature = hmacHash cr h storedKey authMessage;
          clientProof = xorBytes clientKey clientSignature in
      \<lparr>scFinal = clientFinalWithoutProof @ '',p='' @ b64_encode clientProof,
       scAuthMessage = authMessage, scSaltedPassword = saltedPassword\<rparr>)"

definition scram_respond ::
  "crypto \<Rightarrow> hash_alg \<Rightarrow> string list \<Rightarrow> string list option \<Rightarrow> string \<Rightarrow> string \<Rightarrow> string \<Rightarrow> string
     \<Rightarrow> error + scram_state" where
  "scram_respond cr h mechanisms channelBindings clientNonce clientFirstBare secret challenge =
     bind_result (b64_decode challenge) (\<lambda>serverFirst.
       case parseSCRAMFields (crQuote cr) serverFirst of
         Inl e \<Rightarrow> Inl (NewConnError e True)
       | Inr serverFields \<Rightarrow>
           let serverNonce = field serverFields ''r'' in
           if serverNonce = [] \<or> \<not> HasPrefix serverNonce clientNonce
           then Inl (NewConnError (Err ''scram: server nonce missing or invalid'') True)
           else if field serverFields ''m'' \<noteq> []
           then Inl (NewConnError (Err ''scram: server sent reserved m attribute'') True)
           else if field serverFields ''s'' = []
           then Inl (NewConnError (Err ''scram: server salt missing'') True)
           else
             bind_result (b64_decode (field serverFields ''s'')) (\<lambda>salt.
               case Atoi (field serverFields ''i'') of
                 Inl _ \<Rightarrow> Inl (NewConnError (Err ''scram: invalid iteration count'') True)
               | Inr iter \<Rightarrow>
                   if iter < scramIterationCountMinimum
                   then Inl (NewConnError (Err (''scram: weak iteration count '' @ Itoa iter @ '' instead of ''
                          @ Itoa scramIterationCountMinimum)) True)
                   else
                     (case (if field serverFields ''h'' \<noteq> []
                            then verifySCRAMDowngradeHash cr (field serverFields ''h'') mechanisms channelBindings h
                            else Inr ()) of
                        Inl e \<Rightarrow> Inl (NewConnError e True)
                      | Inr _ \<Rightarrow>
                          Inr (scram_proof cr h clientFirstBare serverFirst secret salt iter serverNonce))))"

definition scram_finish :: "crypto \<Rightarrow> hash_alg \<Rightarrow> scram_state \<Rightarrow> packet \<Rightarrow> error + unit" where
  "scram_finish cr h st val =
     (case val of
        PktSASLSuccess v \<Rightarrow>
          if v = [] then Inr ()
          else
            bind_result (b64_decode v) (\<lambda>serverFinal.
              case parseSCRAMFields (crQuote cr) serverFinal of
                Inl e \<Rightarrow> Inl (NewConnError e True)
              | Inr finalFields \<Rightarrow>
                  let errMsg = field finalFields ''e''; serverVerifier = field finalFields ''v'' in
                  if errMsg \<noteq> [] then Inl (NewConnError (Err (''scram auth failure: '' @ errMsg)) True)
                  else if serverVerifier = []
                  then Inl (NewConnError (Err ''scram: missing server verifier'') True)
                  else
                    let serverKey = hmacHash cr h (scSaltedPassword st) ''Server Key'';
                        serverSignature = hmacHash cr h serverKey (scAuthMessage st) in
                    if serverVerifier \<noteq> b64_encode serverSignature
                    then Inl (NewConnError (Err ''scram: server verifier mismatch'') True)
                    else Inr ())
      | PktSASLFailure any \<Rightarrow> Inl (NewConnError (Err (''auth failure: '' @ nLocal any)) True)
      | _ \<Rightarrow> Inl (Err (''expected SASL success or failure, got '' @ packet_Name val)))"

definition authScram ::
  "crypto \<Rightarrow> codec \<Rightarrow> string \<Rightarrow> string list \<Rightarrow> string list option \<Rightarrow> string \<Rightarrow> string \<Rightarrow> (transport, unit) action" where
  "authScram cr cdc mech mechanisms channelBindings user secret =
     (case scramNonce cr of
        Inl e \<Rightarrow> giving (Inl e)
      | Inr clientNonce \<Rightarrow>
          let clientFirstBare = scram_first user clientNonce; h = scram_hash mech in
          andThen (sendSASLAuth mech (gs2Header @ clientFirstBare)) (\<lambda>_.
          andThen (tr_read readSASLChallenge) (\<lambda>challenge.
          andThen (giving (scram_respond cr h mechanisms channelBindings clientNonce clientFirstBare secret challenge))
            (\<lambda>st.
          andThen (sendSASLResponse (scFinal st)) (\<lambda>_.
          andThen (tr_read (NextPacket cdc)) (\<lambda>val. giving (scram_finish cr h st val)))))))"

text \<open>The list in an error text, as \<^verbatim>\<open>%v\<close> prints it.\<close>

definition print_list :: "string list \<Rightarrow> string" where
  "print_list xs = ''['' @ Join xs '' '' @ '']''"

fun matching_mech :: "string list \<Rightarrow> string list \<Rightarrow> string" where
  "matching_mech [] offered = []"
| "matching_mech (mech # mechs) offered = (if isSupportedMech mech offered then mech else matching_mech mechs offered)"

definition authSASL :: "crypto \<Rightarrow> codec \<Rightarrow> stream_features \<Rightarrow> string \<Rightarrow> credential \<Rightarrow> (transport, unit) action" where
  "authSASL cr cdc f user cred =
     (let mech = matching_mech (credMechanisms cred) (sfMechanism f);
          bindings = (if nLocal (sfChannelBindingName f) = [] then None else Some (ChannelBinding_Types f)) in
      if mech = ''SCRAM-SHA-512'' \<or> mech = ''SCRAM-SHA-256'' \<or> mech = ''SCRAM-SHA-1''
      then authScram cr cdc mech (sfMechanism f) bindings user (credSecret cred)
      else if mech = ''PLAIN'' \<or> mech = ''X-OAUTH2''
      then authPlain cdc mech user (credSecret cred)
      else giving (Inl (NewConnError (Err (''no matching authentication ('' @ print_list (credMechanisms cred)
             @ '') supported by server: '' @ print_list (sfMechanism f))) True)))"

subsection \<open>The mechanism\<close>

lemma isSupportedMech_iff [simp]: "isSupportedMech m ms \<longleftrightarrow> m \<in> set ms"
  by (induction ms) auto

text \<open>
  With a password the client takes the strongest SCRAM mechanism that the server offers, and
  \<^verbatim>\<open>PLAIN\<close> only when the server offers no SCRAM; when nothing matches, it writes nothing and
  fails for good.
\<close>

theorem authSASL_password:
  "authSASL cr cdc f user (Password pwd) t =
     (let offered = sfMechanism f;
          bindings = (if nLocal (sfChannelBindingName f) = [] then None else Some (sfChannelBinding f)) in
      if ''SCRAM-SHA-512'' \<in> set offered then authScram cr cdc ''SCRAM-SHA-512'' offered bindings user pwd t
      else if ''SCRAM-SHA-256'' \<in> set offered then authScram cr cdc ''SCRAM-SHA-256'' offered bindings user pwd t
      else if ''SCRAM-SHA-1'' \<in> set offered then authScram cr cdc ''SCRAM-SHA-1'' offered bindings user pwd t
      else if ''PLAIN'' \<in> set offered then authPlain cdc ''PLAIN'' user pwd t
      else (Inl (ConnError (Err (''no matching authentication ([SCRAM-SHA-512 SCRAM-SHA-256 SCRAM-SHA-1 PLAIN])''
             @ '' supported by server: '' @ print_list offered)) True), t))"
  by (simp add: authSASL_def Password_def Let_def ChannelBinding_Types_def NewConnError_def print_list_def)

subsection \<open>Fields\<close>

definition kv_text :: "string \<times> string \<Rightarrow> string" where
  "kv_text kv = fst kv @ CHR ''='' # snd kv"

lemma parse_parts_kvs:
  assumes "\<forall>(k, v) \<in> set kvs. CHR ''='' \<notin> set k" "distinct (map fst kvs)"
    and "\<forall>k \<in> set (map fst kvs). fs k = None"
  shows "parse_parts q (map kv_text kvs) fs = Inr (fs ++ map_of kvs)"
  using assms
proof (induction kvs arbitrary: fs)
  case Nil
  then show ?case by simp
next
  case (Cons kv kvs)
  obtain k v where kv: "kv = (k, v)" by (cases kv)
  have s: "SplitN2 (kv_text kv) (CHR ''='') = [k, v]"
    using Cons.prems(1) kv by (simp add: kv_text_def SplitN2_append)
  have "parse_parts q (map kv_text kvs) (fs(k := Some v)) = Inr (fs(k := Some v) ++ map_of kvs)"
    using Cons.prems kv by (intro Cons.IH) auto
  moreover have "fs(k := Some v) ++ map_of kvs = fs ++ map_of (kv # kvs)"
    using Cons.prems(2) kv
    by (simp add: map_add_upd_left dom_map_of_conv_image_fst)
  moreover have "kv_text kv \<noteq> []" by (simp add: kv_text_def)
  ultimately show ?case
    using Cons.prems(3) kv s by (simp del: map_of.simps)
qed

text \<open>
  Parsing reads back any list of attributes with different names, as long as no name has an
  equals sign or a comma and no value has a comma.
\<close>

theorem parseSCRAMFields_roundtrip:
  assumes "kvs \<noteq> []" "distinct (map fst kvs)"
    and "\<forall>(k, v) \<in> set kvs. CHR ''='' \<notin> set k \<and> CHR '','' \<notin> set k \<and> CHR '','' \<notin> set v"
  shows "parseSCRAMFields q (Join (map kv_text kvs) '','') = Inr (map_of kvs)"
proof -
  have "Split (Join (map kv_text kvs) '','') (CHR '','') = map kv_text kvs"
    using assms(1,3) by (intro Split_Join) (auto simp: kv_text_def list_all_iff)
  then show ?thesis
    using parse_parts_kvs [of kvs "\<lambda>_. None" q] assms(2,3) by (auto simp: parseSCRAMFields_def)
qed

theorem parseSCRAMFields_roundtrip_witness:
  "parseSCRAMFields id ''r=abc,s=QQ==,i=4096'' = Inr (map_of [(''r'', ''abc''), (''s'', ''QQ==''), (''i'', ''4096'')])"
  using parseSCRAMFields_roundtrip [of "[(''r'', ''abc''), (''s'', ''QQ==''), (''i'', ''4096'')]" id]
  by (simp add: kv_text_def)

text \<open>What RFC 5802 lets a server undo: \<open>=2C\<close> and \<open>=3D\<close>; any other equals sign is an error.\<close>

fun scramUnescape :: "string \<Rightarrow> string option" where
  "scramUnescape [] = Some []"
| "scramUnescape (c # cs) =
     (if c \<noteq> CHR ''='' then map_option ((#) c) (scramUnescape cs)
      else
        (case cs of
           a # b # cs' \<Rightarrow>
             if a = CHR ''3'' \<and> b = CHR ''D'' then map_option ((#) (CHR ''='')) (scramUnescape cs')
             else if a = CHR ''2'' \<and> b = CHR ''C'' then map_option ((#) (CHR '','')) (scramUnescape cs')
             else None
         | _ \<Rightarrow> None))"

lemma scramEscape_Cons:
  "scramEscape (c # cs) =
     (if c = CHR ''='' then ''=3D'' else if c = CHR '','' then ''=2C'' else [c]) @ scramEscape cs"
  by (simp add: scramEscape_def)

lemma scramUnescape_Escape: "scramUnescape (scramEscape s) = Some s"
proof (induction s)
  case (Cons c cs)
  then show ?case by (simp add: scramEscape_Cons)
qed (simp add: scramEscape_def)

lemma comma_scramEscape: "CHR '','' \<notin> set (scramEscape s)"
  by (induction s) (auto simp: scramEscape_def)

lemma comma_b64: "CHR '','' \<notin> set (b64_encode s)"
  using b64_encode_chars [of "CHR '',''" s] by (auto simp: b64_val_def)

text \<open>
  The client's first message has exactly the fields for the user and the nonce, whatever
  the user name is, and the server can undo the escaping of the name.
\<close>

theorem scram_first_fields:
  "parseSCRAMFields q (scram_first user (b64_encode buf)) =
     Inr (map_of [(''n'', scramEscape user), (''r'', b64_encode buf)])
   \<and> scramUnescape (scramEscape user) = Some user"
proof -
  have "parse_parts q (map kv_text [(''n'', scramEscape user), (''r'', b64_encode buf)]) (\<lambda>_. None)
      = Inr ((\<lambda>_. None) ++ map_of [(''n'', scramEscape user), (''r'', b64_encode buf)])"
    by (rule parse_parts_kvs) simp_all
  moreover have "Split (scram_first user (b64_encode buf)) (CHR '','')
      = map kv_text [(''n'', scramEscape user), (''r'', b64_encode buf)]"
    using Split_append [of "CHR '',''" "''n='' @ scramEscape user" "''r='' @ b64_encode buf"]
      Split_notin [of "CHR '',''" "''r='' @ b64_encode buf"] comma_scramEscape [of user] comma_b64 [of buf]
    by (simp add: scram_first_def kv_text_def)
  ultimately show ?thesis
    by (simp add: parseSCRAMFields_def scramUnescape_Escape del: map_of.simps)
qed

subsection \<open>The server's first message\<close>

lemma scram_checks:
  "(if a then Inl e1 else if b then Inl e2 else if c then Inl e3
    else bind_result d (\<lambda>salt. case i of Inl _ \<Rightarrow> Inl e4
      | Inr iter \<Rightarrow> if iter < k then Inl (e5 iter)
          else (case v of Inl e \<Rightarrow> Inl (f e) | Inr _ \<Rightarrow> Inr (g salt iter)))) = Inr st \<longleftrightarrow>
   \<not> a \<and> \<not> b \<and> \<not> c \<and> (\<exists>salt iter. d = Inr salt \<and> i = Inr iter \<and> k \<le> iter \<and> v = Inr () \<and> st = g salt iter)"
  for iter k :: int
  by (cases d; cases i; cases v) auto

lemma downgrade_check:
  "(if hash \<noteq> [] then verifySCRAMDowngradeHash cr hash mechs bindings h else Inr ()) = Inr () \<longleftrightarrow>
     hash = [] \<or> (\<exists>ds. scramDowngradeString (crQuote cr) mechs bindings = Inr ds \<and> hash = b64_encode (crHash cr h ds))"
  by (cases "scramDowngradeString (crQuote cr) mechs bindings") (auto simp: verifySCRAMDowngradeHash_def Let_def)

text \<open>
  The client answers a challenge exactly when it is the Base64 text of attributes, without
  the reserved one, whose nonce extends its own, whose salt is the Base64 text of some salt,
  whose iteration count is at least 4096 and whose downgrade hash, if there is one, is that of
  the mechanisms and channel bindings the server advertised; the answer is then the proof for
  these values.
\<close>

theorem scram_respond_accepts:
  "scram_respond cr h mechs bindings nonce bare secret challenge = Inr st \<longleftrightarrow>
     (\<exists>serverFirst fs salt iter.
        b64_decode challenge = Inr serverFirst
        \<and> parseSCRAMFields (crQuote cr) serverFirst = Inr fs
        \<and> field fs ''r'' \<noteq> [] \<and> HasPrefix (field fs ''r'') nonce
        \<and> field fs ''m'' = []
        \<and> field fs ''s'' \<noteq> [] \<and> b64_decode (field fs ''s'') = Inr salt
        \<and> Atoi (field fs ''i'') = Inr iter \<and> 4096 \<le> iter
        \<and> (field fs ''h'' = []
           \<or> (\<exists>ds. scramDowngradeString (crQuote cr) mechs bindings = Inr ds
                 \<and> field fs ''h'' = b64_encode (crHash cr h ds)))
        \<and> st = scram_proof cr h bare serverFirst secret salt iter (field fs ''r''))"
proof (cases "b64_decode challenge")
  case (Inl e)
  then show ?thesis by (simp add: scram_respond_def)
next
  case (Inr serverFirst)
  show ?thesis
  proof (cases "parseSCRAMFields (crQuote cr) serverFirst")
    case (Inl e)
    with Inr show ?thesis by (simp add: scram_respond_def)
  next
    case fs: (Inr fs)
    show ?thesis
      unfolding scram_respond_def Inr bind_result.simps fs sum.case Let_def scram_checks downgrade_check
        scramIterationCountMinimum_def
      by (simp add: fs)
  qed
qed

text \<open>
  Success is accepted exactly when the server's final message carries no error and the
  server's signature over this very exchange, computed from the salted password, or else when
  the success is empty: then the server has proved nothing, although RFC 5802 makes the check of
  its signature mandatory.
\<close>

theorem scram_finish_accepts:
  "scram_finish cr h st val = Inr () \<longleftrightarrow>
     val = PktSASLSuccess []
     \<or> (\<exists>v serverFinal fs. val = PktSASLSuccess v \<and> b64_decode v = Inr serverFinal
          \<and> parseSCRAMFields (crQuote cr) serverFinal = Inr fs \<and> field fs ''e'' = []
          \<and> field fs ''v'' \<noteq> []
          \<and> field fs ''v'' = b64_encode (crHmac cr h (crHmac cr h (scSaltedPassword st) ''Server Key'') (scAuthMessage st)))"
proof (cases val)
  case (PktSASLSuccess v)
  have "parseSCRAMFields q [] = Inl (Err ''scram: empty attribute'')" for q
    by (simp add: parseSCRAMFields_def)
  moreover have "b64_decode [] = Inr []" by (simp add: b64_decode_encode [of "[]", simplified])
  ultimately show ?thesis
    using PktSASLSuccess
    by (cases "b64_decode v"; cases "parseSCRAMFields (crQuote cr) (projr (b64_decode v))")
      (auto simp: scram_finish_def Let_def hmacHash_def)
qed (simp_all add: scram_finish_def)

subsection \<open>The proof of the client\<close>

lemma xor_char_cancel: "xor_char (xor_char a b) b = a"
proof -
  have t: "take_bit 8 (of_char c :: nat) = of_char c" for c
    using byte_less [of c] by (simp add: take_bit_nat_eq_self)
  have "of_char (xor_char a b) = (take_bit 8 (of_char a XOR of_char b) :: nat)"
    by (simp add: xor_char_def take_bit_eq_mod)
  then have "of_char (xor_char a b) = (of_char a XOR of_char b :: nat)"
    by (simp add: take_bit_xor t)
  then show ?thesis
    by (simp add: xor_char_def [of "xor_char a b"] xor.assoc)
qed

lemma xorBytes_cancel: "length k = length s \<Longrightarrow> xorBytes (xorBytes k s) s = k"
  by (simp add: xorBytes_def map2_map_map list_eq_iff_nth_eq xor_char_cancel)

text \<open>
  C26. A server that knows only the stored key (the hash of the client key) can check the proof:
  removing the signature of the exchange from it gives back the client key, whose hash is the
  stored key.
\<close>

theorem scram_proof_verifies:
  fixes cr :: crypto and h :: hash_alg and secret salt bare serverFirst serverNonce :: string and iter :: int
  assumes "\<And>key data. length (crHmac cr h key data) = crSize cr h"
  defines "clientKey \<equiv> crHmac cr h (crPbkdf2 cr h secret salt iter (crSize cr h)) ''Client Key''"
    and "st \<equiv> scram_proof cr h bare serverFirst secret salt iter serverNonce"
  shows "\<exists>p. scFinal st = ''c='' @ b64_encode gs2Header @ '',r='' @ serverNonce @ '',p='' @ b64_encode p
     \<and> xorBytes p (crHmac cr h (crHash cr h clientKey) (scAuthMessage st)) = clientKey"
proof (intro exI conjI)
  let ?p = "xorBytes clientKey (crHmac cr h (crHash cr h clientKey) (scAuthMessage st))"
  show "scFinal st = ''c='' @ b64_encode gs2Header @ '',r='' @ serverNonce @ '',p='' @ b64_encode ?p"
    by (simp add: st_def clientKey_def scram_proof_def Let_def hmacHash_def)
  show "xorBytes ?p (crHmac cr h (crHash cr h clientKey) (scAuthMessage st)) = clientKey"
    using assms(1) by (intro xorBytes_cancel) (simp add: clientKey_def)
qed

text \<open>A sample of the parameters: functions of the right lengths.\<close>

definition sample_crypto :: crypto where
  "sample_crypto =
     \<lparr>crHash = (\<lambda>h s. take 4 (s @ ''hash'')), crSize = (\<lambda>_. 4),
      crHmac = (\<lambda>h key data. take 4 (key @ data @ ''hmac'')),
      crPbkdf2 = (\<lambda>h pwd salt iter n. take n (pwd @ salt @ replicate n (CHR ''k''))),
      crRand = Inr ''random'', crQuote = (\<lambda>s. s)\<rparr>"

theorem scram_proof_verifies_witness:
  "\<exists>p. scFinal (scram_proof sample_crypto SHA1 ''n=u,r=x'' ''r=xy,s=QQ==,i=4096'' ''pw'' ''A'' 4096 ''xy'')
       = ''c='' @ b64_encode gs2Header @ '',r='' @ ''xy'' @ '',p='' @ b64_encode p
     \<and> xorBytes p (crHmac sample_crypto SHA1 (crHash sample_crypto SHA1 ''pwAk'')
          (scAuthMessage (scram_proof sample_crypto SHA1 ''n=u,r=x'' ''r=xy,s=QQ==,i=4096'' ''pw'' ''A'' 4096 ''xy''))) = ''pwAk''"
proof -
  have len: "length (crHmac sample_crypto SHA1 key data) = crSize sample_crypto SHA1" for key data
    by (simp add: sample_crypto_def)
  have key: "crHmac sample_crypto SHA1 (crPbkdf2 sample_crypto SHA1 ''pw'' ''A'' 4096 (crSize sample_crypto SHA1)) ''Client Key'' = ''pwAk''"
    by (simp add: sample_crypto_def eval_nat_numeral)
  show ?thesis
    using scram_proof_verifies [where cr = sample_crypto and h = SHA1 and secret = "''pw''" and salt = "''A''"
        and iter = 4096 and bare = "''n=u,r=x''" and serverFirst = "''r=xy,s=QQ==,i=4096''" and serverNonce = "''xy''",
        OF len] unfolding key .
qed

subsection \<open>Downgrade protection\<close>

lemma set_Join: "set (Join xs sep) \<subseteq> (\<Union>x \<in> set xs. set x) \<union> set sep"
  by (induction xs sep rule: Join.induct) auto

lemma Join_inj:
  assumes "Join xs [c] = Join ys [c]"
    and "\<forall>x \<in> set xs. x \<noteq> [] \<and> c \<notin> set x" "\<forall>y \<in> set ys. y \<noteq> [] \<and> c \<notin> set y"
  shows "xs = ys"
proof -
  have s: "Split (Join zs [c]) c = zs" if "zs \<noteq> []" "\<forall>z \<in> set zs. z \<noteq> [] \<and> c \<notin> set z" for zs
    using that by (intro Split_Join) (auto simp: list_all_iff)
  have e: "zs = []" if "Join zs [c] = []" "\<forall>z \<in> set zs. z \<noteq> []" for zs
    using that by (cases "(zs, [c])" rule: Join.cases) auto
  show ?thesis
  proof (cases "xs = [] \<or> ys = []")
    case True
    then show ?thesis using assms e by (metis Join.simps(1))
  next
    case False
    then show ?thesis using assms s by metis
  qed
qed

definition separator :: "char \<Rightarrow> bool" where
  "separator c \<longleftrightarrow> c = CHR 0x1E \<or> c = CHR 0x1F"

lemma valid_names_no_separator:
  assumes "isValidSASLMechanismName s \<or> isValidChannelBindingName s" "separator c"
  shows "s \<noteq> [] \<and> c \<notin> set s"
proof -
  have "(of_char c :: nat) \<notin> set (runes s)"
    using assms
    by (auto simp: isValidSASLMechanismName_def isValidChannelBindingName_def list_all_iff separator_def
        in_range_def is_rune_def split: if_splits)
  moreover have "(of_char c :: nat) < 128" using assms(2) by (auto simp: separator_def)
  ultimately have "c \<notin> set s" using ascii_in_runes by blast
  then show ?thesis
    using assms(1) by (auto simp: isValidSASLMechanismName_def isValidChannelBindingName_def)
qed

definition downgrade_text :: "string list \<Rightarrow> string list option \<Rightarrow> string" where
  "downgrade_text ms bs =
     Join (sort ms) [CHR 0x1E]
     @ (case bs of None \<Rightarrow> [] | Some b \<Rightarrow> CHR 0x1F # Join (sort b) [CHR 0x1E])"

definition valid_names :: "string list \<Rightarrow> string list option \<Rightarrow> bool" where
  "valid_names ms bs \<longleftrightarrow> list_all isValidSASLMechanismName ms
     \<and> (case bs of None \<Rightarrow> True | Some b \<Rightarrow> list_all isValidChannelBindingName b)"

lemma first_invalid:
  "(case filter (\<lambda>x. \<not> P x) xs of m # _ \<Rightarrow> Inl (e m) | [] \<Rightarrow> r) = Inr s \<longleftrightarrow> list_all P xs \<and> r = Inr s"
  by (induction xs) auto

lemma scramDowngradeString_Inr:
  "scramDowngradeString q ms bs = Inr s \<longleftrightarrow> valid_names ms bs \<and> s = downgrade_text ms bs"
  by (cases bs) (auto simp: scramDowngradeString_def first_invalid valid_names_def downgrade_text_def Let_def)

lemma sorted_Join_inj:
  assumes "Join (sort xs) [CHR 0x1E] = Join (sort ys) [CHR 0x1E]"
    and "\<forall>x \<in> set xs \<union> set ys. isValidSASLMechanismName x \<or> isValidChannelBindingName x"
  shows "mset xs = mset ys"
proof -
  have "sort xs = sort ys"
    using assms(2) valid_names_no_separator [of _ "CHR 0x1E"]
    by (intro Join_inj [OF assms(1)]) (auto simp: separator_def)
  then show ?thesis by (metis mset_sort)
qed

lemma no_separator_Join:
  "\<forall>x \<in> set xs. isValidSASLMechanismName x \<or> isValidChannelBindingName x \<Longrightarrow>
     CHR 0x1F \<notin> set (Join (sort xs) [CHR 0x1E])"
  using set_Join [of "sort xs" "[CHR 0x1E]"] valid_names_no_separator [of _ "CHR 0x1F"]
  by (auto simp: separator_def)

lemma downgrade_head:
  assumes "CHR 0x1F \<notin> set (Join (sort ms) [CHR 0x1E])"
  shows "takeWhile (\<lambda>c. c \<noteq> CHR 0x1F) (downgrade_text ms bs) = Join (sort ms) [CHR 0x1E]"
proof (cases bs)
  case None
  with assms show ?thesis by (simp add: downgrade_text_def takeWhile_eq_all_conv) metis
next
  case (Some y)
  then show ?thesis using assms by (simp add: downgrade_text_def, subst takeWhile_append_stop) auto
qed

lemma downgrade_text_msets:
  assumes "valid_names ms bs" "valid_names ms' bs'" "downgrade_text ms bs = downgrade_text ms' bs'"
  shows "mset ms = mset ms' \<and> map_option mset bs = map_option mset bs'"
proof
  have n: "CHR 0x1F \<notin> set (Join (sort ms) [CHR 0x1E])" "CHR 0x1F \<notin> set (Join (sort ms') [CHR 0x1E])"
    using assms(1,2) by (auto simp: valid_names_def list_all_iff intro!: no_separator_Join)
  have m: "\<forall>x \<in> set ms \<union> set ms'. isValidSASLMechanismName x \<or> isValidChannelBindingName x"
    using assms(1,2) by (auto simp: valid_names_def list_all_iff)
  have j: "Join (sort ms) [CHR 0x1E] = Join (sort ms') [CHR 0x1E]"
    using downgrade_head [OF n(1), of bs] downgrade_head [OF n(2), of bs'] assms(3) by simp
  then show "mset ms = mset ms'" using m by (rule sorted_Join_inj)
  show "map_option mset bs = map_option mset bs'"
  proof (cases "bs = None \<or> bs' = None")
    case True
    then show ?thesis using assms(3) j unfolding downgrade_text_def by (cases bs; cases bs') simp_all
  next
    case False
    then obtain b b' where b: "bs = Some b" "bs' = Some b'" by (cases bs; cases bs') auto
    have "Join (sort b) [CHR 0x1E] = Join (sort b') [CHR 0x1E]"
      using assms(3) j unfolding downgrade_text_def b by simp
    moreover have "\<forall>x \<in> set b \<union> set b'. isValidSASLMechanismName x \<or> isValidChannelBindingName x"
      using assms(1,2) b by (auto simp: valid_names_def list_all_iff)
    ultimately have "mset b = mset b'" by (rule sorted_Join_inj)
    with b show ?thesis by simp
  qed
qed

lemma downgrade_text_eq:
  assumes "mset ms = mset ms'" "map_option mset bs = map_option mset bs'"
  shows "downgrade_text ms bs = downgrade_text ms' bs'"
proof -
  have srt: "sort xs = sort ys" if "mset xs = mset ys" for xs ys :: "string list"
    using that by (intro properties_for_sort) simp_all
  have "map_option sort bs = map_option sort bs'"
    using assms(2) by (cases bs; cases bs') (auto intro: srt)
  then have "(case bs of None \<Rightarrow> [] | Some b \<Rightarrow> CHR 0x1F # Join (sort b) [CHR 0x1E])
      = (case bs' of None \<Rightarrow> [] | Some b \<Rightarrow> CHR 0x1F # Join (sort b) [CHR 0x1E])"
    by (cases bs; cases bs') simp_all
  then show ?thesis using srt [OF assms(1)] unfolding downgrade_text_def by simp
qed

text \<open>
  The text that the downgrade hash covers determines the offered mechanisms and the channel
  bindings (whether there were any, and which) up to their order, and does not depend on their
  order: with a collision-free hash no list can be changed, shortened or dropped unnoticed.
\<close>

theorem scramDowngradeString_inj:
  assumes "scramDowngradeString q ms bs = Inr s" "scramDowngradeString q' ms' bs' = Inr s'"
  shows "s = s' \<longleftrightarrow> mset ms = mset ms' \<and> map_option mset bs = map_option mset bs'"
  using assms downgrade_text_msets [of ms bs ms' bs'] downgrade_text_eq [of ms ms' bs bs']
  by (auto simp: scramDowngradeString_Inr)

theorem scramDowngradeString_inj_witness:
  "scramDowngradeString id [''SCRAM-SHA-1'', ''PLAIN''] None \<noteq> scramDowngradeString id [''PLAIN''] None"
proof -
  have v: "scramDowngradeString id [''SCRAM-SHA-1'', ''PLAIN''] None = Inr (downgrade_text [''SCRAM-SHA-1'', ''PLAIN''] None)"
    "scramDowngradeString id [''PLAIN''] None = Inr (downgrade_text [''PLAIN''] None)"
    by (simp_all add: scramDowngradeString_Inr valid_names_def isValidSASLMechanismName_def runes_ascii is_ascii_def
        in_range_def is_rune_def)
  from scramDowngradeString_inj [OF v] show ?thesis unfolding v by simp
qed

subsection \<open>Complete exchanges\<close>

text \<open>A TCP transport on a live connection whose writes succeed.\<close>

definition xt_ready :: "channel \<Rightarrow> xmpp_transport \<Rightarrow> bool" where
  "xt_ready ch t \<longleftrightarrow> xtChannel t = Some ch \<and> \<not> xtClosed t
     \<and> (\<exists>sv. xtServer t = Some sv \<and> (\<forall>k. svWrite sv k = WOk))"

definition wrote :: "channel \<Rightarrow> outgoing \<Rightarrow> xmpp_transport \<Rightarrow> xmpp_transport" where
  "wrote ch p t = t\<lparr>xtWrites := Suc (xtWrites t), xtOut := xtOut t @ [(ch, p)]\<rparr>"

lemma xt_Write_ready: "xt_ready ch t \<Longrightarrow> xt_Write p t = (Inr True, wrote ch p t)"
  by (auto simp: xt_ready_def xt_Write_def wrote_def write_outcome_def)

lemma xt_ready_wrote [simp]: "xt_ready ch (wrote ch' p t) = xt_ready ch t"
  by (simp add: xt_ready_def wrote_def)

lemma xt_ready_decoder [simp]: "xt_ready ch (t\<lparr>xtDecoder := d\<rparr>) = xt_ready ch t"
  by (simp add: xt_ready_def)

lemma wrote_simps [simp]:
  "xtDecoder (wrote ch p t) = xtDecoder t" "xtOut (wrote ch p t) = xtOut t @ [(ch, p)]"
  "xtOut (t\<lparr>xtDecoder := d\<rparr>) = xtOut t"
  by (simp_all add: wrote_def)

lemma write_some_ready: "xt_ready ch t \<Longrightarrow> write_some e p (TCP t) = (Inr (), TCP (wrote ch p t))"
  by (simp add: write_some_def andThen_def xt_Write_ready)

definition sasl_elem :: "string \<Rightarrow> string \<Rightarrow> xml" where
  "sasl_elem l v = Elem (XName NSSASL l) [] [Text v]"

lemma NextStart_elem:
  assumes "not_at_eof stk"
  shows "NextStart (after (xml_tokens (Elem n at kids) @ rest) stk d) = Inr ((n, at), inside kids n rest stk d)"
proof -
  have "Token (after (xml_tokens (Elem n at kids) @ rest) stk d) = Inr (StartElement n at, inside kids n rest stk d)"
    using assms by (simp add: after_def inside_def)
  then show ?thesis by (subst NextStart.simps) simp
qed

lemma readSASLChallenge_elem:
  "not_at_eof stk \<Longrightarrow> readSASLChallenge (after (xml_tokens (sasl_elem ''challenge'' c) @ rest) stk d) = Inr (c, after rest stk d)"
  by (simp add: readSASLChallenge_def sasl_elem_def NextStart_elem decode_struct_tree decode_inner_def
      expect_name_def elem_text_def del: xml_tokens.simps)

lemma NextPacket_success:
  "not_at_eof stk \<Longrightarrow>
     NextPacket cdc (after (xml_tokens (sasl_elem ''success'' v) @ rest) stk d) = Inr (PktSASLSuccess v, after rest stk d)"
  by (simp add: NextPacket_def sasl_elem_def NextXmppToken_elem decode_struct_tree decode_inner_def
      expect_name_def elem_text_def decode_packet_def decodeSASL_def as_packet_def ns_defs del: xml_tokens.simps)

lemma authScram_run:
  assumes "xt_ready ch t" "crRand cr = Inr buf" "not_at_eof stk"
    and "xtDecoder t = after (xml_tokens (sasl_elem ''challenge'' c) @ xml_tokens (sasl_elem ''success'' v) @ rest) stk d"
    and "scram_respond cr (scram_hash mech) ms bs (b64_encode buf) (scram_first user (b64_encode buf)) secret c = Inr st"
  shows "\<exists>t'. authScram cr cdc mech ms bs user secret (TCP t) = (scram_finish cr (scram_hash mech) st (PktSASLSuccess v), TCP t')
    \<and> xtOut t' = xtOut t
       @ [(ch, OSASLAuth mech (b64_encode (gs2Header @ scram_first user (b64_encode buf)))),
          (ch, OSASLResponse (b64_encode (scFinal st)))]
    \<and> xtDecoder t' = after rest stk d"
  using assms
  by (simp add: authScram_def scramNonce_def andThen_def sendSASLAuth_def sendSASLResponse_def write_some_ready
      tr_read_def readSASLChallenge_elem NextPacket_success Let_def)

text \<open>The first message of a server that follows RFC 5802.\<close>

definition server_first :: "string \<Rightarrow> string \<Rightarrow> int \<Rightarrow> string" where
  "server_first nonce salt iter =
     Join (map kv_text [(''r'', nonce), (''s'', b64_encode salt), (''i'', Itoa iter)]) '',''"

lemma parse_server_first:
  assumes "CHR '','' \<notin> set nonce"
  shows "parseSCRAMFields q (server_first nonce salt iter) =
    Inr (map_of [(''r'', nonce), (''s'', b64_encode salt), (''i'', Itoa iter)])"
proof -
  have i: "CHR '','' \<notin> set (Itoa iter)"
    using nat_string_chars by (auto simp: Itoa_def)
  let ?kvs = "[(''r'', nonce), (''s'', b64_encode salt), (''i'', Itoa iter)]"
  have "Split (Join (map kv_text ?kvs) '','') (CHR '','') = map kv_text ?kvs"
    using assms i comma_b64 by (intro Split_Join) (auto simp: kv_text_def)
  moreover have "parse_parts q (map kv_text ?kvs) (\<lambda>_. None) = Inr ((\<lambda>_. None) ++ map_of ?kvs)"
    by (rule parse_parts_kvs) simp_all
  ultimately show ?thesis
    by (simp add: parseSCRAMFields_def server_first_def del: map_of.simps list.map)
qed

lemma scram_respond_honest:
  assumes "CHR '','' \<notin> set ext" "salt \<noteq> []" "4096 \<le> iter" "iter \<le> int_max" "buf \<noteq> []"
  shows "scram_respond cr h ms bs (b64_encode buf) bare secret (b64_encode (server_first (b64_encode buf @ ext) salt iter))
     = Inr (scram_proof cr h bare (server_first (b64_encode buf @ ext) salt iter) secret salt iter (b64_encode buf @ ext))"
proof -
  have "CHR '','' \<notin> set (b64_encode buf @ ext)" using assms(1) comma_b64 by simp
  note parse = parse_server_first [OF this]
  have "int_min \<le> iter" using assms(3) by (simp add: int_min_def)
  then have a: "Atoi (Itoa iter) = Inr iter" using assms(4) by (intro Atoi_Itoa)
  show ?thesis
    unfolding scram_respond_def b64_decode_encode bind_result.simps parse sum.case Let_def
    using assms(2,3,5) a
    by (simp add: field_def HasPrefix_def b64_decode_encode scramIterationCountMinimum_def)
qed

text \<open>
  C15. With a server that follows RFC 5802 and knows the same password, the exchange succeeds. The
  client writes exactly its two messages, the second one with its proof, and reads exactly the
  server's two.
\<close>

theorem authScram_honest:
  assumes "xt_ready ch t" "crRand cr = Inr buf" "not_at_eof stk" "buf \<noteq> []"
    and "CHR '','' \<notin> set ext" "salt \<noteq> []" "4096 \<le> iter" "iter \<le> int_max"
    and sig: "\<And>h key data. crHmac cr h key data \<noteq> []"
    and st_def: "st = scram_proof cr (scram_hash mech) (scram_first user (b64_encode buf))
      (server_first (b64_encode buf @ ext) salt iter) secret salt iter (b64_encode buf @ ext)"
    and dec: "xtDecoder t = after (
       xml_tokens (sasl_elem ''challenge'' (b64_encode (server_first (b64_encode buf @ ext) salt iter)))
       @ xml_tokens (sasl_elem ''success'' (b64_encode (''v='' @ b64_encode
           (crHmac cr (scram_hash mech) (crHmac cr (scram_hash mech) (scSaltedPassword st) ''Server Key'') (scAuthMessage st)))))
       @ rest) stk d"
  shows "\<exists>t'. authScram cr cdc mech ms bs user secret (TCP t) = (Inr (), TCP t')
    \<and> xtOut t' = xtOut t
       @ [(ch, OSASLAuth mech (b64_encode (gs2Header @ scram_first user (b64_encode buf)))),
          (ch, OSASLResponse (b64_encode (scFinal st)))]
    \<and> xtDecoder t' = after rest stk d"
proof -
  let ?sig = "crHmac cr (scram_hash mech) (crHmac cr (scram_hash mech) (scSaltedPassword st) ''Server Key'') (scAuthMessage st)"
  have "scram_respond cr (scram_hash mech) ms bs (b64_encode buf) (scram_first user (b64_encode buf)) secret
      (b64_encode (server_first (b64_encode buf @ ext) salt iter)) = Inr st"
    unfolding st_def by (rule scram_respond_honest) (use assms in simp_all)
  note run = authScram_run [OF assms(1-3) dec this]
  have "Split (kv_text (''v'', b64_encode ?sig)) (CHR '','') = map kv_text [(''v'', b64_encode ?sig)]"
    using comma_b64 by (simp add: kv_text_def Split_notin)
  moreover have "parse_parts q (map kv_text [(''v'', b64_encode ?sig)]) (\<lambda>_. None) = Inr ((\<lambda>_. None) ++ map_of [(''v'', b64_encode ?sig)])" for q
    by (rule parse_parts_kvs) simp_all
  ultimately have "parseSCRAMFields q (''v='' @ b64_encode ?sig) = Inr (map_of [(''v'', b64_encode ?sig)])" for q
    by (simp add: parseSCRAMFields_def kv_text_def del: map_of.simps)
  then have "scram_finish cr (scram_hash mech) st (PktSASLSuccess (b64_encode (''v='' @ b64_encode ?sig))) = Inr ()"
    using sig by (simp add: scram_finish_def b64_decode_encode field_def hmacHash_def Let_def)
  with run show ?thesis by simp
qed

text \<open>
  C27. A server that knows nothing about the password gets the client to authenticate all the
  same: any salt, a large enough iteration count and an empty success are enough.
\<close>

theorem authScram_unverified:
  assumes "xt_ready ch t" "crRand cr = Inr buf" "not_at_eof stk" "buf \<noteq> []"
    and "CHR '','' \<notin> set ext" "salt \<noteq> []" "4096 \<le> iter" "iter \<le> int_max"
    and "xtDecoder t = after (
       xml_tokens (sasl_elem ''challenge'' (b64_encode (server_first (b64_encode buf @ ext) salt iter)))
       @ xml_tokens (sasl_elem ''success'' []) @ rest) stk d"
  shows "fst (authScram cr cdc mech ms bs user secret (TCP t)) = Inr ()"
proof -
  have r: "scram_respond cr (scram_hash mech) ms bs (b64_encode buf) (scram_first user (b64_encode buf)) secret
      (b64_encode (server_first (b64_encode buf @ ext) salt iter))
      = Inr (scram_proof cr (scram_hash mech) (scram_first user (b64_encode buf))
      (server_first (b64_encode buf @ ext) salt iter) secret salt iter (b64_encode buf @ ext))"
    by (rule scram_respond_honest) (use assms in simp_all)
  from authScram_run [OF assms(1-3,9) r, of cdc] show ?thesis
    by (auto simp: scram_finish_def)
qed

text \<open>A connected transport that will read the given tokens, and an ordinary exchange over it.\<close>

definition sample_reader :: "channel \<Rightarrow> xtoken list \<Rightarrow> xmpp_transport" where
  "sample_reader ch ts =
     (new_xmpp_transport clientStreamOpen sample_config [])
       \<lparr>xtConn := True, xtChannel := Some ch, xtServer := Some (sample_server [] []), xtDecoder := after ts [] no_decoder\<rparr>"

lemma sample_reader_ready: "xt_ready ch (sample_reader ch ts)" "xtDecoder (sample_reader ch ts) = after ts [] no_decoder"
  "xtOut (sample_reader ch ts) = []"
  by (simp_all add: sample_reader_def xt_ready_def new_xmpp_transport_def sample_server_def)

definition sample_proof :: scram_state where
  "sample_proof = scram_proof sample_crypto SHA1 (scram_first ''juliet'' (b64_encode ''random''))
     (server_first (b64_encode ''random'' @ ''xyz'') ''salt'' 4096) ''secret'' ''salt'' 4096 (b64_encode ''random'' @ ''xyz'')"

lemma sample_crypto_rand: "crRand sample_crypto = Inr ''random''" "crHmac sample_crypto h key data \<noteq> []"
  by (simp_all add: sample_crypto_def)

lemma iteration_in_range: "(4096 :: int) \<le> int_max"
  by (simp add: int_max_def)

theorem authScram_honest_witness:
  "\<exists>t ts. xt_ready Encrypted t \<and> xtDecoder t = after ts [] no_decoder \<and> xtOut t = []
     \<and> fst (authScram sample_crypto package_codec ''SCRAM-SHA-1'' [''SCRAM-SHA-1''] None ''juliet'' ''secret'' (TCP t)) = Inr ()"
proof -
  let ?sn = "b64_encode ''random'' @ ''xyz''"
  let ?ts = "xml_tokens (sasl_elem ''challenge'' (b64_encode (server_first ?sn ''salt'' 4096)))
       @ xml_tokens (sasl_elem ''success'' (b64_encode (''v='' @ b64_encode
           (crHmac sample_crypto SHA1 (crHmac sample_crypto SHA1 (scSaltedPassword sample_proof) ''Server Key'') (scAuthMessage sample_proof))))) @ []"
  have h: "scram_hash ''SCRAM-SHA-1'' = SHA1" by (simp add: scram_hash_def)
  have p: "sample_proof = scram_proof sample_crypto (scram_hash ''SCRAM-SHA-1'') (scram_first ''juliet'' (b64_encode ''random''))
     (server_first ?sn ''salt'' 4096) ''secret'' ''salt'' 4096 ?sn"
    by (simp add: sample_proof_def h)
  have "fst (authScram sample_crypto package_codec ''SCRAM-SHA-1'' [''SCRAM-SHA-1''] None ''juliet'' ''secret''
      (TCP (sample_reader Encrypted ?ts))) = Inr ()"
    using authScram_honest [where stk = "[]" and d = no_decoder and rest = "[]" and t = "sample_reader Encrypted ?ts"
          and ext = "''xyz''" and salt = "''salt''" and mech = "''SCRAM-SHA-1''",
        OF sample_reader_ready(1) sample_crypto_rand(1) _ _ _ _ _ iteration_in_range sample_crypto_rand(2) p,
        of package_codec "[''SCRAM-SHA-1'']" None]
    unfolding h by (auto simp: sample_reader_ready simp del: b64_encode.simps)
  then show ?thesis using sample_reader_ready by blast
qed

theorem authScram_unverified_witness:
  "\<exists>t ts. xt_ready Encrypted t \<and> xtDecoder t = after ts [] no_decoder
     \<and> fst (authScram sample_crypto package_codec ''SCRAM-SHA-1'' [''SCRAM-SHA-1''] None ''juliet'' ''secret'' (TCP t)) = Inr ()"
proof -
  let ?sn = "b64_encode ''random'' @ ''xyz''"
  let ?ts = "xml_tokens (sasl_elem ''challenge'' (b64_encode (server_first ?sn ''A'' 4096)))
       @ xml_tokens (sasl_elem ''success'' []) @ []"
  have "fst (authScram sample_crypto package_codec ''SCRAM-SHA-1'' [''SCRAM-SHA-1''] None ''juliet'' ''secret''
      (TCP (sample_reader Encrypted ?ts))) = Inr ()"
    by (rule authScram_unverified [where ext = "''xyz''" and salt = "''A''" and stk = "[]" and rest = "[]" and d = no_decoder,
          OF sample_reader_ready(1) sample_crypto_rand(1) _ _ _ _ _ iteration_in_range])
      (simp_all add: sample_reader_ready)
  then show ?thesis using sample_reader_ready by blast
qed

end
