(* ===== verification/UnAckQueue.thy ===== *)
theory UnAckQueue
  imports Prelude
begin

text \<open>
  The queue of stanzas that stream management (XEP-0198) has not seen acknowledged:
  \<^verbatim>\<open>UnAckQueue\<close> of \<^verbatim>\<open>stanza/stream_management.go\<close> against the interface \<^verbatim>\<open>FifoQueue\<close> of
  \<^verbatim>\<open>stanza/fifo_queue.go\<close>, and the loop that drops acknowledged stanzas, which
  \<^verbatim>\<open>Session.resume\<close> and \<^verbatim>\<open>SendMissingStz\<close> share.

  A \<^verbatim>\<open>*UnAckQueue\<close> is \<open>unack_queue option\<close> (\<open>None\<close> is the nil pointer, which every method
  accepts); a method that changes the queue returns it. \<^verbatim>\<open>Uslice\<close> holds pointers, none of
  them nil, as the comment of \<^verbatim>\<open>NewUnAckQueue\<close> promises.
\<close>

subsection \<open>The data\<close>

record unacked_stz =
  uId :: goint
  uStz :: string

record unack_queue =
  Uslice :: "unacked_stz list"

text \<open>A \<^verbatim>\<open>Queueable\<close> is an \<^verbatim>\<open>*UnAckedStz\<close> or a value of another type with that method.\<close>

datatype queueable = QStz unacked_stz | QOther string

definition NewUnAckQueue :: unack_queue where
  "NewUnAckQueue = \<lparr>Uslice = []\<rparr>"

subsection \<open>The operations\<close>

definition UnAckQueue_PeekN :: "goint \<Rightarrow> unack_queue option \<Rightarrow> unacked_stz list" where
  "UnAckQueue_PeekN n uaq =
     (case uaq of
        None \<Rightarrow> []
      | Some q \<Rightarrow>
          if n \<le>s 0 then []
          else let n' = (if int (length (Uslice q)) < sint n then length (Uslice q) else nat (sint n)) in
            if length (Uslice q) = 0 then [] else take n' (Uslice q))"

definition UnAckQueue_Peek :: "unack_queue option \<Rightarrow> unacked_stz option" where
  "UnAckQueue_Peek uaq =
     (case uaq of
        None \<Rightarrow> None
      | Some q \<Rightarrow> (case Uslice q of [] \<Rightarrow> None | r # _ \<Rightarrow> Some r))"

definition UnAckQueue_Pop :: "unack_queue option \<Rightarrow> unacked_stz option \<times> unack_queue option" where
  "UnAckQueue_Pop uaq =
     (case uaq of
        None \<Rightarrow> (None, None)
      | Some q \<Rightarrow>
          (case UnAckQueue_Peek uaq of
             None \<Rightarrow> (None, Some q)
           | Some r \<Rightarrow> (Some r, Some (q\<lparr>Uslice := drop 1 (Uslice q)\<rparr>))))"

definition UnAckQueue_PopN :: "goint \<Rightarrow> unack_queue option \<Rightarrow> unacked_stz list \<times> unack_queue option" where
  "UnAckQueue_PopN n uaq =
     (case uaq of
        None \<Rightarrow> ([], None)
      | Some q \<Rightarrow>
          let r = UnAckQueue_PeekN n uaq in
          (r, Some (q\<lparr>Uslice := drop (length r) (Uslice q)\<rparr>)))"

definition UnAckQueue_Push :: "queueable \<Rightarrow> unack_queue option \<Rightarrow> error + unack_queue option" where
  "UnAckQueue_Push s uaq =
     (case uaq of
        None \<Rightarrow> Inr None
      | Some q \<Rightarrow>
          let pushIdx = (if length (Uslice q) \<noteq> 0 then uId (last (Uslice q)) + 1 else 1) in
          (case s of
             QOther _ \<Rightarrow> Inl (Err ''element in not compatible with this queue. expected an UnAckedStz'')
           | QStz stz \<Rightarrow>
               Inr (Some (q\<lparr>Uslice := Uslice q @ [\<lparr>uId = pushIdx, uStz = uStz stz\<rparr>]\<rparr>))))"

definition UnAckQueue_Empty :: "unack_queue option \<Rightarrow> bool" where
  "UnAckQueue_Empty uaq = (case uaq of None \<Rightarrow> True | Some q \<Rightarrow> length (Uslice q) = 0)"

text \<open>
  The loop on \<^verbatim>\<open>ackIdx\<close>, from \<open>i\<close> on: it stops at the end of the slice or at the first
  identifier above \<^verbatim>\<open>h\<close>, which the server reports in \<^verbatim>\<open><a/>\<close> and \<^verbatim>\<open><resumed/>\<close>.
\<close>

fun ack_idx :: "unacked_stz list \<Rightarrow> goint \<Rightarrow> nat" where
  "ack_idx [] h = 0"
| "ack_idx (u # us) h = (if uId u \<le>s h then Suc (ack_idx us h) else 0)"

definition drop_acked :: "goint \<Rightarrow> unack_queue \<Rightarrow> unack_queue" where
  "drop_acked h q = q\<lparr>Uslice := drop (ack_idx (Uslice q) h) (Uslice q)\<rparr>"

lemma drop_ack_idx: "drop (ack_idx us h) us = dropWhile (\<lambda>u. uId u \<le>s h) us"
  by (induction us h rule: ack_idx.induct) auto

declare NewUnAckQueue_def [model_defs] UnAckQueue_PeekN_def [model_defs] UnAckQueue_Peek_def [model_defs]
  UnAckQueue_Pop_def [model_defs] UnAckQueue_PopN_def [model_defs] UnAckQueue_Push_def [model_defs]
  UnAckQueue_Empty_def [model_defs] drop_acked_def [model_defs]

subsection \<open>The interface FifoQueue\<close>

text \<open>
  The contract that the comments of \<^verbatim>\<open>FifoQueue\<close> state, over the contents of the queue in
  order of insertion.
\<close>

locale fifo_queue =
  fixes contents :: "'q \<Rightarrow> 'a list"
    and push :: "'a \<Rightarrow> 'q \<Rightarrow> 'q"
    and pop :: "'q \<Rightarrow> 'a option \<times> 'q"
    and popn :: "goint \<Rightarrow> 'q \<Rightarrow> 'a list \<times> 'q"
    and peek :: "'q \<Rightarrow> 'a option"
    and peekn :: "goint \<Rightarrow> 'q \<Rightarrow> 'a list"
    and empty :: "'q \<Rightarrow> bool"
  assumes contents_push: "contents (push x q) = contents q @ [x]"
    and pop_nil: "contents q = [] \<Longrightarrow> fst (pop q) = None \<and> contents (snd (pop q)) = []"
    and pop_cons: "contents q = x # xs \<Longrightarrow> fst (pop q) = Some x \<and> contents (snd (pop q)) = xs"
    and peek_pop: "peek q = fst (pop q)"
    and peekn_popn: "peekn n q = fst (popn n q)"
    and popn_take: "fst (popn n q) = take (nat (sint n)) (contents q)"
    and popn_drop: "contents (snd (popn n q)) = drop (nat (sint n)) (contents q)"
    and empty_contents: "empty q \<longleftrightarrow> contents q = []"
begin

lemma popn_splits: "fst (popn n q) @ contents (snd (popn n q)) = contents q"
  by (simp add: popn_take popn_drop)

lemma peek_contents: "peek q = (case contents q of [] \<Rightarrow> None | x # _ \<Rightarrow> Some x)"
  by (cases "contents q") (simp_all add: peek_pop pop_nil pop_cons)

lemma contents_push_all: "contents (fold push xs q) = contents q @ xs"
  by (induction xs arbitrary: q) (simp_all add: contents_push)

lemma pop_after_push_all:
  "contents q = [] \<Longrightarrow> fst (pop (fold push (x # xs) q)) = Some x"
  using pop_cons contents_push_all [of "x # xs" q] by simp

lemma popn_after_push_all:
  "contents q = [] \<Longrightarrow> 0 \<le> sint n \<Longrightarrow> nat (sint n) = length xs \<Longrightarrow>
     fst (popn n (fold push (xs @ ys) q)) = xs \<and> contents (snd (popn n (fold push (xs @ ys) q))) = ys"
  by (simp add: popn_take popn_drop contents_push_all del: fold_append)

lemma popn_Suc:
  assumes "sint n = sint m + 1" "0 \<le> sint m" "contents q \<noteq> []"
  shows "fst (popn n q) = the (fst (pop q)) # fst (popn m (snd (pop q)))"
    and "contents (snd (popn n q)) = contents (snd (popn m (snd (pop q))))"
proof -
  obtain x xs where q: "contents q = x # xs" using assms(3) by (cases "contents q") auto
  have n: "nat (sint n) = Suc (nat (sint m))" using assms(1,2) by linarith
  show "fst (popn n q) = the (fst (pop q)) # fst (popn m (snd (pop q)))"
    "contents (snd (popn n q)) = contents (snd (popn m (snd (pop q))))"
    using pop_cons [OF q] by (simp_all add: popn_take popn_drop n q)
qed

lemma peek_pure: "peek q = Some x \<Longrightarrow> \<exists>xs. contents q = x # xs \<and> fst (pop q) = Some x"
  by (cases "contents q") (auto simp: peek_pop pop_nil pop_cons)

end

text \<open>
  The model's queue provides the contract for the texts of the stanzas. The interpretation
  works on a queue that is not nil (\<open>Some\<close>), the only one that can hold anything.
\<close>

definition uaq_contents :: "unack_queue \<Rightarrow> string list" where
  "uaq_contents q = map uStz (Uslice q)"

definition uaq_push :: "string \<Rightarrow> unack_queue \<Rightarrow> unack_queue" where
  "uaq_push s q =
     (case UnAckQueue_Push (QStz \<lparr>uId = 0, uStz = s\<rparr>) (Some q) of Inr (Some q') \<Rightarrow> q' | _ \<Rightarrow> q)"

definition uaq_pop :: "unack_queue \<Rightarrow> string option \<times> unack_queue" where
  "uaq_pop q = (case UnAckQueue_Pop (Some q) of (r, q') \<Rightarrow> (map_option uStz r, the q'))"

definition uaq_popn :: "goint \<Rightarrow> unack_queue \<Rightarrow> string list \<times> unack_queue" where
  "uaq_popn n q = (case UnAckQueue_PopN n (Some q) of (r, q') \<Rightarrow> (map uStz r, the q'))"

definition uaq_peek :: "unack_queue \<Rightarrow> string option" where
  "uaq_peek q = map_option uStz (UnAckQueue_Peek (Some q))"

definition uaq_peekn :: "goint \<Rightarrow> unack_queue \<Rightarrow> string list" where
  "uaq_peekn n q = map uStz (UnAckQueue_PeekN n (Some q))"

lemmas uaq_defs = uaq_contents_def uaq_push_def uaq_pop_def uaq_popn_def uaq_peek_def uaq_peekn_def

lemma PeekN_take: "UnAckQueue_PeekN n (Some q) = take (nat (sint n)) (Uslice q)"
  by (auto simp: UnAckQueue_PeekN_def Let_def word_sle_eq)

lemma drop_length_take: "drop (length (take n xs)) xs = drop n xs"
  by (cases "n \<le> length xs") simp_all

lemma Push_Some:
  "UnAckQueue_Push (QStz z) (Some q) =
     Inr (Some (q\<lparr>Uslice := Uslice q @
       [\<lparr>uId = (if Uslice q = [] then 1 else uId (last (Uslice q)) + 1), uStz = uStz z\<rparr>]\<rparr>))"
  by (simp add: UnAckQueue_Push_def)

interpretation uaq: fifo_queue uaq_contents uaq_push uaq_pop uaq_popn uaq_peek uaq_peekn
  "\<lambda>q. UnAckQueue_Empty (Some q)"
proof unfold_locales
  fix x q
  show "uaq_contents (uaq_push x q) = uaq_contents q @ [x]"
    by (simp add: uaq_defs Push_Some)
next
  fix q
  assume "uaq_contents q = []"
  then show "fst (uaq_pop q) = None \<and> uaq_contents (snd (uaq_pop q)) = []"
    by (simp add: uaq_defs UnAckQueue_Pop_def UnAckQueue_Peek_def)
next
  fix q x xs
  assume "uaq_contents q = x # xs"
  then show "fst (uaq_pop q) = Some x \<and> uaq_contents (snd (uaq_pop q)) = xs"
    by (auto simp: uaq_defs UnAckQueue_Pop_def UnAckQueue_Peek_def map_eq_Cons_conv)
next
  fix q
  show "uaq_peek q = fst (uaq_pop q)"
    by (simp add: uaq_defs UnAckQueue_Pop_def split: option.splits)
next
  fix n q
  show "uaq_peekn n q = fst (uaq_popn n q)"
    "fst (uaq_popn n q) = take (nat (sint n)) (uaq_contents q)"
    by (simp_all add: uaq_defs UnAckQueue_PopN_def PeekN_take take_map Let_def)
  show "uaq_contents (snd (uaq_popn n q)) = drop (nat (sint n)) (uaq_contents q)"
    by (simp add: uaq_defs UnAckQueue_PopN_def PeekN_take Let_def drop_map drop_length_take
        del: length_take)
next
  fix q
  show "UnAckQueue_Empty (Some q) \<longleftrightarrow> uaq_contents q = []"
    by (simp add: uaq_defs UnAckQueue_Empty_def)
qed

text \<open>
  C28. The queue is first in, first out: after any sequence of pushes into a new queue,
  \<^verbatim>\<open>PopN(n)\<close> returns the first \<open>n\<close> stanzas in the order they were pushed (all of them when there
  are fewer, none for \<open>n \<le> 0\<close>) and leaves exactly the others, and \<^verbatim>\<open>Pop\<close> and \<^verbatim>\<open>Peek\<close> give
  the first one.
\<close>

theorem UnAckQueue_fifo:
  "uaq_popn n (fold uaq_push xs NewUnAckQueue) =
     (take (nat (sint n)) xs, snd (uaq_popn n (fold uaq_push xs NewUnAckQueue)))
   \<and> uaq_contents (snd (uaq_popn n (fold uaq_push xs NewUnAckQueue))) = drop (nat (sint n)) xs
   \<and> fst (uaq_pop (fold uaq_push xs NewUnAckQueue)) = (case xs of [] \<Rightarrow> None | x # _ \<Rightarrow> Some x)
   \<and> uaq_contents (snd (uaq_pop (fold uaq_push xs NewUnAckQueue))) = tl xs
   \<and> uaq_peek (fold uaq_push xs NewUnAckQueue) = fst (uaq_pop (fold uaq_push xs NewUnAckQueue))"
proof -
  have c: "uaq_contents (fold uaq_push xs NewUnAckQueue) = xs"
    using uaq.contents_push_all [of xs NewUnAckQueue] by (simp add: uaq_contents_def NewUnAckQueue_def)
  then show ?thesis
    by (cases xs)
      (simp_all add: prod_eq_iff uaq.popn_take uaq.popn_drop uaq.peek_pop uaq.pop_nil uaq.pop_cons)
qed

subsection \<open>Identifiers\<close>

text \<open>The stanzas \<open>ss\<close>, numbered one by one from \<open>k\<close> on.\<close>

fun numbered :: "nat \<Rightarrow> string list \<Rightarrow> unacked_stz list" where
  "numbered k [] = []"
| "numbered k (s # ss) = \<lparr>uId = word_of_nat k, uStz = s\<rparr> # numbered (Suc k) ss"

lemma length_numbered [simp]: "length (numbered k ss) = length ss"
  by (induction ss arbitrary: k) auto

lemma numbered_Nil_iff [simp]: "numbered k ss = [] \<longleftrightarrow> ss = []"
  by (cases ss) auto

lemma map_uStz_numbered [simp]: "map uStz (numbered k ss) = ss"
  by (induction ss arbitrary: k) auto

lemma numbered_append: "numbered k (xs @ ys) = numbered k xs @ numbered (k + length xs) ys"
  by (induction xs arbitrary: k) auto

lemma drop_numbered: "drop i (numbered k ss) = numbered (k + i) (drop i ss)"
proof (induction i arbitrary: k ss)
  case (Suc i)
  then show ?case by (cases ss) auto
qed simp

lemma uId_last_numbered: "ss \<noteq> [] \<Longrightarrow> uId (last (numbered k ss)) = word_of_nat (k + length ss - 1)"
  by (induction ss arbitrary: k) (auto simp: add.commute)

lemma sint_of_nat_goint: "k < 2 ^ 63 \<Longrightarrow> sint (word_of_nat k :: goint) = int k"
  using sint_goint_of_int [of "int k"] by simp

lemma unat_goint_of_nat: "k < 2 ^ 64 \<Longrightarrow> unat (word_of_nat k :: goint) = k"
  by (simp add: unat_of_nat take_bit_nat_eq_self)

lemma ack_idx_numbered:
  "k + length ss \<le> 2 ^ 63 \<Longrightarrow> ack_idx (numbered k ss) h = min (length ss) (nat (sint h + 1 - int k))"
proof (induction ss arbitrary: k)
  case (Cons s ss)
  have "sint (word_of_nat k :: goint) = int k"
    using Cons.prems by (intro sint_of_nat_goint) simp
  then show ?case
    using Cons.IH [of "Suc k"] Cons.prems by (auto simp: word_sle_eq min_def; linarith)
qed simp

text \<open>
  The well-formed queues: their identifiers are consecutive, from 1 at least, and stay in
  the range of a Go \<^verbatim>\<open>int\<close>.
\<close>

definition uaq_inv :: "unack_queue \<Rightarrow> bool" where
  "uaq_inv q \<longleftrightarrow>
     Uslice q = numbered (unat (uId (hd (Uslice q)))) (map uStz (Uslice q))
     \<and> (Uslice q = [] \<or> 1 \<le> unat (uId (hd (Uslice q)))
          \<and> unat (uId (hd (Uslice q))) + length (Uslice q) \<le> 2 ^ 63)"

lemma uaq_invI: "Uslice q = numbered k ss \<Longrightarrow> 1 \<le> k \<Longrightarrow> k + length ss \<le> 2 ^ 63 \<Longrightarrow> uaq_inv q"
  by (cases ss) (auto simp: uaq_inv_def unat_goint_of_nat)

lemma uaq_invE:
  assumes "uaq_inv q"
  obtains k ss where "Uslice q = numbered k ss" "1 \<le> k" "k + length ss \<le> 2 ^ 63"
proof (cases "Uslice q = []")
  case True
  then show thesis using that [of 1 "[]"] by simp
next
  case False
  with assms show thesis
    using that [of "unat (uId (hd (Uslice q)))" "map uStz (Uslice q)"] by (simp add: uaq_inv_def)
qed

lemma uaq_inv_New: "uaq_inv NewUnAckQueue"
  by (simp add: uaq_inv_def NewUnAckQueue_def)

lemma uaq_inv_drop: "uaq_inv q \<Longrightarrow> uaq_inv (q\<lparr>Uslice := drop i (Uslice q)\<rparr>)"
proof (cases "i < length (Uslice q)")
  case True
  assume "uaq_inv q"
  then obtain k ss where "Uslice q = numbered k ss" "1 \<le> k" "k + length ss \<le> 2 ^ 63"
    by (rule uaq_invE)
  with True show ?thesis
    by (intro uaq_invI [of _ "k + i" "drop i ss"]) (auto simp: drop_numbered)
qed (simp add: uaq_inv_def)

lemma Push_numbered:
  assumes "Uslice q = numbered k ss" "ss = [] \<Longrightarrow> k = 1" "1 \<le> k"
  shows "UnAckQueue_Push (QStz z) (Some q) = Inr (Some (q\<lparr>Uslice := numbered k (ss @ [uStz z])\<rparr>))"
proof (cases "ss = []")
  case True
  with assms show ?thesis by (simp add: Push_Some)
next
  case False
  then have "uId (last (numbered k ss)) + 1 = word_of_nat (k + length ss)"
    using assms(3) by (cases ss) (simp_all add: uId_last_numbered del: numbered.simps)
  with False assms(1) show ?thesis by (simp add: Push_Some numbered_append)
qed

text \<open>
  Every operation keeps the identifiers of the queue consecutive and positive: a push
  gives the next identifier (as long as a Go \<^verbatim>\<open>int\<close> can count), and popping and dropping
  acknowledged stanzas keep the rest as it was.
\<close>

theorem UnAckQueue_invariant:
  assumes "uaq_inv q" "Uslice q = [] \<or> sint (uId (last (Uslice q))) < 2 ^ 63 - 1"
  shows "(\<exists>q'. UnAckQueue_Push (QStz z) (Some q) = Inr (Some q') \<and> uaq_inv q'
              \<and> uaq_contents q' = uaq_contents q @ [uStz z])
    \<and> (\<exists>q'. snd (UnAckQueue_Pop (Some q)) = Some q' \<and> uaq_inv q')
    \<and> (\<exists>q'. snd (UnAckQueue_PopN n (Some q)) = Some q' \<and> uaq_inv q')
    \<and> uaq_inv (drop_acked h q)"
proof (intro conjI)
  obtain k ss where q: "Uslice q = numbered k ss" "1 \<le> k" "k + length ss \<le> 2 ^ 63"
    using assms(1) by (rule uaq_invE)
  show "\<exists>q'. UnAckQueue_Push (QStz z) (Some q) = Inr (Some q') \<and> uaq_inv q'
      \<and> uaq_contents q' = uaq_contents q @ [uStz z]"
  proof (cases "ss = []")
    case True
    then show ?thesis
      using q Push_numbered [of q 1 "[]"] uaq_invI [of _ 1 "[uStz z]"] by (auto simp: uaq_contents_def)
  next
    case False
    then have "sint (uId (last (Uslice q))) = int (k + length ss - 1)"
      unfolding q(1) by (subst uId_last_numbered) (use q in \<open>auto intro!: sint_of_nat_goint simp del: of_nat_diff\<close>)
    then have "k + length (ss @ [uStz z]) \<le> 2 ^ 63"
      using assms(2) q(1,2) False by auto
    then have "uaq_inv (q\<lparr>Uslice := numbered k (ss @ [uStz z])\<rparr>)"
      using q(2) uaq_invI [of _ k "ss @ [uStz z]"] by simp
    then show ?thesis
      using Push_numbered [OF q(1) _ q(2), of z] False q(1) by (auto simp: uaq_contents_def)
  qed
  show "\<exists>q'. snd (UnAckQueue_Pop (Some q)) = Some q' \<and> uaq_inv q'"
    using assms(1) uaq_inv_drop [OF assms(1), of 1]
    by (auto simp: UnAckQueue_Pop_def split: option.split)
  show "\<exists>q'. snd (UnAckQueue_PopN n (Some q)) = Some q' \<and> uaq_inv q'"
    using uaq_inv_drop [OF assms(1)] by (auto simp: UnAckQueue_PopN_def Let_def)
  show "uaq_inv (drop_acked h q)"
    using uaq_inv_drop [OF assms(1)] by (simp add: drop_acked_def)
qed

lemma drop_acked_filter:
  assumes "uaq_inv q"
  shows "Uslice (drop_acked h q) = filter (\<lambda>u. sint h < sint (uId u)) (Uslice q)"
proof -
  obtain k ss where q: "Uslice q = numbered k ss" "k + length ss \<le> 2 ^ 63"
    using assms by (rule uaq_invE)
  have "sorted_wrt (\<lambda>x y. uId y \<le>s h \<longrightarrow> uId x \<le>s h) (numbered k ss)"
    using q(2)
  proof (induction ss arbitrary: k)
    case (Cons s ss)
    have "\<forall>u \<in> set (numbered j ss). sint (uId u) \<ge> int k" if "k < j" "j + length ss \<le> 2 ^ 63" for j
      using that
    proof (induction ss arbitrary: j)
      case (Cons t ts)
      then show ?case using Cons.IH [of "Suc j"] by (auto simp: sint_of_nat_goint)
    qed simp
    from this [of "Suc k"] Cons show ?case
      by (fastforce simp: word_sle_eq sint_of_nat_goint)
  qed simp
  then show ?thesis
    by (simp add: drop_acked_def drop_ack_idx filter_sorted_dropWhile q(1) word_sle_eq not_le)
qed

text \<open>
  On a well-formed queue, the acknowledgement loop removes exactly the stanzas whose
  identifier is at most the count the server reports, and keeps the others in order.
\<close>

theorem drop_acked_spec:
  assumes "uaq_inv q"
  shows "Uslice (drop_acked h q) = filter (\<lambda>u. sint h < sint (uId u)) (Uslice q)"
  using assms by (rule drop_acked_filter)

text \<open>A concrete queue of three stanzas whose first one was acknowledged.\<close>

definition sample_queue :: unack_queue where
  "sample_queue = \<lparr>Uslice = [\<lparr>uId = 2, uStz = ''b''\<rparr>, \<lparr>uId = 3, uStz = ''c''\<rparr>]\<rparr>"

lemma uaq_inv_sample: "uaq_inv sample_queue"
  by (simp add: uaq_inv_def sample_queue_def)

theorem UnAckQueue_invariant_witness:
  "uaq_inv sample_queue
   \<and> (\<exists>q'. UnAckQueue_Push (QStz \<lparr>uId = 0, uStz = ''d''\<rparr>) (Some sample_queue) = Inr (Some q') \<and> uaq_inv q'
         \<and> uaq_contents q' = [''b'', ''c'', ''d''])"
  using UnAckQueue_invariant [OF uaq_inv_sample, of "\<lparr>uId = 0, uStz = ''d''\<rparr>" 0 0] uaq_inv_sample
  by (simp add: sample_queue_def uaq_contents_def)

theorem drop_acked_spec_witness:
  "map uStz (Uslice (drop_acked 2 sample_queue)) = [''c'']"
  using drop_acked_spec [OF uaq_inv_sample, of 2] by (simp add: sample_queue_def)

subsection \<open>Sending and acknowledging\<close>

text \<open>
  What happens to the queue during a session: the client sends (and queues) a stanza, or the
  server reports how many stanzas of the client it has handled so far (XEP-0198 counts them
  from the start of the session).
\<close>

datatype sm_event = Sent string | Acked goint

definition sm_event_step :: "sm_event \<Rightarrow> unack_queue \<Rightarrow> unack_queue" where
  "sm_event_step e q =
     (case e of
        Sent s \<Rightarrow> uaq_push s q
      | Acked h \<Rightarrow> drop_acked h q)"

definition sm_run :: "sm_event list \<Rightarrow> unack_queue" where
  "sm_run es = fold sm_event_step es NewUnAckQueue"

fun sent_of :: "sm_event list \<Rightarrow> string list" where
  "sent_of [] = []"
| "sent_of (Sent s # es) = s # sent_of es"
| "sent_of (Acked h # es) = sent_of es"

text \<open>The acknowledgements of a run, each with the number of stanzas sent before it.\<close>

fun acks_of :: "nat \<Rightarrow> sm_event list \<Rightarrow> (goint \<times> nat) list" where
  "acks_of n [] = []"
| "acks_of n (Sent s # es) = acks_of (Suc n) es"
| "acks_of n (Acked h # es) = (h, n) # acks_of n es"


lemma uaq_push_numbered:
  "Uslice q = numbered k ss \<Longrightarrow> (ss = [] \<Longrightarrow> k = 1) \<Longrightarrow> 1 \<le> k \<Longrightarrow>
     Uslice (uaq_push s q) = numbered k (ss @ [s])"
  by (simp add: uaq_push_def Push_numbered)

lemma drop_acked_numbered:
  "Uslice q = numbered (Suc k) ss \<Longrightarrow> Suc k + length ss \<le> 2 ^ 63 \<Longrightarrow> nat (sint h) - k \<le> length ss \<Longrightarrow>
     Uslice (drop_acked h q) = numbered (Suc (max k (nat (sint h)))) (drop (nat (sint h) - k) ss)"
proof -
  assume q: "Uslice q = numbered (Suc k) ss" "Suc k + length ss \<le> 2 ^ 63" "nat (sint h) - k \<le> length ss"
  have "nat (sint h + 1 - int (Suc k)) = nat (sint h) - k" by linarith
  with q have "ack_idx (Uslice q) h = nat (sint h) - k"
    by (simp add: ack_idx_numbered del: of_nat_Suc)
  then show ?thesis
    using q(1) by (simp add: drop_acked_def drop_numbered max_def)
qed

text \<open>
  The run from a queue that holds the stanzas after the first \<open>k\<close> of those sent so far.
\<close>

lemma sm_run_from:
  assumes "Uslice q = numbered (Suc k) (drop k pre)" "k < length pre \<or> k = 0"
    "length pre + length (sent_of es) < 2 ^ 63"
    "\<forall>(h, n) \<in> set (acks_of (length pre) es). nat (sint h) < n \<or> nat (sint h) = 0"
  shows "Uslice (fold sm_event_step es q) =
     (let m = fold max (map (\<lambda>(h, n). nat (sint h)) (acks_of (length pre) es)) k in
      numbered (Suc m) (drop m (pre @ sent_of es)))"
  using assms
proof (induction es arbitrary: q pre k)
  case Nil
  then show ?case by simp
next
  case (Cons e es)
  show ?case
  proof (cases e)
    case (Sent s)
    have "Uslice (uaq_push s q) = numbered (Suc k) (drop k (pre @ [s]))"
      using Cons.prems(1,2) by (subst uaq_push_numbered [of q "Suc k" "drop k pre"]) auto
    then show ?thesis
      using Cons.IH [of "uaq_push s q" k "pre @ [s]"] Cons.prems(2-4) Sent
      by (auto simp: sm_event_step_def)
  next
    case (Acked h)
    let ?m = "max k (nat (sint h))"
    have h: "nat (sint h) < length pre \<or> nat (sint h) = 0"
      using Cons.prems(4) Acked by auto
    then have "Uslice (drop_acked h q) = numbered (Suc ?m) (drop ?m pre)"
      using Cons.prems(2,3)
      by (subst drop_acked_numbered [OF Cons.prems(1)]) (auto simp: max_def intro!: arg_cong2 [where f = numbered])
    moreover have "?m < length pre \<or> ?m = 0"
      using h Cons.prems(2) by (auto simp: max_def)
    ultimately have "Uslice (fold sm_event_step es (drop_acked h q)) =
       (let m = fold max (map (\<lambda>(h, n). nat (sint h)) (acks_of (length pre) es)) ?m in
        numbered (Suc m) (drop m (pre @ sent_of es)))"
      using Cons.prems(3,4) Acked by (intro Cons.IH) simp_all
    then show ?thesis
      by (simp add: Acked sm_event_step_def [of "Acked h"] Let_def max.commute)
  qed
qed



lemma sm_run_sent: "Uslice (sm_run (map Sent xs)) = numbered 1 xs" if "length xs < 2 ^ 63"
proof -
  have [simp]: "sent_of (map Sent xs) = xs" "acks_of n (map Sent xs) = []" for n
    by (induction xs arbitrary: n) auto
  show ?thesis using sm_run_from [of NewUnAckQueue 0 "[]" "map Sent xs"] that
    by (simp add: sm_run_def NewUnAckQueue_def)
qed

text \<open>
  Once the server has acknowledged every stanza, the queue is empty and numbering starts
  again from 1, while the count of the server goes on. The stanza sent next is then dropped by
  the next report although the server has not handled it: with \<open>n\<close> stanzas sent and handled,
  a further stanza \<open>y\<close> and the report \<open>n\<close> again, nothing is left to retransmit.
\<close>

theorem sm_run_loses:
  assumes "xs \<noteq> []" "length xs < 2 ^ 63"
  defines "n \<equiv> word_of_nat (length xs)"
  shows "uaq_contents (sm_run (map Sent xs @ [Acked n, Sent y])) = [y]
     \<and> uaq_contents (sm_run (map Sent xs @ [Acked n, Sent y, Acked n])) = []"
proof -
  have n: "sint n = int (length xs)"
    using assms(2) by (simp add: n_def sint_of_nat_goint)
  let ?q = "drop_acked n (sm_run (map Sent xs))"
  have q: "Uslice ?q = []"
    using drop_acked_numbered [of "sm_run (map Sent xs)" 0 xs n] sm_run_sent [OF assms(2)] assms(2) n
    by simp
  have p: "Uslice (uaq_push y ?q) = [\<lparr>uId = 1, uStz = y\<rparr>]"
    using uaq_push_numbered [of ?q 1 "[]" y] q by simp
  have "1 \<le> sint n" using assms(1) n by (cases xs) auto
  then have "Uslice (drop_acked n (uaq_push y ?q)) = []"
    using p by (simp add: drop_acked_def word_sle_eq)
  with p show ?thesis
    by (simp add: sm_run_def sm_event_step_def uaq_contents_def)
qed

theorem sm_run_loses_witness:
  "uaq_contents (sm_run [Sent ''a'', Acked 1, Sent ''b'']) = [''b'']
   \<and> uaq_contents (sm_run [Sent ''a'', Acked 1, Sent ''b'', Acked 1]) = []"
  using sm_run_loses [of "[''a'']" "''b''"] by simp

end
