(* ===== verification/Session.thy ===== *)
theory Session
  imports Auth UnAckQueue Jid
begin

text \<open>
  \<^verbatim>\<open>session.go\<close>: the negotiation of a session over a connected transport - features, TLS,
  authentication, resumption, resource binding, stream management - with the configuration
  of \<^verbatim>\<open>config.go\<close> and the stream management state of \<^verbatim>\<open>client.go\<close>.

  A method of \<^verbatim>\<open>*Session\<close> is an \<open>action\<close> on the session, the transport it shares with the
  client, and the configuration, whose field \<^verbatim>\<open>StreamManagementResume\<close> it may clear. Go's
  methods report through the field \<^verbatim>\<open>err\<close>, so an action itself fails only with a panic.
\<close>

subsection \<open>The data\<close>

record config =
  cfTransport :: transport_config
  cfJid :: string
  cfParsedJid :: "jid option"
  cfCredential :: credential
  cfStreamLogger :: bool
  cfLang :: string
  cfKeepaliveInterval :: int
  cfConnectTimeout :: int
  cfInsecure :: bool
  cfStreamManagementEnable :: bool
  cfStreamManagementResume :: bool

record sm_state =
  smsId :: string
  smsInbound :: gouint
  smsPreferredReconAddr :: string
  smsStreamErrorGroup :: "stanza_error_group option"
  smsUnAckQueue :: "unack_queue option"

definition zero_sm_state :: sm_state where
  "zero_sm_state = \<lparr>smsId = [], smsInbound = 0, smsPreferredReconAddr = [], smsStreamErrorGroup = None,
     smsUnAckQueue = None\<rparr>"

record session =
  sessBindJid :: string
  sessStreamId :: string
  sessResumed :: bool
  sessSMState :: sm_state
  sessFeatures :: stream_features
  sessTlsEnabled :: bool
  sessLastPacketId :: goint
  sessErr :: "error option"

definition new_session :: "sm_state \<Rightarrow> session" where
  "new_session state = \<lparr>sessBindJid = [], sessStreamId = [], sessResumed = False, sessSMState = state,
     sessFeatures = zero_features, sessTlsEnabled = False, sessLastPacketId = 0, sessErr = None\<rparr>"

record conn =
  cnSession :: session
  cnTransport :: transport
  cnConfig :: config

definition upd :: "(session \<Rightarrow> session) \<Rightarrow> (conn, unit) action" where
  "upd f = modify (\<lambda>c. c\<lparr>cnSession := f (cnSession c)\<rparr>)"

definition set_err :: "error option \<Rightarrow> (conn, unit) action" where
  "set_err e = upd (\<lambda>s. s\<lparr>sessErr := e\<rparr>)"

text \<open>A call on the transport: its error is a value that the caller looks at, a panic is not.\<close>

definition on_transport :: "(transport, 'a) action \<Rightarrow> (conn, error + 'a) action" where
  "on_transport m c =
     (case m (cnTransport c) of
        (Inl (Panic p), t) \<Rightarrow> (Inl (Panic p), c\<lparr>cnTransport := t\<rparr>)
      | (r, t) \<Rightarrow> (Inr r, c\<lparr>cnTransport := t\<rparr>))"

text \<open>\<^verbatim>\<open>if s.err != nil { return }\<close> at the head of a method.\<close>

definition unless_err :: "(conn, unit) action \<Rightarrow> (conn, unit) action" where
  "unless_err m = inspect (\<lambda>c. if sessErr (cnSession c) \<noteq> None then skip else m)"

text \<open>\<^verbatim>\<open>decoder.Decode(&v)\<close>: the next element, whatever stands before it.\<close>

definition decode_next ::
  "(xname \<Rightarrow> xattr list \<Rightarrow> decoder \<Rightarrow> error + 'a \<times> decoder) \<Rightarrow> decoder \<Rightarrow> error + 'a \<times> decoder" where
  "decode_next f d = bind_result (next_start d) (\<lambda>((n, at), d'). f n at d')"

subsection \<open>The steps\<close>

definition Session_PacketId :: "session \<Rightarrow> string \<times> session" where
  "Session_PacketId s =
     (let k = sessLastPacketId s + 1 in (hex_int k, s\<lparr>sessLastPacketId := k\<rparr>))"

definition next_packet_id :: "(conn, string) action" where
  "next_packet_id = inspect (\<lambda>c. case Session_PacketId (cnSession c) of
     (i, s) \<Rightarrow> andThen (upd (\<lambda>_. s)) (\<lambda>_. giving (Inr i)))"

text \<open>The features that were read before a decoding error are not used: the error ends the negotiation.\<close>

definition Session_extractStreamFeatures :: "(conn, stream_features) action" where
  "Session_extractStreamFeatures =
     andThen (on_transport (tr_read (decode_next (decode_struct (decode_features zero_features))))) (\<lambda>r.
       case r of
         Inl e \<Rightarrow> andThen (set_err (Some (Err (''stream open decode features: '' @ error_text e))))
           (\<lambda>_. giving (Inr zero_features))
       | Inr f \<Rightarrow> andThen (set_err None) (\<lambda>_. giving (Inr f)))"

definition Session_init :: "(conn, unit) action" where
  "Session_init = andThen Session_extractStreamFeatures (\<lambda>f. upd (\<lambda>s. s\<lparr>sessFeatures := f\<rparr>))"

definition Session_reset :: "(conn, unit) action" where
  "Session_reset =
     andThen (on_transport tr_StartStream) (\<lambda>r.
       case r of
         Inl e \<Rightarrow> upd (\<lambda>s. s\<lparr>sessStreamId := [], sessErr := Some e\<rparr>)
       | Inr i \<Rightarrow> andThen (upd (\<lambda>s. s\<lparr>sessStreamId := i, sessErr := None\<rparr>)) (\<lambda>_. Session_init))"

definition starttls_nonza :: outgoing where
  "starttls_nonza = ORaw (''<starttls xmlns='' @ quote @ ''urn:ietf:params:xml:ns:xmpp-tls'' @ quote @ ''/>'')"

text \<open>The outcome of writing the request is not looked at.\<close>

definition Session_startTlsIfSupported :: "(conn, unit) action" where
  "Session_startTlsIfSupported =
     unless_err (inspect (\<lambda>c.
       if \<not> tr_DoesStartTLS (cnTransport c) then
         (if \<not> cfInsecure (cnConfig c) then set_err (Some (Err ''transport does not support starttls'')) else skip)
       else if snd (DoesStartTLS (sessFeatures (cnSession c))) then
         andThen (on_transport (tr_Write starttls_nonza)) (\<lambda>_.
         andThen (on_transport (tr_read (decode_next (decode_struct (expect_name nsTLS ''proceed''))))) (\<lambda>r.
           case r of
             Inl e \<Rightarrow> set_err (Some (Err (''expecting starttls proceed: '' @ error_text e)))
           | Inr _ \<Rightarrow>
               andThen (on_transport tr_StartTLS) (\<lambda>r.
                 case r of
                   Inl e \<Rightarrow> set_err (Some e)
                 | Inr _ \<Rightarrow> upd (\<lambda>s. s\<lparr>sessErr := None, sessTlsEnabled := True\<rparr>))))
       else if \<not> cfInsecure (cnConfig c) then
         set_err (Some (Err ''XMPP server does not advertise support for starttls''))
       else skip))"

definition Session_auth :: "crypto \<Rightarrow> codec \<Rightarrow> (conn, unit) action" where
  "Session_auth cr cdc =
     unless_err (inspect (\<lambda>c.
       case cfParsedJid (cnConfig c) of
         None \<Rightarrow> giving (Inl nil_pointer)
       | Some j \<Rightarrow>
           andThen (on_transport (authSASL cr cdc (sessFeatures (cnSession c)) (jidNode j) (cfCredential (cnConfig c))))
             (\<lambda>r. set_err (case r of Inl e \<Rightarrow> Some e | Inr _ \<Rightarrow> None))))"

text \<open>What the reply to \<^verbatim>\<open><resume/>\<close> does to the session, and whether the session is resumed.\<close>

definition resume_reply :: "error + packet \<Rightarrow> session \<Rightarrow> bool \<times> session" where
  "resume_reply r s =
     (case r of
        Inl e \<Rightarrow> (False, s\<lparr>sessErr := Some e, sessSMState := zero_sm_state\<rparr>)
      | Inr (PktSMResumed p) \<Rightarrow>
          if smrPrevId p \<noteq> smsId (sessSMState s)
          then (False, s\<lparr>sessErr := Some (Err ''session resumption: mismatched id''), sessSMState := zero_sm_state\<rparr>)
          else
            let sm = sessSMState s;
                q = (case (smrH p, smsUnAckQueue sm) of
                       (Some h, Some q) \<Rightarrow> Some (drop_acked h q)
                     | (_, q) \<Rightarrow> q) in
            (True, s\<lparr>sessErr := None, sessSMState := sm\<lparr>smsUnAckQueue := q\<rparr>, sessResumed := True\<rparr>)
      | Inr (PktSMFailed _) \<Rightarrow> (False, s\<lparr>sessErr := None, sessSMState := zero_sm_state\<rparr>)
      | Inr _ \<Rightarrow> (False, s\<lparr>sessErr := Some (Err ''unexpected reply to SM resume''), sessSMState := zero_sm_state\<rparr>))"

definition can_resume :: "config \<Rightarrow> session \<Rightarrow> bool" where
  "can_resume cfg s \<longleftrightarrow>
     \<not> (\<not> cfStreamManagementEnable cfg \<or> \<not> cfStreamManagementResume cfg)
     \<and> DoesStreamManagement (sessFeatures s) \<and> smsId (sessSMState s) \<noteq> []"

definition Session_resume :: "codec \<Rightarrow> (conn, bool) action" where
  "Session_resume cdc =
     inspect (\<lambda>c.
       let s = cnSession c in
       if \<not> can_resume (cnConfig c) s then giving (Inr False)
       else
         andThen (on_transport (tr_Write (OSMResume (smsId (sessSMState s)) (smsInbound (sessSMState s))))) (\<lambda>w.
           case w of
             Inl _ \<Rightarrow> giving (Inr False)
           | Inr _ \<Rightarrow>
               andThen (on_transport (tr_read (NextPacket cdc))) (\<lambda>r.
                 andThen (upd (\<lambda>s. snd (resume_reply r s))) (\<lambda>_. giving (Inr (fst (resume_reply r s)))))))"

text \<open>The identifier is given, so \<^verbatim>\<open>NewIQ\<close> draws no UUID.\<close>

definition set_iq :: "payload \<Rightarrow> string \<Rightarrow> error + iq" where
  "set_iq p i =
     bind_result (NewIQ (Inl (Err ''no UUID'')) (zero_attrs\<lparr>aType := ''set'', aId := i\<rparr>)) (\<lambda>iq. Inr (iq\<lparr>iqPayload := Some p\<rparr>))"

definition bind_result_reply :: "error + iq \<Rightarrow> session \<Rightarrow> session" where
  "bind_result_reply r s =
     (case r of
        Inl e \<Rightarrow> s\<lparr>sessErr := Some (Err (''error decoding iq bind result: '' @ error_text e))\<rparr>
      | Inr i \<Rightarrow>
          (case iqPayload i of
             Some (PBind b) \<Rightarrow> s\<lparr>sessErr := None, sessBindJid := bindJid b\<rparr>
           | _ \<Rightarrow> s\<lparr>sessErr := Some (Err ''iq bind result missing'')\<rparr>))"

definition Session_bind :: "codec \<Rightarrow> (conn, unit) action" where
  "Session_bind cdc =
     unless_err (inspect (\<lambda>c.
       case cfParsedJid (cnConfig c) of
         None \<Rightarrow> giving (Inl nil_pointer)
       | Some j \<Rightarrow>
           andThen next_packet_id (\<lambda>i.
             case set_iq (PBind (if jidResource j \<noteq> [] then zero_bind\<lparr>bindResource := jidResource j\<rparr> else zero_bind)) i of
               Inl e \<Rightarrow> set_err (Some e)
             | Inr iqB \<Rightarrow>
                 andThen (on_transport (write_some ''failed to write bind iq stanza to the server : wrote 0 bytes'' (OIQ iqB)))
                   (\<lambda>w. case w of
                      Inl e \<Rightarrow> set_err (Some e)
                    | Inr _ \<Rightarrow>
                        andThen (on_transport (tr_read (decode_next (DecodeIQ cdc)))) (\<lambda>r. upd (bind_result_reply r))))))"

definition Session_rfc3921Session :: "codec \<Rightarrow> (conn, unit) action" where
  "Session_rfc3921Session cdc =
     unless_err (inspect (\<lambda>c.
       if \<not> StreamSession_IsOptional (sfSession (sessFeatures (cnSession c))) then
         andThen next_packet_id (\<lambda>i.
           case set_iq (PStreamSession zero_stream_session) i of
             Inl e \<Rightarrow> set_err (Some e)
           | Inr se \<Rightarrow>
               andThen (on_transport (write_some
                   ''there was a problem marshaling the session IQ : wrote 0 bytes to server'' (OIQ se)))
                 (\<lambda>w. case w of
                    Inl e \<Rightarrow> set_err (Some e)
                  | Inr _ \<Rightarrow>
                      andThen (on_transport (tr_read (decode_next (DecodeIQ cdc)))) (\<lambda>r.
                        set_err (case r of
                          Inl e \<Rightarrow> Some (Err (''expecting iq result after session open: '' @ error_text e))
                        | Inr _ \<Rightarrow> None))))
       else skip))"

text \<open>
  The reply to \<^verbatim>\<open><enable/>\<close>. A \<^verbatim>\<open><failed/>\<close> without a condition leaves \<^verbatim>\<open>StreamErrorGroup\<close> nil, and
  calling \<^verbatim>\<open>GroupErrorName\<close> on it panics.
\<close>

definition enable_reply :: "error + packet \<Rightarrow> (conn, unit) action" where
  "enable_reply r =
     (case r of
        Inl e \<Rightarrow> set_err (Some e)
      | Inr (PktSMEnabled p) \<Rightarrow>
          modify (\<lambda>c. c
            \<lparr>cnConfig := (cnConfig c)\<lparr>cfStreamManagementResume := (ParseBool (smeResume p) = Inr True)\<rparr>,
             cnSession := (cnSession c)\<lparr>sessErr := None, sessSMState := zero_sm_state
               \<lparr>smsId := smeId p, smsPreferredReconAddr := smeLocation p, smsUnAckQueue := Some NewUnAckQueue\<rparr>\<rparr>\<rparr>)
      | Inr (PktSMFailed p) \<Rightarrow>
          andThen (upd (\<lambda>s. s\<lparr>sessErr := None, sessSMState := zero_sm_state
              \<lparr>smsStreamErrorGroup := smfStreamErrorGroup p, smsUnAckQueue := Some NewUnAckQueue\<rparr>\<rparr>)) (\<lambda>_.
            case smfStreamErrorGroup p of
              None \<Rightarrow> giving (Inl nil_pointer)
            | Some g \<Rightarrow> set_err (Some (Err (''failed to establish session : '' @ GroupErrorName g))))
      | Inr _ \<Rightarrow> set_err (Some (Err ''unexpected reply to SM enable'')))"

definition Session_EnableStreamManagement :: "codec \<Rightarrow> (conn, unit) action" where
  "Session_EnableStreamManagement cdc =
     unless_err (inspect (\<lambda>c.
       if \<not> DoesStreamManagement (sessFeatures (cnSession c)) \<or> \<not> cfStreamManagementEnable (cnConfig c) then skip
       else
         andThen (on_transport (tr_Write (OSMEnable (cfStreamManagementResume (cnConfig c))))) (\<lambda>w.
           case w of
             Inl e \<Rightarrow> set_err (Some e)
           | Inr _ \<Rightarrow> andThen (on_transport (tr_read (NextPacket cdc))) enable_reply)))"

subsection \<open>The negotiation\<close>

text \<open>
  \<^verbatim>\<open>NewSession\<close> returns the session or nil, and the error or nil: \<open>checked m k\<close> is the method
  \<open>m\<close> followed by \<^verbatim>\<open>if s.err != nil { return s, s.err }\<close>.
\<close>

type_synonym session_result = "session option \<times> error option"

definition returning :: "(conn, session_result) action" where
  "returning = inspect (\<lambda>c. giving (Inr (Some (cnSession c), sessErr (cnSession c))))"

definition checked :: "(conn, unit) action \<Rightarrow> (conn, session_result) action \<Rightarrow> (conn, session_result) action" where
  "checked m k = andThen m (\<lambda>_. inspect (\<lambda>c. if sessErr (cnSession c) \<noteq> None then returning else k))"

definition error_verb :: "error option \<Rightarrow> string" where
  "error_verb e = (case e of None \<Rightarrow> ''%!s(<nil>)'' | Some e \<Rightarrow> error_text e)"

definition secured_session :: "crypto \<Rightarrow> codec \<Rightarrow> (conn, session_result) action" where
  "secured_session cr cdc =
     andThen (inspect (\<lambda>c. if sessTlsEnabled (cnSession c) then Session_reset else skip)) (\<lambda>_.
     andThen (upd (\<lambda>s. s\<lparr>sessResumed := False\<rparr>)) (\<lambda>_.
     checked (Session_auth cr cdc)
     (checked Session_reset
     (andThen (Session_resume cdc) (\<lambda>resumed.
        if resumed then returning
        else
          checked (Session_bind cdc)
          (checked (Session_rfc3921Session cdc)
          (checked (Session_EnableStreamManagement cdc) returning)))))))"

definition negotiate :: "crypto \<Rightarrow> codec \<Rightarrow> (conn, session_result) action" where
  "negotiate cr cdc =
     andThen Session_init (\<lambda>_. inspect (\<lambda>c.
       case sessErr (cnSession c) of
         Some e \<Rightarrow> giving (Inr (None, Some (NewConnError e True)))
       | None \<Rightarrow>
           andThen (inspect (\<lambda>c. if \<not> tr_IsSecure (cnTransport c) then Session_startTlsIfSupported else skip)) (\<lambda>_.
           inspect (\<lambda>c.
             if \<not> tr_IsSecure (cnTransport c) \<and> \<not> cfInsecure (cnConfig c) then
               giving (Inr (None, Some (NewConnError
                 (Err (''failed to negotiate TLS session : '' @ error_verb (sessErr (cnSession c)))) True)))
             else secured_session cr cdc))))"

definition session_or_new :: "session option \<Rightarrow> sm_state \<Rightarrow> session" where
  "session_or_new osession state = (case osession of None \<Rightarrow> new_session state | Some s \<Rightarrow> s)"

definition NewSession ::
  "crypto \<Rightarrow> codec \<Rightarrow> session option \<Rightarrow> sm_state \<Rightarrow> config \<Rightarrow> transport \<Rightarrow> (error + session_result) \<times> conn" where
  "NewSession cr cdc osession state cfg t =
     negotiate cr cdc \<lparr>cnSession = session_or_new osession state, cnTransport = t, cnConfig = cfg\<rparr>"

subsection \<open>What the steps write\<close>

text \<open>A property of the transport is kept by an action on the session when its calls keep it.\<close>

lemma keeps_on_transport: "keeps P m \<Longrightarrow> keeps (\<lambda>c. P (cnTransport c)) (on_transport m)"
proof (unfold keeps_def, intro allI impI)
  fix c :: conn
  assume "\<forall>t. P t \<longrightarrow> P (snd (m t))" "P (cnTransport c)"
  then have "P (snd (m (cnTransport c)))" by blast
  then show "P (cnTransport (snd (on_transport m c)))"
    by (cases "m (cnTransport c)") (auto simp: on_transport_def split: sum.split error.split)
qed

lemma keeps_upd: "keeps (\<lambda>c. P (cnTransport c)) (upd f)" "keeps (\<lambda>c. P (cnTransport c)) (set_err e)"
  by (simp_all add: set_err_def upd_def keeps_modify)

lemma keeps_enable_reply: "keeps (\<lambda>c. P (cnTransport c)) (enable_reply r)"
  unfolding enable_reply_def
  by (auto intro!: keeps_intros keeps_upd keeps_modify split: sum.split packet.split option.split)

lemma keeps_tr_read: "(\<And>t d. P t \<Longrightarrow> P (tr_set_decoder d t)) \<Longrightarrow> keeps P (tr_read f)"
  by (auto simp: keeps_def tr_read_def split: sum.split)

lemma sealed_authSASL: "keeps (tr.sealed W) (authSASL cr cdc f user cred)"
  unfolding authSASL_def Let_def authScram_def authPlain_def sendSASLAuth_def sendSASLResponse_def write_some_def
  by (intro keeps_intros sealed_operations keeps_tr_read)

abbreviation sealed_conn :: "outgoing set \<Rightarrow> conn \<Rightarrow> bool" where
  "sealed_conn W c \<equiv> tr.sealed W (cnTransport c)"

lemmas sealed_intros = keeps_intros keeps_upd keeps_enable_reply keeps_on_transport keeps_tr_read
  sealed_operations sealed_authSASL

lemma sealed_reset: "keeps (sealed_conn W) Session_reset"
  unfolding Session_reset_def Session_init_def Session_extractStreamFeatures_def
  by (intro sealed_intros)

lemma sealed_auth: "keeps (sealed_conn W) (Session_auth cr cdc)"
  unfolding Session_auth_def unless_err_def
  by (intro sealed_intros)

lemma sealed_resume: "keeps (sealed_conn W) (Session_resume cdc)"
  unfolding Session_resume_def Let_def
  by (intro sealed_intros)

lemma sealed_bind: "keeps (sealed_conn W) (Session_bind cdc)"
  unfolding Session_bind_def unless_err_def next_packet_id_def write_some_def split_beta
  by (intro sealed_intros)

lemma sealed_rfc3921: "keeps (sealed_conn W) (Session_rfc3921Session cdc)"
  unfolding Session_rfc3921Session_def unless_err_def next_packet_id_def write_some_def split_beta
  by (intro sealed_intros)

lemma sealed_EnableStreamManagement: "keeps (sealed_conn W) (Session_EnableStreamManagement cdc)"
  unfolding Session_EnableStreamManagement_def unless_err_def
  by (intro sealed_intros)

lemmas sealed_steps = sealed_reset sealed_auth sealed_resume sealed_bind sealed_rfc3921 sealed_EnableStreamManagement

lemma sealed_secured_session: "keeps (sealed_conn W) (secured_session cr cdc)"
  unfolding secured_session_def checked_def returning_def
  by (intro sealed_intros sealed_steps)

subsection \<open>Before the transport is secure\<close>

text \<open>An honest transport that has written nothing in the clear but what is in \<open>W\<close>.\<close>

definition modest :: "outgoing set \<Rightarrow> transport \<Rightarrow> bool" where
  "modest W t \<longleftrightarrow> tr.honest t \<and> tr.clear_writes t \<subseteq> W"

lemma modest_sealed: "modest W t \<Longrightarrow> tr_IsSecure t \<Longrightarrow> tr.sealed W t"
  by (simp add: modest_def tr.sealed_def tr.honest_def)

lemma sealed_modest: "tr.sealed W t \<Longrightarrow> modest W t"
  by (simp add: modest_def tr.sealed_def tr.honest_def)

lemma modest_write: "p \<in> W \<Longrightarrow> keeps (modest W) (tr_Write p)"
  unfolding keeps_def modest_def using tr.honest_write tr.clear_writes_write(1) by blast

lemma modest_set_decoder: "modest W t \<Longrightarrow> modest W (tr_set_decoder d t)"
  by (cases t) (simp_all add: modest_def tr.honest_def tr.clear_writes_def ws_channel_def ws_IsSecure_def)

lemma modest_StartTLS: "keeps (modest W) tr_StartTLS"
proof (unfold keeps_def, intro allI impI)
  fix t assume "modest W t"
  then show "modest W (snd (tr_StartTLS t))"
    by (cases t)
      (auto simp: modest_def tr.honest_def tr.clear_writes_def xt_StartTLS_def Let_def split: option.split if_splits)
qed

abbreviation modest_conn :: "outgoing set \<Rightarrow> conn \<Rightarrow> bool" where
  "modest_conn W c \<equiv> modest W (cnTransport c)"

lemma modest_init: "keeps (modest_conn W) Session_init"
  unfolding Session_init_def Session_extractStreamFeatures_def
  by (intro keeps_intros keeps_upd keeps_on_transport keeps_tr_read modest_set_decoder)

lemma modest_startTls: "starttls_nonza \<in> W \<Longrightarrow> keeps (modest_conn W) Session_startTlsIfSupported"
  unfolding Session_startTlsIfSupported_def unless_err_def
  by (intro keeps_intros keeps_upd keeps_on_transport keeps_tr_read modest_set_decoder modest_write modest_StartTLS)

text \<open>The setting \<^verbatim>\<open>Insecure\<close> never changes.\<close>

lemma keeps_insecure_on_transport: "keeps (\<lambda>c. cfInsecure (cnConfig c) = b) (on_transport m)"
  by (auto simp: keeps_def on_transport_def split: prod.split sum.split error.split)

lemma keeps_insecure_upd: "keeps (\<lambda>c. cfInsecure (cnConfig c) = b) (upd f)" "keeps (\<lambda>c. cfInsecure (cnConfig c) = b) (set_err e)"
  by (simp_all add: set_err_def upd_def keeps_modify)

lemma keeps_insecure_steps:
  "keeps (\<lambda>c. cfInsecure (cnConfig c) = b) Session_init"
  "keeps (\<lambda>c. cfInsecure (cnConfig c) = b) Session_startTlsIfSupported"
  unfolding Session_init_def Session_extractStreamFeatures_def Session_startTlsIfSupported_def unless_err_def
  by (intro keeps_intros keeps_insecure_on_transport keeps_insecure_upd)+

lemma negotiate_modest:
  assumes "starttls_nonza \<in> W" "modest_conn W c" "\<not> cfInsecure (cnConfig c)"
  shows "modest_conn W (snd (negotiate cr cdc c))"
proof -
  obtain r1 c1 where i: "Session_init c = (r1, c1)" by (cases "Session_init c")
  have c1: "modest_conn W c1" "\<not> cfInsecure (cnConfig c1)"
    using keepsD [OF modest_init assms(2)] keepsD [OF keeps_insecure_steps(1), of c False] assms(3) i by simp_all
  define m where "m = inspect (\<lambda>c. if \<not> tr_IsSecure (cnTransport c) then Session_startTlsIfSupported else skip)"
  obtain r2 c2 where m: "m c1 = (r2, c2)" by (cases "m c1")
  have c2: "modest_conn W c2" "\<not> cfInsecure (cnConfig c2)"
    using keepsD [OF modest_startTls [OF assms(1)] c1(1)] keepsD [OF keeps_insecure_steps(2), of c1 False] c1 m
    by (auto simp: m_def split: if_splits)
  have last: "modest_conn W (snd (secured_session cr cdc c2))" if "tr_IsSecure (cnTransport c2)"
    using keepsD [OF sealed_secured_session] modest_sealed [OF c2(1) that] by (blast intro: sealed_modest)
  show ?thesis
    unfolding negotiate_def m_def [symmetric]
    by (cases r1; cases r2) (use i m c1 c2 last in \<open>auto simp: andThen_def split: option.split\<close>)
qed

text \<open>
  Unless the configuration allows it (\<^verbatim>\<open>Insecure\<close>), the negotiation of a session sends no
  credentials, no stanza and nothing else in the clear but the request to start TLS, whatever
  the server offers and answers - provided that the transport does not claim to be secure when
  it is not.
\<close>

theorem NewSession_no_cleartext:
  assumes "tr.honest t" "\<not> cfInsecure cfg"
  shows "tr.clear_writes (cnTransport (snd (NewSession cr cdc osession state cfg t)))
    \<subseteq> insert starttls_nonza (tr.clear_writes t)"
proof -
  have "modest (insert starttls_nonza (tr.clear_writes t)) t"
    using assms(1) by (auto simp: modest_def)
  then have "modest_conn (insert starttls_nonza (tr.clear_writes t)) (snd (NewSession cr cdc osession state cfg t))"
    unfolding NewSession_def by (intro negotiate_modest) (use assms(2) in simp_all)
  then show ?thesis by (simp add: modest_def)
qed

subsection \<open>Complete negotiations\<close>

text \<open>The steps on a live TCP connection whose reader stands at the given tokens.\<close>

definition header :: "string \<Rightarrow> xtoken list" where
  "header i = [StartElement (XName NSStream ''stream'') [(XName [] ''id'', i)]]"

definition in_stream :: "stk_item list \<Rightarrow> stk_item list" where
  "in_stream stk = StkStart (XName NSStream ''stream'') # stk"

lemma in_stream_not_at_eof [simp]: "not_at_eof (in_stream stk)"
  by (simp add: in_stream_def)

definition open_text :: "xmpp_transport \<Rightarrow> outgoing" where
  "open_text t = ORaw (fprintf1 (xtOpenStatement t) (tcDomain (xtConfig t)))"

lemma open_text_updates [simp]:
  "open_text (t\<lparr>xtDecoder := d\<rparr>) = open_text t" "open_text (wrote ch p t) = open_text t"
  by (simp_all add: open_text_def wrote_def)

lemma next_start_elem:
  assumes "not_at_eof stk"
  shows "next_start (after (xml_tokens (Elem n at kids) @ rest) stk d) = Inr ((n, at), inside kids n rest stk d)"
proof -
  have "Token (after (xml_tokens (Elem n at kids) @ rest) stk d) = Inr (StartElement n at, inside kids n rest stk d)"
    using assms by (simp add: after_def inside_def)
  then show ?thesis by (subst next_start.simps) simp
qed

lemma decode_next_struct:
  "not_at_eof stk \<Longrightarrow> decode_next (decode_struct f) (after (xml_tokens (Elem n at kids) @ rest) stk d) =
     with_decoder (after rest stk d) (f (Elem n at kids))"
  by (simp add: decode_next_def next_start_elem decode_struct_tree del: xml_tokens.simps)

lemma InitStream_after:
  "not_at_eof stk \<Longrightarrow> InitStream (after (header i @ ts) stk d) = Inr (i, after ts (in_stream stk) d)"
  by (subst InitStream.simps) (simp add: after_def header_def attr_of_def in_stream_def)

lemma on_transport_simps:
  "m (cnTransport c) = (Inr a, t) \<Longrightarrow> on_transport m c = (Inr (Inr a), c\<lparr>cnTransport := t\<rparr>)"
  by (simp add: on_transport_def)

lemma tr_read_ok: "f (xtDecoder t) = Inr (v, d) \<Longrightarrow> tr_read f (TCP t) = (Inr v, TCP (t\<lparr>xtDecoder := d\<rparr>))"
  by (simp add: tr_read_def)

lemma Session_init_run:
  assumes "cnTransport c = TCP t" "xtDecoder t = after (xml_tokens (Elem n at kids) @ rest) stk d" "not_at_eof stk"
    and "decode_features zero_features (Elem n at kids) = Inr f"
  shows "Session_init c = (Inr (), c\<lparr>cnTransport := TCP (t\<lparr>xtDecoder := after rest stk d\<rparr>),
    cnSession := (cnSession c)\<lparr>sessErr := None, sessFeatures := f\<rparr>\<rparr>)"
proof -
  have "tr_read (decode_next (decode_struct (decode_features zero_features))) (cnTransport c) =
      (Inr f, TCP (t\<lparr>xtDecoder := after rest stk d\<rparr>))"
    unfolding assms(1) by (rule tr_read_ok) (simp add: assms decode_next_struct del: xml_tokens.simps)
  then show ?thesis
    by (simp add: Session_init_def Session_extractStreamFeatures_def andThen_def on_transport_simps set_err_def upd_def)
qed

lemma Session_reset_run:
  assumes "cnTransport c = TCP t" "xt_ready ch t" "not_at_eof stk"
    and "xtDecoder t = after (header i @ xml_tokens (Elem n at kids) @ rest) stk d"
    and "decode_features zero_features (Elem n at kids) = Inr f"
  shows "Session_reset c = (Inr (), c\<lparr>cnTransport := TCP ((wrote ch (open_text t) t)\<lparr>xtDecoder := after rest (in_stream stk) d\<rparr>),
    cnSession := (cnSession c)\<lparr>sessStreamId := i, sessErr := None, sessFeatures := f\<rparr>\<rparr>)"
proof -
  let ?t1 = "(wrote ch (open_text t) t)\<lparr>xtDecoder := after (xml_tokens (Elem n at kids) @ rest) (in_stream stk) d\<rparr>"
  let ?c1 = "c\<lparr>cnTransport := TCP ?t1, cnSession := (cnSession c)\<lparr>sessStreamId := i, sessErr := None\<rparr>\<rparr>"
  have "tr_StartStream (cnTransport c) = (Inr i, TCP ?t1)"
    using assms(2,3) by (simp add: assms(1,4) xt_StartStream_def open_text_def [symmetric] xt_Write_ready InitStream_after
        del: xml_tokens.simps)
  then have "Session_reset c = Session_init ?c1"
    by (simp add: Session_reset_def andThen_def on_transport_simps upd_def)
  also have "\<dots> = (Inr (), ?c1\<lparr>cnTransport := TCP (?t1\<lparr>xtDecoder := after rest (in_stream stk) d\<rparr>),
      cnSession := (cnSession ?c1)\<lparr>sessErr := None, sessFeatures := f\<rparr>\<rparr>)"
    by (rule Session_init_run [where n = n and at = at and kids = kids]) (simp_all add: assms(5) del: xml_tokens.simps)
  finally show ?thesis by simp
qed

lemma authPlain_run:
  assumes "xt_ready ch t" "not_at_eof stk" "xtDecoder t = after (xml_tokens (sasl_elem ''success'' v) @ rest) stk d"
  shows "authPlain cdc mech user secret (TCP t) =
    (Inr (), TCP ((wrote ch (OSASLAuth mech (b64_encode (plain_message user secret))) t)\<lparr>xtDecoder := after rest stk d\<rparr>))"
  using assms by (simp add: authPlain_def andThen_def write_some_ready tr_read_def NextPacket_success auth_result_def)

text \<open>A server that offers \<^verbatim>\<open>PLAIN\<close> and none of the SCRAM mechanisms.\<close>

definition only_plain :: "stream_features \<Rightarrow> bool" where
  "only_plain f \<longleftrightarrow> ''PLAIN'' \<in> set (sfMechanism f)
     \<and> set (sfMechanism f) \<inter> {''SCRAM-SHA-512'', ''SCRAM-SHA-256'', ''SCRAM-SHA-1''} = {}"

lemma authSASL_only_plain:
  "only_plain f \<Longrightarrow> authSASL cr cdc f user (Password pwd) = authPlain cdc ''PLAIN'' user pwd"
  by (simp add: authSASL_def Password_def Let_def only_plain_def)

lemma Session_auth_run:
  assumes "cnTransport c = TCP t" "xt_ready ch t" "not_at_eof stk" "sessErr (cnSession c) = None"
    and "xtDecoder t = after (xml_tokens (sasl_elem ''success'' v) @ rest) stk d"
    and "cfParsedJid (cnConfig c) = Some j" "cfCredential (cnConfig c) = Password pwd"
    and "only_plain (sessFeatures (cnSession c))"
  shows "Session_auth cr cdc c = (Inr (), c\<lparr>cnTransport := TCP ((wrote ch
      (OSASLAuth ''PLAIN'' (b64_encode (plain_message (jidNode j) pwd))) t)\<lparr>xtDecoder := after rest stk d\<rparr>)\<rparr>)"
  using assms authPlain_run [OF assms(2,3,5), of cdc "''PLAIN''" "jidNode j" pwd]
  by (simp add: Session_auth_def unless_err_def authSASL_only_plain andThen_def on_transport_def set_err_def upd_def)

definition iq_of :: "xml \<Rightarrow> error + iq" where
  "iq_of t = fold_result IQ_step (elements (xml_kids t)) (IQ_start (elem_name t) (elem_attrs t))"

lemma decode_next_iq:
  "not_at_eof stk \<Longrightarrow> decode_next (DecodeIQ package_codec) (after (xml_tokens (Elem n at kids) @ rest) stk d) =
     with_decoder (after rest stk d) (iq_of (Elem n at kids))"
  by (simp add: decode_next_def next_start_elem client_decoders iq_of_def del: xml_tokens.simps)

lemma Session_startTls_run:
  assumes "cnTransport c = TCP t" "xt_ready ch t" "not_at_eof stk" "sessErr (cnSession c) = None"
    and "xtDecoder t = after (xml_tokens (Elem (XName nsTLS ''proceed'') at kids) @ rest) stk d"
    and "snd (DoesStartTLS (sessFeatures (cnSession c)))"
    and "xtServer t = Some sv" "svHandshake sv = None" "svVerifyHostname sv = None"
  shows "\<exists>t'. Session_startTlsIfSupported c = (Inr (), c\<lparr>cnTransport := TCP t',
      cnSession := (cnSession c)\<lparr>sessErr := None, sessTlsEnabled := True\<rparr>\<rparr>)
    \<and> xt_ready Encrypted t' \<and> xtIsSecure t' \<and> xtDecoder t' = svSecure sv \<and> open_text t' = open_text t
    \<and> xtOut t' = xtOut t @ [(ch, starttls_nonza)]"
proof -
  let ?t1 = "(wrote ch starttls_nonza t)\<lparr>xtDecoder := after rest stk d\<rparr>"
  have srv: "xtServer ?t1 = Some sv" "\<not> xtClosed t" "\<forall>k. svWrite sv k = WOk" "xtChannel t = Some ch"
    using assms(2,7) by (auto simp: wrote_def xt_ready_def)
  obtain t' where t': "xt_StartTLS ?t1 = (Inr (), t')" "t' = ?t1\<lparr>xtTLSServerName := xtTLSServerName t',
      xtIsSecure := True, xtChannel := Some Encrypted, xtDecoder := svSecure sv\<rparr>"
    using srv(1) assms(8,9) by (auto simp: xt_StartTLS_def Let_def)
  have w: "tr_Write starttls_nonza (TCP t) = (Inr True, TCP (wrote ch starttls_nonza t))"
    using assms(2) by (simp add: xt_Write_ready)
  have r: "tr_read (decode_next (decode_struct (expect_name nsTLS ''proceed''))) (TCP (wrote ch starttls_nonza t)) =
      (Inr (XName nsTLS ''proceed''), TCP ?t1)"
    by (rule tr_read_ok) (simp add: assms(3,5) decode_next_struct expect_name_def del: xml_tokens.simps)
  have "Session_startTlsIfSupported c = (Inr (), c\<lparr>cnTransport := TCP t',
      cnSession := (cnSession c)\<lparr>sessErr := None, sessTlsEnabled := True\<rparr>\<rparr>)"
    using assms(4,6) w r t'(1)
    by (simp add: Session_startTlsIfSupported_def unless_err_def assms(1) andThen_def on_transport_simps upd_def
        del: tr_Write.simps)
  moreover have "xt_ready Encrypted t' \<and> xtIsSecure t' \<and> xtDecoder t' = svSecure sv \<and> open_text t' = open_text t
    \<and> xtOut t' = xtOut t @ [(ch, starttls_nonza)]"
    using srv by (subst (1 2 3 4 5) t'(2)) (simp add: xt_ready_def open_text_def wrote_def)
  ultimately show ?thesis by blast
qed

definition bind_iq :: "string \<Rightarrow> string \<Rightarrow> iq" where
  "bind_iq i resource = zero_iq\<lparr>iqXMLName := XName [] ''iq'', iqAttrs := zero_attrs\<lparr>aType := ''set'', aId := i\<rparr>,
     iqPayload := Some (PBind (zero_bind\<lparr>bindResource := resource\<rparr>))\<rparr>"

lemma set_iq_ok: "i \<noteq> [] \<Longrightarrow> set_iq p i =
  Inr (zero_iq\<lparr>iqXMLName := XName [] ''iq'', iqAttrs := zero_attrs\<lparr>aType := ''set'', aId := i\<rparr>, iqPayload := Some p\<rparr>)"
  by (simp add: set_iq_def NewIQ_def StanzaType_IsEmpty_def Let_def TrimSpace_is_empty_def runes_ascii is_ascii_def IsSpace_def)

lemma hex_int_nonempty [simp]: "hex_int k \<noteq> []"
  by (simp add: hex_int_def)

lemma Session_bind_run:
  assumes "cnTransport c = TCP t" "xt_ready ch t" "not_at_eof stk" "sessErr (cnSession c) = None"
    and "xtDecoder t = after (xml_tokens (Elem n at kids) @ rest) stk d"
    and "iq_of (Elem n at kids) = Inr r" "iqPayload r = Some (PBind b)" "cfParsedJid (cnConfig c) = Some j"
  shows "Session_bind package_codec c = (Inr (), c\<lparr>cnTransport := TCP ((wrote ch
      (OIQ (bind_iq (hex_int (sessLastPacketId (cnSession c) + 1)) (jidResource j))) t)\<lparr>xtDecoder := after rest stk d\<rparr>),
    cnSession := (cnSession c)\<lparr>sessLastPacketId := sessLastPacketId (cnSession c) + 1, sessErr := None,
      sessBindJid := bindJid b\<rparr>\<rparr>)"
proof -
  let ?i = "hex_int (sessLastPacketId (cnSession c) + 1)"
  have z: "zero_bind\<lparr>bindResource := []\<rparr> = zero_bind" by (simp add: zero_bind_def)
  have b: "set_iq (PBind (if jidResource j \<noteq> [] then zero_bind\<lparr>bindResource := jidResource j\<rparr> else zero_bind)) ?i
      = Inr (bind_iq ?i (jidResource j))"
    by (simp add: set_iq_ok bind_iq_def z)
  show ?thesis
    using assms(3-4,8) b
    by (simp add: Session_bind_def unless_err_def andThen_def next_packet_id_def Session_PacketId_def Let_def upd_def
        on_transport_def assms(1) write_some_ready [OF assms(2)] tr_read_def assms(5) decode_next_iq assms(6)
        bind_result_reply_def assms(7) del: xml_tokens.simps)
qed

text \<open>
  What follows the choice of the channel, for a password, a server that offers \<^verbatim>\<open>PLAIN\<close> and no
  stream management: the tokens that the server sends, and the messages that the client writes.
\<close>

record script =
  scFeatures1 :: xml
  scFeatures2 :: xml
  scBound :: xml
  scRest :: "xtoken list"

definition script_tokens :: "script \<Rightarrow> xtoken list" where
  "script_tokens sc = header ''s1'' @ xml_tokens (scFeatures1 sc) @ xml_tokens (sasl_elem ''success'' [])
     @ header ''s2'' @ xml_tokens (scFeatures2 sc) @ xml_tokens (scBound sc) @ scRest sc"

definition good_script :: "script \<Rightarrow> bind \<Rightarrow> bool" where
  "good_script sc b \<longleftrightarrow>
     (\<exists>n1 at1 kids1 n2 at2 kids2 nb atb kidsb f1 f2 r.
        scFeatures1 sc = Elem n1 at1 kids1 \<and> scFeatures2 sc = Elem n2 at2 kids2 \<and> scBound sc = Elem nb atb kidsb
      \<and> decode_features zero_features (scFeatures1 sc) = Inr f1 \<and> only_plain f1
      \<and> decode_features zero_features (scFeatures2 sc) = Inr f2 \<and> StreamSession_IsOptional (sfSession f2)
      \<and> iq_of (scBound sc) = Inr r \<and> iqPayload r = Some (PBind b))"

definition messages :: "channel \<Rightarrow> outgoing \<Rightarrow> jid \<Rightarrow> string \<Rightarrow> string \<Rightarrow> (channel \<times> outgoing) list" where
  "messages ch op j pwd i =
     [(ch, op), (ch, OSASLAuth ''PLAIN'' (b64_encode (plain_message (jidNode j) pwd))),
      (ch, op), (ch, OIQ (bind_iq i (jidResource j)))]"

lemma secured_session_run:
  assumes "cnTransport c = TCP t" "xt_ready ch t" "not_at_eof stk" "xtDecoder t = after (script_tokens sc) stk d"
    and "good_script sc b" "sessTlsEnabled (cnSession c)"
    and "cfParsedJid (cnConfig c) = Some j" "cfCredential (cnConfig c) = Password pwd"
    and "\<not> cfStreamManagementEnable (cnConfig c)"
  shows "\<exists>s t'. secured_session cr package_codec c =
      (Inr (Some s, None), \<lparr>cnSession = s, cnTransport = TCP t', cnConfig = cnConfig c\<rparr>)
    \<and> sessBindJid s = bindJid b \<and> sessTlsEnabled s \<and> \<not> sessResumed s
    \<and> xtOut t' = xtOut t @ messages ch (open_text t) j pwd (hex_int (sessLastPacketId (cnSession c) + 1))"
proof -
  obtain s0 cfg where c: "c = \<lparr>cnSession = s0, cnTransport = TCP t, cnConfig = cfg\<rparr>"
    using assms(1) by (cases c) auto
  obtain n1 at1 kids1 n2 at2 kids2 nb atb kidsb f1 f2 r
    where sc: "scFeatures1 sc = Elem n1 at1 kids1" "scFeatures2 sc = Elem n2 at2 kids2" "scBound sc = Elem nb atb kidsb"
      and f1: "decode_features zero_features (Elem n1 at1 kids1) = Inr f1" "only_plain f1"
      and f2: "decode_features zero_features (Elem n2 at2 kids2) = Inr f2" "StreamSession_IsOptional (sfSession f2)"
      and r: "iq_of (Elem nb atb kidsb) = Inr r" "iqPayload r = Some (PBind b)"
    using assms(5) unfolding good_script_def by metis
  define k2 where "k2 = xml_tokens (Elem nb atb kidsb) @ scRest sc"
  define k1 where "k1 = header ''s2'' @ xml_tokens (Elem n2 at2 kids2) @ k2"
  define k0 where "k0 = xml_tokens (sasl_elem ''success'' []) @ k1"
  let ?auth = "OSASLAuth ''PLAIN'' (b64_encode (plain_message (jidNode j) pwd))"
  define t1 where "t1 = (wrote ch (open_text t) t)\<lparr>xtDecoder := after k0 (in_stream stk) d\<rparr>"
  define t2 where "t2 = (wrote ch ?auth t1)\<lparr>xtDecoder := after k1 (in_stream stk) d\<rparr>"
  define t3 where "t3 = (wrote ch (open_text t) t2)\<lparr>xtDecoder := after k2 (in_stream (in_stream stk)) d\<rparr>"
  define t4 where "t4 = (wrote ch (OIQ (bind_iq (hex_int (sessLastPacketId s0 + 1)) (jidResource j))) t3)
     \<lparr>xtDecoder := after (scRest sc) (in_stream (in_stream stk)) d\<rparr>"
  define s1 where "s1 = s0\<lparr>sessStreamId := ''s1'', sessErr := None, sessFeatures := f1\<rparr>"
  define s2 where "s2 = s1\<lparr>sessResumed := False\<rparr>"
  define s3 where "s3 = s2\<lparr>sessStreamId := ''s2'', sessErr := None, sessFeatures := f2\<rparr>"
  define s4 where "s4 = s3\<lparr>sessLastPacketId := sessLastPacketId s3 + 1, sessErr := None, sessBindJid := bindJid b\<rparr>"
  have ready: "xt_ready ch t1" "xt_ready ch t2" "xt_ready ch t3"
    using assms(2) by (simp_all add: t1_def t2_def t3_def)
  have op: "open_text t1 = open_text t" "open_text t2 = open_text t"
    by (simp_all add: t1_def t2_def)
  let ?c = "\<lambda>s t. \<lparr>cnSession = s, cnTransport = TCP t, cnConfig = cfg\<rparr>"
  have "xtDecoder t = after (header ''s1'' @ xml_tokens (Elem n1 at1 kids1) @ k0) stk d"
    using assms(4) by (simp add: script_tokens_def sc k0_def k1_def k2_def)
  then have a1: "Session_reset (?c s0 t) = (Inr (), ?c s1 t1)"
    using Session_reset_run [OF _ assms(2,3) _ f1(1), of "?c s0 t"] by (simp add: s1_def t1_def)
  have a2: "Session_auth cr package_codec (?c s2 t1) = (Inr (), ?c s2 t2)"
    using Session_auth_run [OF _ ready(1), of "?c s2 t1" "in_stream stk" "[]" k1 d j pwd cr package_codec] f1(2) assms(7,8)
    by (simp add: t1_def k0_def s2_def s1_def t2_def c)
  have a3: "Session_reset (?c s2 t2) = (Inr (), ?c s3 t3)"
    using Session_reset_run [OF _ ready(2) _ _ f2(1), of "?c s2 t2" "in_stream stk" "''s2''" k2 d] op
    by (simp add: t2_def k1_def s3_def t3_def)
  have a4: "Session_resume package_codec (?c s3 t3) = (Inr False, ?c s3 t3)"
    using assms(9) by (simp add: Session_resume_def can_resume_def c)
  have a5: "Session_bind package_codec (?c s3 t3) = (Inr (), ?c s4 t4)"
    using Session_bind_run [OF _ ready(3) _ _ _ r, of "?c s3 t3" "in_stream (in_stream stk)" "scRest sc" d j] assms(7)
    by (simp add: t3_def k2_def s4_def t4_def s3_def s2_def s1_def c)
  have a6: "Session_rfc3921Session package_codec (?c s4 t4) = (Inr (), ?c s4 t4)"
    "Session_EnableStreamManagement package_codec (?c s4 t4) = (Inr (), ?c s4 t4)"
    using f2(2) assms(9)
    by (simp_all add: Session_rfc3921Session_def Session_EnableStreamManagement_def unless_err_def s4_def s3_def c)
  have e: "sessErr s2 = None" "sessErr s3 = None" "sessErr s4 = None" "sessErr s1 = None"
    by (simp_all add: s1_def s2_def s3_def s4_def)
  have "secured_session cr package_codec (?c s0 t) = (Inr (Some s4, None), ?c s4 t4)"
    using a1 a2 a3 a4 a5 a6 assms(6) e
    by (simp add: secured_session_def andThen_def checked_def returning_def upd_def c s2_def)
  moreover have "xtOut t4 = xtOut t @ messages ch (open_text t) j pwd (hex_int (sessLastPacketId s0 + 1))"
    by (simp add: t4_def t3_def t2_def t1_def messages_def)
  moreover have "sessBindJid s4 = bindJid b \<and> sessTlsEnabled s4 \<and> \<not> sessResumed s4"
    using assms(6) by (simp add: s4_def s3_def s2_def s1_def c)
  ultimately show ?thesis by (simp add: c)
qed

lemma hex_int_1: "hex_int 1 = ''1''"
proof -
  have "hex_char 1 = CHR ''1''" by code_simp
  then show ?thesis by (simp add: hex_int_def hex_string.simps)
qed

text \<open>
  C7. With a password and without stream management, against a server that offers TLS and then \<^verbatim>\<open>PLAIN\<close>,
  a new session is established: TLS is started first, the credentials go through the encrypted
  connection only, exactly the five messages of the negotiation are written in that order, and the
  session has the address that the server bound.
\<close>

theorem NewSession_established:
  assumes "xt_ready Clear t" "\<not> xtIsSecure t" "xtServer t = Some sv" "svHandshake sv = None" "svVerifyHostname sv = None"
    and "not_at_eof stk0" "xtDecoder t = after (xml_tokens (Elem n0 at0 kids0)
        @ xml_tokens (Elem (XName nsTLS ''proceed'') atp kidsp) @ rest0) stk0 d0"
    and "decode_features zero_features (Elem n0 at0 kids0) = Inr f0" "snd (DoesStartTLS f0)"
    and "not_at_eof stk" "svSecure sv = after (script_tokens sc) stk d" "good_script sc b"
    and "cfParsedJid cfg = Some j" "cfCredential cfg = Password pwd" "\<not> cfStreamManagementEnable cfg"
  shows "\<exists>s c t'. NewSession cr package_codec None zero_sm_state cfg (TCP t) = (Inr (Some s, None), c)
    \<and> sessBindJid s = bindJid b \<and> sessTlsEnabled s \<and> \<not> sessResumed s \<and> cnTransport c = TCP t'
    \<and> xtOut t' = xtOut t @ (Clear, starttls_nonza) # messages Encrypted (open_text t) j pwd ''1''"
proof -
  define k where "k = xml_tokens (Elem (XName nsTLS ''proceed'') atp kidsp) @ rest0"
  let ?c = "\<lambda>s t. \<lparr>cnSession = s, cnTransport = TCP t, cnConfig = cfg\<rparr>"
  define s0 where "s0 = new_session zero_sm_state"
  define s1 where "s1 = s0\<lparr>sessErr := None, sessFeatures := f0\<rparr>"
  define s2 where "s2 = s1\<lparr>sessErr := None, sessTlsEnabled := True\<rparr>"
  define t1 where "t1 = t\<lparr>xtDecoder := after k stk0 d0\<rparr>"
  have "xtDecoder t = after (xml_tokens (Elem n0 at0 kids0) @ k) stk0 d0"
    using assms(7) by (simp add: k_def)
  then have a1: "Session_init (?c s0 t) = (Inr (), ?c s1 t1)"
    using Session_init_run [OF _ _ assms(6,8), of "?c s0 t"] by (simp add: s1_def t1_def)
  have t1: "xt_ready Clear t1" "xtServer t1 = Some sv" "open_text t1 = open_text t" "xtOut t1 = xtOut t" "\<not> xtIsSecure t1"
    using assms(1,2,3) by (simp_all add: t1_def)
  obtain t2 where a2: "Session_startTlsIfSupported (?c s1 t1) = (Inr (), ?c s2 t2)"
    and t2: "xt_ready Encrypted t2" "xtIsSecure t2" "xtDecoder t2 = svSecure sv" "open_text t2 = open_text t"
      "xtOut t2 = xtOut t @ [(Clear, starttls_nonza)]"
    using Session_startTls_run [OF _ t1(1) assms(6) _ _ _ t1(2) assms(4,5), of "?c s1 t1" atp kidsp rest0 d0] assms(9) t1
    by (auto simp: t1_def k_def s1_def s2_def s0_def new_session_def)
  have "xtDecoder t2 = after (script_tokens sc) stk d" using t2(3) assms(11) by simp
  then obtain s t' where a3: "secured_session cr package_codec (?c s2 t2) = (Inr (Some s, None), ?c s t')"
    and s: "sessBindJid s = bindJid b" "sessTlsEnabled s" "\<not> sessResumed s"
      "xtOut t' = xtOut t2 @ messages Encrypted (open_text t2) j pwd (hex_int (sessLastPacketId s2 + 1))"
    using secured_session_run [OF _ t2(1) assms(10) _ assms(12), of "?c s2 t2" d j pwd cr] assms(13,14,15)
    by (auto simp: s2_def)
  have "hex_int (sessLastPacketId s2 + 1) = ''1''"
    by (simp add: s2_def s1_def s0_def new_session_def hex_int_1)
  moreover have "NewSession cr package_codec None zero_sm_state cfg (TCP t) = (Inr (Some s, None), ?c s t')"
    using a1 a2 a3 t1(5) t2(2)
    by (simp add: NewSession_def session_or_new_def negotiate_def andThen_def s1_def s0_def)
  ultimately show ?thesis using s t2(4,5) by simp
qed

text \<open>
  C20. When a client that had a TLS session connects again, the transport still claims to be
  secure although the new connection is not encrypted, and the retained session counts as
  TLS-enabled: no TLS is started, although the configuration forbids insecure sessions, and the
  password goes out in the clear.
\<close>

theorem NewSession_reconnect_cleartext:
  assumes "xtIsSecure t" "xtServers t = sv # svs" "svDial sv = None" "\<forall>k. svWrite sv k = WOk"
    and "svPlain sv = new_decoder (header ''s0'' @ xml_tokens (Elem n0 at0 kids0) @ script_tokens sc)"
    and "decode_features zero_features (Elem n0 at0 kids0) = Inr f0" "good_script sc b"
    and "sessTlsEnabled s0" "\<not> cfInsecure cfg" "\<not> cfStreamManagementEnable cfg"
    and "cfParsedJid cfg = Some j" "cfCredential cfg = Password pwd"
  shows "\<exists>s c. NewSession cr package_codec (Some s0) state cfg (TCP (snd (xt_Connect t))) = (Inr (Some s, None), c)
    \<and> sessBindJid s = bindJid b
    \<and> OSASLAuth ''PLAIN'' (b64_encode (plain_message (jidNode j) pwd)) \<in> tr.clear_writes (cnTransport c)"
proof -
  let ?c = "\<lambda>s t. \<lparr>cnSession = s, cnTransport = TCP t, cnConfig = cfg\<rparr>"
  let ?d = "new_decoder []"
  define k where "k = xml_tokens (Elem n0 at0 kids0) @ script_tokens sc"
  define t1 where "t1 = snd (xt_Connect t)"
  define t2 where "t2 = t1\<lparr>xtDecoder := after (script_tokens sc) (in_stream []) ?d\<rparr>"
  define s1 where "s1 = s0\<lparr>sessErr := None, sessFeatures := f0\<rparr>"
  have "new_decoder (header ''s0'' @ k) = after (header ''s0'' @ k) [] ?d"
    by (simp add: new_decoder_def after_def)
  then have "InitStream (svPlain sv) = Inr (''s0'', after k (in_stream []) ?d)"
    using assms(5) InitStream_after [of "[]" "''s0''" k ?d] by (simp add: k_def)
  then have t1: "xt_ready Clear t1" "xtDecoder t1 = after k (in_stream []) ?d" "xtIsSecure t1"
    using assms(1-4) by (simp_all add: t1_def xt_Connect_def xt_StartStream_def xt_Write_def write_outcome_def xt_ready_def)
  have a1: "Session_init (?c s0 t1) = (Inr (), ?c s1 t2)"
    using Session_init_run [OF _ _ _ assms(6), of "?c s0 t1" t1] t1(2) by (simp add: s1_def t2_def k_def)
  have t2: "xt_ready Clear t2" "xtDecoder t2 = after (script_tokens sc) (in_stream []) ?d" "xtIsSecure t2"
    using t1 by (simp_all add: t2_def)
  obtain s t' where a2: "secured_session cr package_codec (?c s1 t2) = (Inr (Some s, None), ?c s t')"
    and s: "sessBindJid s = bindJid b"
      "xtOut t' = xtOut t2 @ messages Clear (open_text t2) j pwd (hex_int (sessLastPacketId s1 + 1))"
    using secured_session_run [OF _ t2(1) _ t2(2) assms(7), of "?c s1 t2" j pwd cr] assms(8,10,11,12)
    by (auto simp: s1_def)
  have "NewSession cr package_codec (Some s0) state cfg (TCP t1) = (Inr (Some s, None), ?c s t')"
    using a1 a2 t2(3) by (simp add: NewSession_def session_or_new_def negotiate_def andThen_def s1_def)
  then show ?thesis using s by (simp add: t1_def tr.clear_writes_def messages_def)
qed

subsection \<open>A concrete run\<close>

definition bound_elem :: xml where
  "bound_elem = Elem (XName NSClient ''iq'') [(XName [] ''type'', ''result''), (XName [] ''id'', ''1'')]
     [Elem (XName ''urn:ietf:params:xml:ns:xmpp-bind'' ''bind'') []
        [Elem (XName ''urn:ietf:params:xml:ns:xmpp-bind'' ''jid'') [] [Text ''juliet@localhost/balcony'']]]"

definition features_elem :: "xml list \<Rightarrow> xml" where
  "features_elem kids = Elem (XName NSStream ''features'') [] kids"

definition mechanisms_elem :: xml where
  "mechanisms_elem = Elem (XName NSSASL ''mechanisms'') [] [Elem (XName NSSASL ''mechanism'') [] [Text ''PLAIN'']]"

definition sample_script :: script where
  "sample_script = \<lparr>scFeatures1 = features_elem [mechanisms_elem], scFeatures2 = features_elem [], scBound = bound_elem, scRest = []\<rparr>"

definition sample_bind :: bind where
  "sample_bind = zero_bind\<lparr>bindXMLName := XName ''urn:ietf:params:xml:ns:xmpp-bind'' ''bind'', bindJid := ''juliet@localhost/balcony''\<rparr>"

lemma sample_features:
  "decode_features zero_features (features_elem [mechanisms_elem]) =
     Inr (zero_features\<lparr>sfMechanismsName := XName NSSASL ''mechanisms'', sfMechanism := [''PLAIN'']\<rparr>)"
  "decode_features zero_features (features_elem []) = Inr zero_features"
  by (simp_all add: decode_features_def features_elem_def mechanisms_elem_def expect_name_def StreamFeatures_child_def
      ns_defs Let_def child_elems_def zero_features_def elem_text_def)

lemma sample_bound: "\<exists>r. iq_of bound_elem = Inr r \<and> iqPayload r = Some (PBind sample_bind)"
  by (simp add: iq_of_def bound_elem_def IQ_step_def registration_simps payload_of_def decode_bind_def expect_name_def
      elem_text_def Let_def sample_bind_def zero_bind_def)

lemma sample_good_script: "good_script sample_script sample_bind"
  unfolding good_script_def using sample_bound
  by (simp add: sample_script_def sample_features)
    (simp add: features_elem_def bound_elem_def only_plain_def StreamSession_IsOptional_def zero_features_def
      zero_stream_session_def)

text \<open>A server that offers TLS, and the client's transport when it has read the stream header.\<close>

definition starttls_elem :: xml where
  "starttls_elem = Elem (XName nsTLS ''starttls'') [] []"

definition tls_tokens :: "xtoken list" where
  "tls_tokens = xml_tokens (features_elem [starttls_elem]) @ xml_tokens (Elem (XName nsTLS ''proceed'') [] [])"

definition sample_peer :: server where
  "sample_peer = (sample_server tls_tokens [])\<lparr>svSecure := after (script_tokens sample_script) [] no_decoder\<rparr>"

definition sample_opened :: xmpp_transport where
  "sample_opened = (sample_reader Clear [])\<lparr>xtServer := Some sample_peer, xtDecoder := after tls_tokens (in_stream []) no_decoder\<rparr>"

definition sample_jid :: jid where
  "sample_jid = \<lparr>jidNode = ''juliet'', jidDomain = ''localhost'', jidResource = ''balcony''\<rparr>"

definition sample_client_config :: config where
  "sample_client_config = \<lparr>cfTransport = sample_config, cfJid = ''juliet@localhost/balcony'',
     cfParsedJid = Some sample_jid,
     cfCredential = Password ''secret'', cfStreamLogger = False, cfLang = [], cfKeepaliveInterval = 30, cfConnectTimeout = 15,
     cfInsecure = False, cfStreamManagementEnable = False, cfStreamManagementResume = False\<rparr>"

lemma sample_config_props:
  "\<not> cfInsecure sample_client_config" "cfParsedJid sample_client_config = Some sample_jid"
  "cfCredential sample_client_config = Password ''secret''" "\<not> cfStreamManagementEnable sample_client_config"
  by (simp_all add: sample_client_config_def)

lemma sample_starttls:
  "\<exists>f. decode_features zero_features (features_elem [starttls_elem]) = Inr f \<and> snd (DoesStartTLS f)"
  by (simp add: decode_features_def features_elem_def starttls_elem_def expect_name_def StreamFeatures_child_def
      ns_defs Let_def zero_features_def starttls_of_def DoesStartTLS_def)

lemma sample_opened_props:
  "xt_ready Clear sample_opened" "\<not> xtIsSecure sample_opened" "xtServer sample_opened = Some sample_peer"
  "xtDecoder sample_opened = after (xml_tokens (Elem (XName NSStream ''features'') [] [starttls_elem])
      @ xml_tokens (Elem (XName nsTLS ''proceed'') [] []) @ []) (in_stream []) no_decoder"
  "svHandshake sample_peer = None" "svVerifyHostname sample_peer = None"
  "svSecure sample_peer = after (script_tokens sample_script) [] no_decoder"
  "xtOut sample_opened = []"
  by (simp_all add: sample_opened_def sample_peer_def sample_server_def sample_reader_def xt_ready_def new_xmpp_transport_def
      tls_tokens_def features_elem_def)

theorem NewSession_established_witness:
  "\<exists>s c t'. NewSession sample_crypto package_codec None zero_sm_state sample_client_config (TCP sample_opened) = (Inr (Some s, None), c)
    \<and> sessBindJid s = ''juliet@localhost/balcony'' \<and> cnTransport c = TCP t' \<and> length (xtOut t') = 5"
proof -
  obtain f0 where f0: "decode_features zero_features (Elem (XName NSStream ''features'') [] [starttls_elem]) = Inr f0"
    "snd (DoesStartTLS f0)"
    using sample_starttls by (auto simp: features_elem_def)
  have "bindJid sample_bind = ''juliet@localhost/balcony''" by (simp add: sample_bind_def)
  moreover have "length (messages Encrypted p sample_jid ''secret'' i) = 4" for p i by (simp add: messages_def)
  ultimately show ?thesis
    using NewSession_established [OF sample_opened_props(1,2,3,5,6) in_stream_not_at_eof sample_opened_props(4) f0
        not_at_eof_simps(1) sample_opened_props(7) sample_good_script sample_config_props(2,3,4), of sample_crypto] sample_opened_props(8)
    by fastforce
qed

theorem NewSession_no_cleartext_witness:
  "tr.clear_writes (cnTransport (snd (NewSession sample_crypto package_codec None zero_sm_state sample_client_config (TCP sample_opened))))
    \<subseteq> {starttls_nonza}"
proof -
  have "tr.honest (TCP sample_opened)" "tr.clear_writes (TCP sample_opened) = {}"
    using sample_opened_props by (simp_all add: tr.honest_def tr.clear_writes_def)
  then show ?thesis using NewSession_no_cleartext [OF _ sample_config_props(1), of "TCP sample_opened"] by metis
qed

text \<open>The same server, attacked: at the second connection it offers no TLS.\<close>

definition sample_stripped :: server where
  "sample_stripped = (sample_server [] [])\<lparr>svPlain := new_decoder (header ''s0'' @ xml_tokens (features_elem [])
     @ script_tokens sample_script)\<rparr>"

theorem NewSession_reconnect_cleartext_witness:
  "\<exists>t s0 c. OSASLAuth ''PLAIN'' (b64_encode (plain_message ''juliet'' ''secret'')) \<in> tr.clear_writes (cnTransport c)
    \<and> c = snd (NewSession sample_crypto package_codec (Some s0) zero_sm_state sample_client_config (TCP (snd (xt_Connect t))))"
proof -
  let ?t = "sample_opened\<lparr>xtIsSecure := True, xtServers := [sample_stripped]\<rparr>"
  let ?s0 = "(new_session zero_sm_state)\<lparr>sessTlsEnabled := True\<rparr>"
  have sv: "svDial sample_stripped = None" "\<forall>k. svWrite sample_stripped k = WOk"
    "svPlain sample_stripped = new_decoder (header ''s0'' @ xml_tokens (Elem (XName NSStream ''features'') [] []) @ script_tokens sample_script)"
    by (simp_all add: sample_stripped_def sample_server_def features_elem_def)
  have f0: "decode_features zero_features (Elem (XName NSStream ''features'') [] []) = Inr zero_features"
    using sample_features(2) by (simp add: features_elem_def)
  obtain s c where "NewSession sample_crypto package_codec (Some ?s0) zero_sm_state sample_client_config (TCP (snd (xt_Connect ?t))) = (Inr (Some s, None), c)"
    "OSASLAuth ''PLAIN'' (b64_encode (plain_message ''juliet'' ''secret'')) \<in> tr.clear_writes (cnTransport c)"
    using NewSession_reconnect_cleartext [of ?t sample_stripped "[]", OF _ _ sv f0 sample_good_script _ sample_config_props(1,4,2,3),
        of ?s0 sample_crypto zero_sm_state] by (auto simp: sample_jid_def)
  then show ?thesis by (metis snd_conv)
qed

subsection \<open>Resuming\<close>

definition resumed_elem :: "string \<Rightarrow> string \<Rightarrow> xml" where
  "resumed_elem previd h = Elem (XName NSStreamManagement ''resumed'') [(XName [] ''previd'', previd), (XName [] ''h'', h)] []"

lemma NextPacket_resumed:
  assumes "not_at_eof stk" "xml_uint h = Inr n"
  shows "NextPacket cdc (after (xml_tokens (resumed_elem previd h) @ rest) stk d) =
    Inr (PktSMResumed \<lparr>smrPrevId = previd, smrH = Some n\<rparr>, after rest stk d)"
proof -
  have ns: "NSStreamManagement \<noteq> NSStream" "NSStreamManagement \<noteq> NSSASL" "NSStreamManagement \<noteq> NSClient"
    "NSStreamManagement \<noteq> NSComponent" by (simp_all add: ns_defs)
  show ?thesis
    using assms by (simp add: NextPacket_def resumed_elem_def NextXmppToken_elem decode_packet_def sm_decode_def ns
        as_packet_def decode_struct_tree decode_sm_resumed_def expect_name_def del: xml_tokens.simps)
qed

text \<open>
  C16. When the server accepts to resume with the count \<open>n\<close>, the client has asked for the session with
  its identifier and its count of received stanzas, the session counts as resumed, and of the stanzas
  waiting for an acknowledgement exactly those that the client numbered above \<open>n\<close> stay, in order. The
  client's numbers are not always the server's: the initial presence has none, and they start again
  when the queue empties. Nothing else of the session changes. A different identifier ends the attempt
  with an error and forgets the session.
\<close>

theorem Session_resume_resumed:
  assumes "can_resume (cnConfig c) (cnSession c)" "cnTransport c = TCP t" "xt_ready ch t" "not_at_eof stk"
    and "xtDecoder t = after (xml_tokens (resumed_elem previd h) @ rest) stk d" "xml_uint h = Inr n"
    and "smsUnAckQueue (sessSMState (cnSession c)) = Some q" "uaq_inv q"
  shows "\<exists>b s q' t'. Session_resume cdc c = (Inr b, \<lparr>cnSession = s, cnTransport = TCP t', cnConfig = cnConfig c\<rparr>)
    \<and> xtOut t' = xtOut t @ [(ch, OSMResume (smsId (sessSMState (cnSession c))) (smsInbound (sessSMState (cnSession c))))]
    \<and> b = (previd = smsId (sessSMState (cnSession c)))
    \<and> s = (if b then (cnSession c)\<lparr>sessErr := None, sessResumed := True,
               sessSMState := (sessSMState (cnSession c))\<lparr>smsUnAckQueue := Some q'\<rparr>\<rparr>
           else (cnSession c)\<lparr>sessErr := Some (Err ''session resumption: mismatched id''), sessSMState := zero_sm_state\<rparr>)
    \<and> Uslice q' = filter (\<lambda>u. sint n < sint (uId u)) (Uslice q)"
proof -
  have q: "Uslice (drop_acked n q) = filter (\<lambda>u. sint n < sint (uId u)) (Uslice q)"
    using assms(8) by (rule drop_acked_filter)
  have w: "tr_Write p (TCP t) = (Inr True, TCP (wrote ch p t))" for p
    using assms(3) by (simp add: xt_Write_ready)
  obtain s0 cfg where c: "c = \<lparr>cnSession = s0, cnTransport = TCP t, cnConfig = cfg\<rparr>"
    using assms(2) by (cases c) auto
  have s0: "smsUnAckQueue (sessSMState s0) = Some q" "can_resume cfg s0"
    using assms(1,7) by (simp_all add: c)
  define rep where "rep = (Inr (PktSMResumed \<lparr>smrPrevId = previd, smrH = Some n\<rparr>) :: error + packet)"
  define t' where "t' = (wrote ch (OSMResume (smsId (sessSMState s0)) (smsInbound (sessSMState s0))) t)\<lparr>xtDecoder := after rest stk d\<rparr>"
  have run: "Session_resume cdc c =
      (Inr (fst (resume_reply rep s0)), \<lparr>cnSession = snd (resume_reply rep s0), cnTransport = TCP t', cnConfig = cfg\<rparr>)"
    by (simp add: c s0 Session_resume_def Let_def andThen_def on_transport_def w tr_read_def assms(5)
        NextPacket_resumed [OF assms(4,6)] upd_def rep_def t'_def del: tr_Write.simps)
  have rep: "resume_reply rep s0 = (previd = smsId (sessSMState s0),
      if previd = smsId (sessSMState s0)
      then s0\<lparr>sessErr := None, sessResumed := True, sessSMState := (sessSMState s0)\<lparr>smsUnAckQueue := Some (drop_acked n q)\<rparr>\<rparr>
      else s0\<lparr>sessErr := Some (Err ''session resumption: mismatched id''), sessSMState := zero_sm_state\<rparr>)"
    by (simp add: rep_def resume_reply_def s0)
  have out: "xtOut t' = xtOut t @ [(ch, OSMResume (smsId (sessSMState s0)) (smsInbound (sessSMState s0)))]"
    by (simp add: t'_def)
  show ?thesis
    by (rule exI [of _ "previd = smsId (sessSMState s0)"], rule exI [of _ "snd (resume_reply rep s0)"],
        rule exI [of _ "drop_acked n q"], rule exI [of _ t']) (simp add: run rep q out, simp add: c)
qed

text \<open>A session with three stanzas that wait, of which the server has counted two.\<close>

definition sample_resumable :: conn where
  "sample_resumable = \<lparr>cnSession = (new_session zero_sm_state)\<lparr>sessFeatures := zero_features\<lparr>sfStreamManagement := XName NSStreamManagement ''sm''\<rparr>,
       sessSMState := zero_sm_state\<lparr>smsId := ''sm1'', smsInbound := 7,
         smsUnAckQueue := Some \<lparr>Uslice = [\<lparr>uId = 1, uStz = ''a''\<rparr>, \<lparr>uId = 2, uStz = ''b''\<rparr>, \<lparr>uId = 3, uStz = ''c''\<rparr>]\<rparr>\<rparr>\<rparr>,
     cnTransport = TCP (sample_reader Encrypted (xml_tokens (resumed_elem ''sm1'' ''2'') @ [])),
     cnConfig = sample_client_config\<lparr>cfStreamManagementEnable := True, cfStreamManagementResume := True\<rparr>\<rparr>"

theorem Session_resume_resumed_witness:
  "\<exists>c'. Session_resume package_codec sample_resumable = (Inr True, c')
    \<and> (\<exists>q. smsUnAckQueue (sessSMState (cnSession c')) = Some q \<and> map uStz (Uslice q) = [''c''])"
proof -
  let ?q = "\<lparr>Uslice = [\<lparr>uId = 1, uStz = ''a''\<rparr>, \<lparr>uId = 2, uStz = ''b''\<rparr>, \<lparr>uId = 3, uStz = ''c''\<rparr>]\<rparr>"
  have r: "can_resume (cnConfig sample_resumable) (cnSession sample_resumable)"
    by (simp add: sample_resumable_def can_resume_def DoesStreamManagement_def ns_defs)
  have h: "xml_uint ''2'' = Inr 2"
    by (simp add: xml_uint_def Let_def digit_val_def trim_left.simps decode_rune_def IsSpace_def)
  have inv: "uaq_inv ?q" by (rule uaq_invI [of _ 1 "[''a'', ''b'', ''c'']"]) simp_all
  have t: "cnTransport sample_resumable = TCP (sample_reader Encrypted (xml_tokens (resumed_elem ''sm1'' ''2'') @ []))"
    "smsUnAckQueue (sessSMState (cnSession sample_resumable)) = Some ?q" "smsId (sessSMState (cnSession sample_resumable)) = ''sm1''"
    by (simp_all add: sample_resumable_def)
  from Session_resume_resumed [OF r t(1) sample_reader_ready(1) not_at_eof_simps(1) sample_reader_ready(2) h t(2) inv, of package_codec]
  show ?thesis using t(3) by fastforce
qed

text \<open>
  When stream management is to be enabled and the server answers \<^verbatim>\<open><failed/>\<close>, the
  negotiation ends with an error that names the condition; without a condition it panics.
\<close>

theorem EnableStreamManagement_failed:
  assumes "cnTransport c = TCP t" "xt_ready ch t" "sessErr (cnSession c) = None"
    and "DoesStreamManagement (sessFeatures (cnSession c))" "cfStreamManagementEnable (cnConfig c)"
    and "NextPacket cdc (xtDecoder t) = Inr (PktSMFailed p, d)"
  shows "\<exists>r c'. Session_EnableStreamManagement cdc c = (r, c')
    \<and> smsUnAckQueue (sessSMState (cnSession c')) = Some NewUnAckQueue
    \<and> (case smfStreamErrorGroup p of
         None \<Rightarrow> r = Inl nil_pointer
       | Some g \<Rightarrow> r = Inr () \<and> sessErr (cnSession c') = Some (Err (''failed to establish session : '' @ GroupErrorName g)))"
proof -
  have w: "tr_Write q (TCP t) = (Inr True, TCP (wrote ch q t))" for q
    using assms(2) by (simp add: xt_Write_ready)
  have r: "tr_read (NextPacket cdc) (TCP (wrote ch q t)) = (Inr (PktSMFailed p), TCP ((wrote ch q t)\<lparr>xtDecoder := d\<rparr>))" for q
    by (rule tr_read_ok) (simp add: assms(6))
  show ?thesis
    using assms(1,3,4,5)
    by (simp add: Session_EnableStreamManagement_def unless_err_def andThen_def on_transport_simps w r enable_reply_def
        upd_def set_err_def del: tr_Write.simps split: option.split)
qed

theorem EnableStreamManagement_failed_witness:
  "\<exists>c c'. Session_EnableStreamManagement package_codec c = (Inl nil_pointer, c')
    \<and> xtDecoder (case cnTransport c of TCP t \<Rightarrow> t) = after [StartElement (XName NSStreamManagement ''failed'') [], EndElement (XName NSStreamManagement ''failed'')] [] no_decoder"
proof -
  let ?ts = "[StartElement (XName NSStreamManagement ''failed'') [], EndElement (XName NSStreamManagement ''failed'')]"
  let ?c = "sample_resumable\<lparr>cnTransport := TCP (sample_reader Encrypted ?ts)\<rparr>"
  have ns: "NSStreamManagement \<noteq> NSStream" "NSStreamManagement \<noteq> NSSASL" "NSStreamManagement \<noteq> NSClient"
    "NSStreamManagement \<noteq> NSComponent" by (simp_all add: ns_defs)
  have "exact_on SMFailed_child (\<lambda>t s. Inr s) (Text [])" by (simp add: exact_on_def)
  have "DecodeSMFailed n at (inside [] n rest stk d) =
      with_decoder (after rest stk d) (Inr \<lparr>smfH = None, smfStreamErrorGroup = None\<rparr>)" for n at rest stk d
    using unmarshalInterface_tree [of "[]" SMFailed_child "\<lambda>t s. Inr s"]
    by (simp add: DecodeSMFailed_def SMFailed_UnmarshalXML_def)
  then have n: "NextPacket package_codec (xtDecoder (sample_reader Encrypted ?ts)) =
      Inr (PktSMFailed \<lparr>smfH = None, smfStreamErrorGroup = None\<rparr>, after [] [] no_decoder)"
    using NextXmppToken_elem [of "[]" "XName NSStreamManagement ''failed''" "[]" "[]" "[]" no_decoder]
    by (simp add: NextPacket_def sample_reader_ready decode_packet_def sm_decode_def ns as_packet_def)
  show ?thesis
    using EnableStreamManagement_failed [of ?c _ Encrypted package_codec, OF _ sample_reader_ready(1) _ _ _ n]
    by (auto simp: sample_resumable_def DoesStreamManagement_def ns_defs sample_reader_ready new_session_def)
qed

end
