(* ===== verification/Router.thy ===== *)
theory Router
  imports Parser
begin

text \<open>
  \<^verbatim>\<open>router.go\<close>: routes and their matchers, the dispatch of a packet, and the result routes that
  wait for the answer to an IQ.

  Handlers are code of the library's users: a handler is a value of the type parameter \<open>'h\<close>,
  and dispatching a packet gives the list of what happens (\<open>effect\<close>), in order. A result
  channel is a number. The last part models the goroutines that dispatch packets concurrently.
\<close>

subsection \<open>Matchers\<close>

text \<open>\<open>CustomMatcher\<close> is a matcher of the library's users.\<close>

datatype matcher =
    NameMatcher string
  | NsTypeMatcher "string list"
  | NsIQMatcher "string list"
  | CustomMatcher "packet \<Rightarrow> bool"

fun matchInArray :: "string list \<Rightarrow> string \<Rightarrow> bool" where
  "matchInArray [] v = False"
| "matchInArray (str # arr) v = (str = v \<or> matchInArray arr v)"

fun stanza_name :: "packet \<Rightarrow> string" where
  "stanza_name (PktMessage m) = ''message''"
| "stanza_name (PktIQ i) = ''iq''"
| "stanza_name (PktPresence p) = ''presence''"
| "stanza_name _ = []"

fun Matcher_Match :: "matcher \<Rightarrow> packet \<Rightarrow> bool" where
  "Matcher_Match (NameMatcher n) p = (stanza_name p = n)"
| "Matcher_Match (NsTypeMatcher m) p =
     (case p of
        PktIQ i \<Rightarrow> matchInArray m (aType (iqAttrs i))
      | PktPresence q \<Rightarrow> matchInArray m (aType (presAttrs q))
      | PktMessage q \<Rightarrow> matchInArray m (if aType (msgAttrs q) = [] then ''normal'' else aType (msgAttrs q))
      | _ \<Rightarrow> False)"
| "Matcher_Match (NsIQMatcher m) p =
     (case p of
        PktIQ i \<Rightarrow> (case iqPayload i of None \<Rightarrow> False | Some pl \<Rightarrow> matchInArray m (payload_Namespace pl))
      | _ \<Rightarrow> False)"
| "Matcher_Match (CustomMatcher f) p = f p"

subsection \<open>Routes\<close>

text \<open>A route without a handler holds nil.\<close>

record 'h route =
  rtHandler :: "'h option"
  rtMatchers :: "matcher list"

record 'h router =
  rRoutes :: "'h route list"
  rIQResultRoutes :: "string \<Rightarrow> nat option"
  rChannels :: nat

definition NewRouter :: "'h router" where
  "NewRouter = \<lparr>rRoutes = [], rIQResultRoutes = (\<lambda>_. None), rChannels = 0\<rparr>"

definition empty_route :: "'h route" where
  "empty_route = \<lparr>rtHandler = None, rtMatchers = []\<rparr>"

text \<open>
  \<^verbatim>\<open>NewRoute\<close> returns a pointer into the router; building the route further (\<open>with_route\<close>)
  changes the last route.
\<close>

definition NewRoute :: "'h router \<Rightarrow> 'h router" where
  "NewRoute r = r\<lparr>rRoutes := rRoutes r @ [empty_route]\<rparr>"

definition with_route :: "('h route \<Rightarrow> 'h route) \<Rightarrow> 'h router \<Rightarrow> 'h router" where
  "with_route f r = r\<lparr>rRoutes := butlast (rRoutes r) @ [f (last (rRoutes r))]\<rparr>"

definition Route_Handler :: "'h \<Rightarrow> 'h route \<Rightarrow> 'h route" where
  "Route_Handler h rt = rt\<lparr>rtHandler := Some h\<rparr>"

definition Route_AddMatcher :: "matcher \<Rightarrow> 'h route \<Rightarrow> 'h route" where
  "Route_AddMatcher m rt = rt\<lparr>rtMatchers := rtMatchers rt @ [m]\<rparr>"

definition Route_Packet :: "(string \<Rightarrow> string) \<Rightarrow> string \<Rightarrow> 'h route \<Rightarrow> 'h route" where
  "Route_Packet lower name = Route_AddMatcher (NameMatcher (ToLower lower name))"

definition Route_StanzaType :: "(string \<Rightarrow> string) \<Rightarrow> string list \<Rightarrow> 'h route \<Rightarrow> 'h route" where
  "Route_StanzaType lower types = Route_AddMatcher (NsTypeMatcher (map (ToLower lower) types))"

definition Route_IQNamespaces :: "(string \<Rightarrow> string) \<Rightarrow> string list \<Rightarrow> 'h route \<Rightarrow> 'h route" where
  "Route_IQNamespaces lower namespaces = Route_AddMatcher (NsIQMatcher (map (ToLower lower) namespaces))"

definition Router_Handle :: "(string \<Rightarrow> string) \<Rightarrow> string \<Rightarrow> 'h \<Rightarrow> 'h router \<Rightarrow> 'h router" where
  "Router_Handle lower name h r = with_route (\<lambda>rt. Route_Handler h (Route_Packet lower name rt)) (NewRoute r)"

fun match_all :: "matcher list \<Rightarrow> packet \<Rightarrow> bool" where
  "match_all [] p = True"
| "match_all (m # ms) p = (if \<not> Matcher_Match m p then False else match_all ms p)"

definition Route_Match :: "packet \<Rightarrow> 'h route \<Rightarrow> bool" where
  "Route_Match p rt = match_all (rtMatchers rt) p"

fun first_match :: "'h route list \<Rightarrow> packet \<Rightarrow> 'h route option" where
  "first_match [] p = None"
| "first_match (rt # rts) p = (if Route_Match p rt then Some rt else first_match rts p)"

definition Router_Match :: "packet \<Rightarrow> 'h router \<Rightarrow> 'h route option" where
  "Router_Match p r = first_match (rRoutes r) p"

subsection \<open>Result routes\<close>

definition NewIQResultRoute :: "string \<Rightarrow> 'h router \<Rightarrow> nat \<times> 'h router" where
  "NewIQResultRoute i r =
     (rChannels r, r\<lparr>rIQResultRoutes := (rIQResultRoutes r)(i := Some (rChannels r)), rChannels := Suc (rChannels r)\<rparr>)"

definition RemoveIQResultRoute :: "string \<Rightarrow> 'h router \<Rightarrow> 'h router" where
  "RemoveIQResultRoute i r = r\<lparr>rIQResultRoutes := (rIQResultRoutes r)(i := None)\<rparr>"

subsection \<open>Dispatch\<close>

text \<open>
  \<open>EMissing h\<close> calls \<^verbatim>\<open>SendMissingStz\<close>, \<open>EDeliver\<close> sends an IQ on a result channel and closes
  the channel, \<open>EHandle\<close> runs a handler, \<open>ENilHandler\<close> is the panic of a route without one, and
  \<open>ESend\<close> sends an IQ.
\<close>

datatype 'h effect =
    EMissing gouint
  | EDeliver nat iq
  | EHandle 'h packet
  | ENilHandler
  | ESend iq

datatype sender_kind = SClient | SComponent | SOther

definition iqNotImplemented :: "iq \<Rightarrow> iq" where
  "iqNotImplemented i =
     IQ_MakeError \<lparr>errXMLName = XName [] ''error'', errCode = 501, errType = ''cancel'',
       errReason = ''feature-not-implemented'', errText = []\<rparr> i"

definition route_packet :: "packet \<Rightarrow> 'h router \<Rightarrow> 'h effect list" where
  "route_packet p r =
     (case Router_Match p r of
        Some rt \<Rightarrow> (case rtHandler rt of Some h \<Rightarrow> [EHandle h p] | None \<Rightarrow> [ENilHandler])
      | None \<Rightarrow>
          (case p of
             PktIQ i \<Rightarrow>
               if aType (iqAttrs i) = ''get'' \<or> aType (iqAttrs i) = ''set'' then [ESend (iqNotImplemented i)] else []
           | _ \<Rightarrow> []))"

definition Router_route :: "sender_kind \<Rightarrow> packet \<Rightarrow> 'h router \<Rightarrow> 'h effect list \<times> 'h router" where
  "Router_route s p r =
     (let missing = (case p of PktSMAnswer h \<Rightarrow> if s = SClient then [EMissing h] else [] | _ \<Rightarrow> []) in
      case p of
        PktIQ i \<Rightarrow>
          (case rIQResultRoutes r (aId (iqAttrs i)) of
             Some ch \<Rightarrow> ([EDeliver ch i], RemoveIQResultRoute (aId (iqAttrs i)) r)
           | None \<Rightarrow> (route_packet p r, r))
      | _ \<Rightarrow> (missing @ route_packet p r, r))"

subsection \<open>Properties of the dispatch\<close>

lemma matchInArray_iff [simp]: "matchInArray arr v \<longleftrightarrow> v \<in> set arr"
  by (induction arr) auto

lemma match_all_iff: "match_all ms p \<longleftrightarrow> list_all (\<lambda>m. Matcher_Match m p) ms"
  by (induction ms) auto

lemma first_match_None: "first_match rts p = None \<longleftrightarrow> filter (Route_Match p) rts = []"
  by (induction rts) auto

lemma first_match_Some:
  "first_match rts p = Some rt \<longleftrightarrow> (\<exists>pre post. rts = pre @ rt # post \<and> filter (Route_Match p) pre = [] \<and> Route_Match p rt)"
proof (induction rts)
  case (Cons r rts)
  show ?case
  proof (cases "Route_Match p r")
    case True
    then show ?thesis by (auto simp: Cons_eq_append_conv intro: exI [of _ "[]"])
  next
    case False
    have "(\<exists>pre post. r # rts = pre @ rt # post \<and> filter (Route_Match p) pre = [] \<and> Route_Match p rt)
        \<longleftrightarrow> (\<exists>pre post. rts = pre @ rt # post \<and> filter (Route_Match p) pre = [] \<and> Route_Match p rt)" (is "?L = ?R")
    proof
      assume ?L
      with False show ?R by (auto simp: Cons_eq_append_conv)
    next
      assume ?R
      then obtain pre post where "rts = pre @ rt # post" "filter (Route_Match p) pre = []" "Route_Match p rt" by blast
      then show ?L using False by (intro exI [of _ "r # pre"] exI [of _ post]) simp
    qed
    with False Cons.IH show ?thesis by simp
  qed
qed simp

text \<open>
  C21. Routes are tried in the order they were added, and the first one whose matchers all match
  is taken: the route found is one that matches and that no matching route precedes, and none is
  found exactly when none matches.
\<close>

theorem Router_Match_first:
  "(Router_Match p r = Some rt \<longleftrightarrow>
      (\<exists>pre post. rRoutes r = pre @ rt # post \<and> filter (Route_Match p) pre = []
         \<and> list_all (\<lambda>m. Matcher_Match m p) (rtMatchers rt)))
   \<and> (Router_Match p r = None \<longleftrightarrow> filter (Route_Match p) (rRoutes r) = [])"
  by (simp add: Router_Match_def first_match_Some first_match_None Route_Match_def match_all_iff)

text \<open>
  C22. What is done with an IQ request (\<^verbatim>\<open>get\<close> or \<^verbatim>\<open>set\<close>) that no result route waits for: exactly one of
  three things. The handler of the first matching route runs; or the program panics, when the first
  matching route was given no handler; or, only when no route matches, the requester gets an error
  reply with the same identifier, with the addresses exchanged.
\<close>

theorem route_request_answered:
  assumes "aType (iqAttrs i) = ''get'' \<or> aType (iqAttrs i) = ''set''" "rIQResultRoutes r (aId (iqAttrs i)) = None"
  shows "\<exists>e. Router_route s (PktIQ i) r = ([e], r)
    \<and> (case e of
         EHandle h p \<Rightarrow> p = PktIQ i \<and> (\<exists>rt. Router_Match p r = Some rt \<and> rtHandler rt = Some h)
       | ENilHandler \<Rightarrow> (\<exists>rt. Router_Match (PktIQ i) r = Some rt \<and> rtHandler rt = None)
       | ESend reply \<Rightarrow> filter (Route_Match (PktIQ i)) (rRoutes r) = [] \<and> aType (iqAttrs reply) = ''error''
           \<and> aId (iqAttrs reply) = aId (iqAttrs i) \<and> aTo (iqAttrs reply) = aFrom (iqAttrs i)
           \<and> aFrom (iqAttrs reply) = aTo (iqAttrs i) \<and> map_option errCode (iqError reply) = Some 501
       | _ \<Rightarrow> False)"
  using assms
  by (auto simp: Router_route_def route_packet_def iqNotImplemented_def IQ_MakeError_def Let_def Router_Match_def
      first_match_None [symmetric] split: option.split)

definition sample_request :: iq where
  "sample_request = zero_iq\<lparr>iqAttrs := zero_attrs\<lparr>aType := ''get'', aId := ''q1'', aFrom := ''a@b'', aTo := ''c@d''\<rparr>\<rparr>"

theorem route_request_answered_witness:
  "\<exists>reply. Router_route SClient (PktIQ sample_request) (NewRouter :: nat router) = ([ESend reply], NewRouter)
    \<and> aTo (iqAttrs reply) = ''a@b''"
proof -
  have "aType (iqAttrs sample_request) = ''get''" "aFrom (iqAttrs sample_request) = ''a@b''"
    by (simp_all add: sample_request_def)
  moreover have "rIQResultRoutes (NewRouter :: nat router) x = None" "Router_Match p (NewRouter :: nat router) = None" for x p
    by (simp_all add: NewRouter_def Router_Match_def)
  moreover note route_request_answered [of sample_request "NewRouter :: nat router" SClient]
  ultimately show ?thesis
    apply simp
    apply (elim exE)
    subgoal for e by (cases e) auto
    done
qed

text \<open>
  A result route is used once: after registering an identifier, the first IQ with it goes to
  the new channel, the route is gone, and the next IQ with the same identifier is dispatched to
  the routes like any other. Every other pending result route stays.
\<close>

theorem NewIQResultRoute_once:
  assumes "aId (iqAttrs i) = x" "aId (iqAttrs j) = x"
  shows "\<exists>ch r1 r2. NewIQResultRoute x r = (ch, r1) \<and> Router_route s (PktIQ i) r1 = ([EDeliver ch i], r2)
    \<and> Router_route s (PktIQ j) r2 = (route_packet (PktIQ j) r, r2)
    \<and> rIQResultRoutes r2 = (rIQResultRoutes r)(x := None)"
  using assms
  by (simp add: NewIQResultRoute_def Router_route_def RemoveIQResultRoute_def route_packet_def Router_Match_def)

theorem NewIQResultRoute_once_witness:
  "\<exists>ch r1 r2. NewIQResultRoute ''q1'' (NewRouter :: nat router) = (ch, r1)
    \<and> Router_route SClient (PktIQ sample_request) r1 = ([EDeliver ch sample_request], r2)"
  using NewIQResultRoute_once [of sample_request "''q1''" sample_request "NewRouter :: nat router" SClient]
  by (auto simp: sample_request_def)

text \<open>
  A route for a name space that contains a capital letter never matches: the name spaces of
  the route are put in lower case, the name space of the packet is not.
\<close>

theorem IQNamespaces_capital:
  assumes "is_ascii ns" "map lower_char ns \<noteq> ns" "iqPayload i = Some pl" "payload_Namespace pl = ns"
  shows "\<not> Route_Match (PktIQ i) (Route_IQNamespaces lower [ns] rt)"
  using assms by (auto simp: Route_Match_def Route_IQNamespaces_def Route_AddMatcher_def match_all_iff ToLower_def)

theorem IQNamespaces_capital_witness:
  "\<not> Route_Match (PktIQ (zero_iq\<lparr>iqPayload := Some (PExt ''T'' (Elem (XName ''urn:Example'' ''q'') [] []))\<rparr>))
       (Route_IQNamespaces (\<lambda>s. s) [''urn:Example''] (empty_route :: nat route))"
proof -
  have "map lower_char ''urn:Example'' \<noteq> ''urn:Example''" by code_simp
  then show ?thesis
    by (intro IQNamespaces_capital [where pl = "PExt ''T'' (Elem (XName ''urn:Example'' ''q'') [] [])"])
      (simp_all add: is_ascii_def)
qed

subsection \<open>Concurrent dispatch\<close>

text \<open>
  \<^verbatim>\<open>recv\<close> starts one goroutine per packet, so that IQs are dispatched concurrently. The goroutine
  \<open>g\<close>, which dispatches the IQ \<open>iqs g\<close>, looks its result route up under the read lock, removes
  it under the write lock, sends the IQ on the channel once the other side receives, and closes
  the channel: these are its atomic steps, and any step of another goroutine may come in between.
  A result route is also removed when its context is done or the request could not be sent.
\<close>

datatype pc = PcStart | PcFound nat | PcDeleted nat | PcSent nat | PcDone

record dispatch =
  dRoutes :: "string \<Rightarrow> nat option"
  dNext :: nat
  dClosed :: "nat set"
  dGot :: "nat \<Rightarrow> iq list"
  dPc :: "nat \<Rightarrow> pc"
  dPanic :: bool

definition dispatch_start :: dispatch where
  "dispatch_start = \<lparr>dRoutes = (\<lambda>_. None), dNext = 0, dClosed = {}, dGot = (\<lambda>_. []), dPc = (\<lambda>_. PcStart), dPanic = False\<rparr>"

definition iq_id :: "iq \<Rightarrow> string" where
  "iq_id i = aId (iqAttrs i)"

definition found :: "nat option \<Rightarrow> pc" where
  "found r = (case r of Some ch \<Rightarrow> PcFound ch | None \<Rightarrow> PcDone)"

inductive dispatch_step :: "(nat \<Rightarrow> iq) \<Rightarrow> dispatch \<Rightarrow> dispatch \<Rightarrow> bool" for iqs where
  register: "dispatch_step iqs d (d\<lparr>dRoutes := (dRoutes d)(x := Some (dNext d)), dNext := Suc (dNext d)\<rparr>)"
| remove: "dispatch_step iqs d (d\<lparr>dRoutes := (dRoutes d)(x := None)\<rparr>)"
| lookup: "dPc d g = PcStart \<Longrightarrow>
    dispatch_step iqs d (d\<lparr>dPc := (dPc d)(g := found (dRoutes d (iq_id (iqs g))))\<rparr>)"
| delete: "dPc d g = PcFound ch \<Longrightarrow>
    dispatch_step iqs d (d\<lparr>dRoutes := (dRoutes d)(iq_id (iqs g) := None), dPc := (dPc d)(g := PcDeleted ch)\<rparr>)"
| send: "dPc d g = PcDeleted ch \<Longrightarrow> ch \<notin> dClosed d \<Longrightarrow>
    dispatch_step iqs d (d\<lparr>dGot := (dGot d)(ch := dGot d ch @ [iqs g]), dPc := (dPc d)(g := PcSent ch)\<rparr>)"
| send_closed: "dPc d g = PcDeleted ch \<Longrightarrow> ch \<in> dClosed d \<Longrightarrow> dispatch_step iqs d (d\<lparr>dPanic := True\<rparr>)"
| close: "dPc d g = PcSent ch \<Longrightarrow> ch \<notin> dClosed d \<Longrightarrow>
    dispatch_step iqs d (d\<lparr>dClosed := insert ch (dClosed d), dPc := (dPc d)(g := PcDone)\<rparr>)"
| close_closed: "dPc d g = PcSent ch \<Longrightarrow> ch \<in> dClosed d \<Longrightarrow> dispatch_step iqs d (d\<lparr>dPanic := True\<rparr>)"

inductive_cases dispatch_stepE: "dispatch_step iqs d d'"

abbreviation dispatch_reaches :: "(nat \<Rightarrow> iq) \<Rightarrow> dispatch \<Rightarrow> dispatch \<Rightarrow> bool" where
  "dispatch_reaches iqs \<equiv> (dispatch_step iqs)\<^sup>*\<^sup>*"

definition holds :: "dispatch \<Rightarrow> nat \<Rightarrow> nat \<Rightarrow> bool" where
  "holds d g ch \<longleftrightarrow> dPc d g \<in> {PcFound ch, PcDeleted ch, PcSent ch}"

text \<open>
  The invariant when no two IQs have the same identifier: a channel belongs to one identifier
  and one goroutine, it is closed after its one delivery, and then nothing refers to it.
\<close>

definition dispatch_inv :: "(nat \<Rightarrow> iq) \<Rightarrow> dispatch \<Rightarrow> bool" where
  "dispatch_inv iqs d \<longleftrightarrow>
     (\<forall>x ch. dRoutes d x = Some ch \<longrightarrow> ch < dNext d \<and> ch \<notin> dClosed d \<and> dGot d ch = []
        \<and> (\<forall>y. dRoutes d y = Some ch \<longrightarrow> y = x)
        \<and> (\<forall>g. holds d g ch \<longrightarrow> x = iq_id (iqs g) \<and> dPc d g = PcFound ch))
   \<and> (\<forall>g ch. holds d g ch \<longrightarrow> ch < dNext d \<and> ch \<notin> dClosed d
        \<and> (dGot d ch \<noteq> [] \<longrightarrow> dPc d g = PcSent ch) \<and> (\<forall>g'. holds d g' ch \<longrightarrow> g' = g))
   \<and> (\<forall>ch. length (dGot d ch) \<le> 1 \<and> (dGot d ch \<noteq> [] \<longrightarrow> ch < dNext d))
   \<and> (\<forall>ch. ch \<in> dClosed d \<longrightarrow> ch < dNext d)
   \<and> \<not> dPanic d"

lemma holds_updates [simp]:
  "holds (d\<lparr>dPc := (dPc d)(g := p)\<rparr>) g' ch =
     (if g' = g then p \<in> {PcFound ch, PcDeleted ch, PcSent ch} else holds d g' ch)"
  "holds (d\<lparr>dRoutes := rs, dPc := (dPc d)(g := p)\<rparr>) g' ch =
     (if g' = g then p \<in> {PcFound ch, PcDeleted ch, PcSent ch} else holds d g' ch)"
  "holds (d\<lparr>dGot := gs, dPc := (dPc d)(g := p)\<rparr>) g' ch =
     (if g' = g then p \<in> {PcFound ch, PcDeleted ch, PcSent ch} else holds d g' ch)"
  "holds (d\<lparr>dClosed := cs, dPc := (dPc d)(g := p)\<rparr>) g' ch =
     (if g' = g then p \<in> {PcFound ch, PcDeleted ch, PcSent ch} else holds d g' ch)"
  "holds (d\<lparr>dRoutes := rs\<rparr>) g' ch = holds d g' ch"
  "holds (d\<lparr>dRoutes := rs, dNext := n\<rparr>) g' ch = holds d g' ch"
  by (simp_all add: holds_def)

lemma holds_pc: "dPc d g = PcFound ch \<Longrightarrow> holds d g ch" "dPc d g = PcDeleted ch \<Longrightarrow> holds d g ch"
  "dPc d g = PcSent ch \<Longrightarrow> holds d g ch"
  by (simp_all add: holds_def)

lemma dispatch_inv_start: "dispatch_inv iqs dispatch_start"
  by (simp add: dispatch_inv_def dispatch_start_def holds_def)

lemma inv_routes:
  assumes "dispatch_inv iqs d" "dRoutes d x = Some ch"
  shows "ch < dNext d" "ch \<notin> dClosed d" "dGot d ch = []" "dRoutes d y = Some ch \<Longrightarrow> y = x"
    "holds d g ch \<Longrightarrow> x = iq_id (iqs g) \<and> dPc d g = PcFound ch"
  using assms unfolding dispatch_inv_def by blast+

lemma inv_holds:
  assumes "dispatch_inv iqs d" "holds d g ch"
  shows "ch < dNext d" "ch \<notin> dClosed d" "dGot d ch \<noteq> [] \<Longrightarrow> dPc d g = PcSent ch" "holds d g' ch \<Longrightarrow> g' = g"
  using assms unfolding dispatch_inv_def by blast+

lemma inv_channels:
  assumes "dispatch_inv iqs d"
  shows "length (dGot d ch) \<le> 1" "dGot d ch \<noteq> [] \<Longrightarrow> ch < dNext d" "ch \<in> dClosed d \<Longrightarrow> ch < dNext d" "\<not> dPanic d"
  using assms unfolding dispatch_inv_def by blast+

lemma dispatch_invI:
  assumes "\<And>x ch. dRoutes d x = Some ch \<Longrightarrow> ch < dNext d \<and> ch \<notin> dClosed d \<and> dGot d ch = []"
    and "\<And>x y ch. dRoutes d x = Some ch \<Longrightarrow> dRoutes d y = Some ch \<Longrightarrow> y = x"
    and "\<And>x ch g. dRoutes d x = Some ch \<Longrightarrow> holds d g ch \<Longrightarrow> x = iq_id (iqs g) \<and> dPc d g = PcFound ch"
    and "\<And>g ch. holds d g ch \<Longrightarrow> ch < dNext d \<and> ch \<notin> dClosed d"
    and "\<And>g ch. holds d g ch \<Longrightarrow> dGot d ch \<noteq> [] \<Longrightarrow> dPc d g = PcSent ch"
    and "\<And>g g' ch. holds d g ch \<Longrightarrow> holds d g' ch \<Longrightarrow> g' = g"
    and "\<And>ch. length (dGot d ch) \<le> 1" "\<And>ch. dGot d ch \<noteq> [] \<Longrightarrow> ch < dNext d"
    and "\<And>ch. ch \<in> dClosed d \<Longrightarrow> ch < dNext d" "\<not> dPanic d"
  shows "dispatch_inv iqs d"
  using assms unfolding dispatch_inv_def by blast

lemma dispatch_inv_step:
  assumes "inj (\<lambda>g. iq_id (iqs g))" "dispatch_step iqs d d'" "dispatch_inv iqs d"
  shows "dispatch_inv iqs d'"
proof -
  note inv = inv_routes [OF assms(3)] inv_holds [OF assms(3)] inv_channels(2,3) [OF assms(3)]
  note inv_simp = inv_channels(1,4) [OF assms(3), unfolded One_nat_def]
  show ?thesis
  using assms(2)
proof (cases rule: dispatch_step.cases)
  case (register x)
  have fresh: "\<not> dRoutes d y = Some (dNext d)" "\<not> holds d g (dNext d)" "dNext d \<notin> dClosed d" "dGot d (dNext d) = []" for y g
    using inv_routes(1) [OF assms(3)] inv_holds(1) [OF assms(3)] inv_channels(2,3) [OF assms(3)] by blast+
  show ?thesis
    unfolding register
    by (rule dispatch_invI)
      (auto simp: fresh inv_simp split: if_splits intro: less_SucI dest: inv)
next
  case (remove x)
  show ?thesis
    unfolding remove
    by (rule dispatch_invI)
      (auto simp: inv_simp split: if_splits dest: inv)
next
  case (lookup g)
  have other: "g' = g" if "dRoutes d (iq_id (iqs g)) = Some ch" "holds d g' ch" for g' ch
    using inv_routes(5) [OF assms(3) that] assms(1) by (auto dest: injD)
  show ?thesis
    unfolding lookup(1)
    by (rule dispatch_invI)
      (auto simp: inv_simp found_def lookup(2) split: if_splits option.splits dest: inv other)
next
  case (delete g ch)
  have h: "holds d g ch" using delete(2) by (rule holds_pc)
  show ?thesis
    unfolding delete(1)
    by (rule dispatch_invI)
      (use h in \<open>auto simp: inv_simp delete(2) split: if_splits dest: inv\<close>)
next
  case (send g ch)
  have h: "holds d g ch" using send(2) by (rule holds_pc)
  show ?thesis
    unfolding send(1)
    by (rule dispatch_invI)
      (use h in \<open>auto simp: inv_simp send(2) split: if_splits dest: inv\<close>)
next
  case (send_closed g ch)
  then show ?thesis using inv_holds(2) [OF assms(3) holds_pc(2)] by blast
next
  case (close g ch)
  have h: "holds d g ch" using close(2) by (rule holds_pc)
  show ?thesis
    unfolding close(1)
    by (rule dispatch_invI)
      (use h in \<open>auto simp: inv_simp close(2) split: if_splits dest: inv\<close>)
next
  case (close_closed g ch)
  then show ?thesis using inv_holds(2) [OF assms(3) holds_pc(3)] by blast
qed
qed

lemma dispatch_inv_reaches:
  assumes "inj (\<lambda>g. iq_id (iqs g))" "dispatch_reaches iqs d d'" "dispatch_inv iqs d"
  shows "dispatch_inv iqs d'"
  using assms(2,3) by (induction rule: rtranclp_induct) (auto intro: dispatch_inv_step [OF assms(1)])

text \<open>
  C23. As long as no two incoming IQs have the same identifier, the dispatch never panics, in any
  interleaving of its goroutines with registrations and removals, and every result channel
  gets at most one IQ.
\<close>

theorem dispatch_once:
  assumes "inj (\<lambda>g. iq_id (iqs g))" "dispatch_reaches iqs dispatch_start d"
  shows "\<not> dPanic d \<and> length (dGot d ch) \<le> 1"
  using inv_channels(1,4) [OF dispatch_inv_reaches [OF assms dispatch_inv_start]] by blast

text \<open>An IQ for every number, with an identifier of that length.\<close>

definition numbered_iq :: "nat \<Rightarrow> iq" where
  "numbered_iq g = zero_iq\<lparr>iqAttrs := zero_attrs\<lparr>aId := replicate g (CHR ''x'')\<rparr>\<rparr>"

text \<open>
  Without other steps in between, a goroutine does what the sequential dispatch does: it
  delivers the IQ to the channel of its result route and removes the route.
\<close>

theorem dispatch_refines_route:
  assumes "dPc d g = PcStart" "dRoutes d = rIQResultRoutes r" "dRoutes d (iq_id (iqs g)) = Some ch" "ch \<notin> dClosed d"
  shows "\<exists>d' r'. dispatch_reaches iqs d d' \<and> Router_route s (PktIQ (iqs g)) r = ([EDeliver ch (iqs g)], r')
    \<and> dRoutes d' = rIQResultRoutes r' \<and> dGot d' ch = dGot d ch @ [iqs g] \<and> ch \<in> dClosed d' \<and> dPc d' g = PcDone"
proof -
  let ?x = "iq_id (iqs g)"
  let ?d1 = "d\<lparr>dPc := (dPc d)(g := found (dRoutes d ?x))\<rparr>"
  let ?d2 = "?d1\<lparr>dRoutes := (dRoutes ?d1)(?x := None), dPc := (dPc ?d1)(g := PcDeleted ch)\<rparr>"
  let ?d3 = "?d2\<lparr>dGot := (dGot ?d2)(ch := dGot ?d2 ch @ [iqs g]), dPc := (dPc ?d2)(g := PcSent ch)\<rparr>"
  let ?d4 = "?d3\<lparr>dClosed := insert ch (dClosed ?d3), dPc := (dPc ?d3)(g := PcDone)\<rparr>"
  have "dispatch_step iqs d ?d1" using assms(1) by (rule lookup)
  moreover have "dispatch_step iqs ?d1 ?d2" by (rule delete) (simp add: assms(3) found_def)
  moreover have "dispatch_step iqs ?d2 ?d3" by (rule send) (simp_all add: assms(4))
  moreover have "dispatch_step iqs ?d3 ?d4" by (rule close) (simp_all add: assms(4))
  ultimately have "dispatch_reaches iqs d ?d4" by (meson converse_rtranclp_into_rtranclp rtranclp.rtrancl_refl)
  then show ?thesis
    using assms(2,3) by (intro exI [of _ ?d4]) (simp add: Router_route_def RemoveIQResultRoute_def iq_id_def)
qed

theorem dispatch_once_witness:
  "\<exists>d. dispatch_reaches numbered_iq dispatch_start d \<and> dGot d 0 = [numbered_iq 3] \<and> dPc d 3 = PcDone
    \<and> \<not> dPanic d \<and> length (dGot d 0) \<le> 1"
proof -
  let ?x = "iq_id (numbered_iq 3)"
  let ?d = "dispatch_start\<lparr>dRoutes := (dRoutes dispatch_start)(?x := Some (dNext dispatch_start)), dNext := Suc (dNext dispatch_start)\<rparr>"
  have s: "dispatch_step numbered_iq dispatch_start ?d" by (rule dispatch_step.register)
  have d: "dPc ?d 3 = PcStart" "dRoutes ?d = rIQResultRoutes (NewRouter\<lparr>rIQResultRoutes := dRoutes ?d\<rparr> :: nat router)"
      "dRoutes ?d ?x = Some 0" "0 \<notin> dClosed ?d"
    by (simp_all add: dispatch_start_def)
  obtain d' where d': "dispatch_reaches numbered_iq ?d d'" "dGot d' 0 = dGot ?d 0 @ [numbered_iq 3]" "dPc d' 3 = PcDone"
    using dispatch_refines_route [where iqs = numbered_iq, OF d] by blast
  have r: "dispatch_reaches numbered_iq dispatch_start d'"
    using s d'(1) by (rule converse_rtranclp_into_rtranclp)
  have "inj (\<lambda>g. iq_id (numbered_iq g))"
    by (rule injI) (simp add: iq_id_def numbered_iq_def)
  from dispatch_once [OF this r] r d' show ?thesis by (intro exI [of _ d']) (simp add: dispatch_start_def)
qed

theorem dispatch_refines_route_witness:
  "\<exists>d d'. dispatch_reaches (\<lambda>_. sample_request) d d' \<and> dGot d' 0 = [sample_request]"
proof -
  let ?d = "dispatch_start\<lparr>dRoutes := (\<lambda>_. None)(''q1'' := Some 0), dNext := 1\<rparr>"
  let ?r = "(NewRouter :: nat router)\<lparr>rIQResultRoutes := (\<lambda>_. None)(''q1'' := Some 0)\<rparr>"
  have "iq_id sample_request = ''q1''" by (simp add: iq_id_def sample_request_def)
  then show ?thesis
    using dispatch_refines_route [of ?d 0 ?r "\<lambda>_. sample_request" 0 SClient]
    by (auto simp: dispatch_start_def)
qed

text \<open>
  C24. Two IQs with the identifier of one pending result route, dispatched concurrently, can both
  find the route: the second one then sends on a channel that the first one has closed, which
  panics.
\<close>

theorem dispatch_double_delivery:
  assumes "iq_id (iqs g) = x" "iq_id (iqs h) = x" "g \<noteq> h"
  shows "\<exists>d. dispatch_reaches iqs dispatch_start d \<and> dPanic d"
proof -
  note neq = assms(3) assms(3) [symmetric]
  let ?d0 = dispatch_start
  let ?d1 = "?d0\<lparr>dRoutes := (dRoutes ?d0)(x := Some (dNext ?d0)), dNext := Suc (dNext ?d0)\<rparr>"
  let ?d2 = "?d1\<lparr>dPc := (dPc ?d1)(g := found (dRoutes ?d1 (iq_id (iqs g))))\<rparr>"
  let ?d3 = "?d2\<lparr>dPc := (dPc ?d2)(h := found (dRoutes ?d2 (iq_id (iqs h))))\<rparr>"
  let ?d4 = "?d3\<lparr>dRoutes := (dRoutes ?d3)(iq_id (iqs g) := None), dPc := (dPc ?d3)(g := PcDeleted 0)\<rparr>"
  let ?d5 = "?d4\<lparr>dRoutes := (dRoutes ?d4)(iq_id (iqs h) := None), dPc := (dPc ?d4)(h := PcDeleted 0)\<rparr>"
  let ?d6 = "?d5\<lparr>dGot := (dGot ?d5)(0 := dGot ?d5 0 @ [iqs g]), dPc := (dPc ?d5)(g := PcSent 0)\<rparr>"
  let ?d7 = "?d6\<lparr>dClosed := insert 0 (dClosed ?d6), dPc := (dPc ?d6)(g := PcDone)\<rparr>"
  have "dispatch_step iqs ?d0 ?d1" by (rule register)
  moreover have "dispatch_step iqs ?d1 ?d2" by (rule lookup) (simp add: dispatch_start_def assms(1,2) neq)
  moreover have "dispatch_step iqs ?d2 ?d3" by (rule lookup) (simp add: dispatch_start_def assms(1,2) neq)
  moreover have "dispatch_step iqs ?d3 ?d4" by (rule delete) (simp add: dispatch_start_def found_def assms(1,2) neq)
  moreover have "dispatch_step iqs ?d4 ?d5" by (rule delete) (simp add: dispatch_start_def found_def assms(1,2) neq)
  moreover have "dispatch_step iqs ?d5 ?d6" by (rule send) (simp_all add: dispatch_start_def assms(1,2) neq)
  moreover have "dispatch_step iqs ?d6 ?d7" by (rule close) (simp_all add: dispatch_start_def assms(1,2) neq)
  moreover have "dispatch_step iqs ?d7 (?d7\<lparr>dPanic := True\<rparr>)"
    by (rule send_closed [of _ h 0]) (simp_all add: dispatch_start_def assms(1,2) neq)
  ultimately have "dispatch_reaches iqs ?d0 (?d7\<lparr>dPanic := True\<rparr>)"
    by (meson converse_rtranclp_into_rtranclp rtranclp.rtrancl_refl)
  then show ?thesis by (intro exI [of _ "?d7\<lparr>dPanic := True\<rparr>"]) simp
qed

theorem dispatch_double_delivery_witness:
  "\<exists>d. dispatch_reaches (\<lambda>_. sample_request) dispatch_start d \<and> dPanic d"
  by (rule dispatch_double_delivery [of _ 0 _ 1]) simp_all

end
