(* ===== verification/Client.thy ===== *)
theory Client
  imports Session Router Network
begin

text \<open>
  \<^verbatim>\<open>client.go\<close>: creating a client, connecting and resuming, sending with stream management, the
  receiving loop, and the dispatch effects that act on the client (\<^verbatim>\<open>SendMissingStz\<close> of
  \<^verbatim>\<open>router.go\<close>).

  A method is an action on the client; an error it returns and a panic are both \<open>Inl\<close>. The
  event handler and the hooks are code of the library's users: the handler is a parameter \<open>evh\<close>,
  an action on the client, a hook is its outcome. Events, reported errors and the packets that
  were given to handlers are recorded. \<^verbatim>\<open>xml.Marshal\<close> of a packet is the parameter \<open>marshal\<close>.
  The packets whose dispatch \<^verbatim>\<open>recv\<close> hands to goroutines are kept in the client until they run: the
  relation \<open>client_runs\<close> lets them run in any order and between any turns of the loop. Each runs in one
  piece there; theory \<open>Router\<close> takes the steps of the dispatch of an IQ apart.
\<close>

subsection \<open>The state\<close>

datatype conn_state = StateDisconnected | StateResuming | StateSessionEstablished | StateStreamError | StatePermanentError

record event =
  evState :: conn_state
  evDescription :: string
  evStreamError :: string
  evSMState :: sm_state

definition state_event :: "conn_state \<Rightarrow> event" where
  "state_event st = \<lparr>evState = st, evDescription = [], evStreamError = [], evSMState = zero_sm_state\<rparr>"

record 'h client =
  clConfig :: config
  clSession :: "session option"
  clTransport :: transport
  clRouter :: "'h router"
  clCurrentState :: conn_state
  clPostConnectHook :: "error option option"
  clPostResumeHook :: "error option option"
  clEvents :: "event list"
  clErrors :: "error list"
  clHandled :: "'h effect list"
  clSpawned :: "packet list"

type_synonym 'h handler = "event \<Rightarrow> ('h client, unit) action"

subsection \<open>The event manager\<close>

text \<open>A handler that is nil is \<open>\<lambda>_. skip\<close>; the error a handler returns is dropped.\<close>

definition notify :: "'h handler \<Rightarrow> event \<Rightarrow> ('h client, unit) action" where
  "notify evh e =
     andThen (modify (\<lambda>c. c\<lparr>clCurrentState := evState e, clEvents := clEvents c @ [e]\<rparr>)) (\<lambda>_. ignoring (evh e))"

definition updateState :: "'h handler \<Rightarrow> conn_state \<Rightarrow> ('h client, unit) action" where
  "updateState evh st = notify evh (state_event st)"

definition disconnected :: "'h handler \<Rightarrow> sm_state \<Rightarrow> ('h client, unit) action" where
  "disconnected evh state = notify evh ((state_event StateDisconnected)\<lparr>evSMState := state\<rparr>)"

definition streamError :: "'h handler \<Rightarrow> string \<Rightarrow> string \<Rightarrow> ('h client, unit) action" where
  "streamError evh err desc =
     notify evh ((state_event StateStreamError)\<lparr>evStreamError := err, evDescription := desc\<rparr>)"

definition ErrorHandler :: "error \<Rightarrow> ('h client, unit) action" where
  "ErrorHandler e = modify (\<lambda>c. c\<lparr>clErrors := clErrors c @ [e]\<rparr>)"

subsection \<open>Creating a client\<close>

text \<open>\<open>lookup\<close> is \<^verbatim>\<open>net.LookupSRV\<close> for the client's domain; durations are in nanoseconds.\<close>

definition client_address :: "(string \<Rightarrow> error + srv list) \<Rightarrow> string \<Rightarrow> string \<Rightarrow> string" where
  "client_address lookup addr domain =
     (if addr = [] then
        (case lookup domain of
           Inr es \<Rightarrow> if es \<noteq> [] then selectSrv es domain else domain
         | Inl _ \<Rightarrow> domain)
      else addr)"

definition NewClient :: "(string \<Rightarrow> error + srv list) \<Rightarrow> server list \<Rightarrow> config \<Rightarrow> 'h router \<Rightarrow> error + 'h client" where
  "NewClient lookup svs cfg r =
     (let cfg1 = (if cfKeepaliveInterval cfg = 0 then cfg\<lparr>cfKeepaliveInterval := 30 * 10 ^ 9\<rparr> else cfg) in
      case NewJid (cfJid cfg1) of
        Inl _ \<Rightarrow> Inl (NewConnError (Err ''missing jid'') True)
      | Inr j \<Rightarrow>
          if credSecret (cfCredential cfg1) = [] then Inl (NewConnError (Err ''missing credential'') True)
          else
            let tc = cfTransport cfg1;
                timeout = (if cfConnectTimeout cfg1 = 0 then 15 else cfConnectTimeout cfg1);
                tc1 = tc\<lparr>tcAddress := client_address lookup (tcAddress tc) (jidDomain j),
                  tcDomain := (if tcDomain tc = [] then jidDomain j else tcDomain tc),
                  tcConnectTimeout := timeout\<rparr>;
                cfg2 = cfg1\<lparr>cfParsedJid := Some j, cfTransport := tc1, cfConnectTimeout := timeout\<rparr> in
            Inr \<lparr>clConfig = cfg2, clSession = None, clTransport = NewClientTransport svs tc1, clRouter = r,
              clCurrentState = StateDisconnected, clPostConnectHook = None, clPostResumeHook = None,
              clEvents = [], clErrors = [], clHandled = [], clSpawned = []\<rparr>)"

subsection \<open>Sending\<close>

definition on_client :: "(transport, 'a) action \<Rightarrow> ('h client, 'a) action" where
  "on_client m c = (case m (clTransport c) of (r, t) \<Rightarrow> (r, c\<lparr>clTransport := t\<rparr>))"

definition sendWithWriter :: "outgoing \<Rightarrow> ('h client, unit) action" where
  "sendWithWriter p = andThen (on_client (tr_Write p)) (\<lambda>_. skip)"

definition push_unacked :: "string \<Rightarrow> ('h client, unit) action" where
  "push_unacked data =
     inspect (\<lambda>c. case clSession c of
       None \<Rightarrow> giving (Inl nil_pointer)
     | Some s \<Rightarrow>
         (case smsUnAckQueue (sessSMState s) of
            None \<Rightarrow> giving (Inl (Err ''stream management queue is not initialized''))
          | Some q \<Rightarrow>
              (case UnAckQueue_Push (QStz \<lparr>uId = 0, uStz = data\<rparr>) (Some q) of
                 Inr q' \<Rightarrow> modify (\<lambda>c. c\<lparr>clSession := Some (s\<lparr>sessSMState := (sessSMState s)\<lparr>smsUnAckQueue := q'\<rparr>\<rparr>)\<rparr>)
               | Inl _ \<Rightarrow> skip)))"

definition no_session :: error where
  "no_session = Err ''client session is not established''"

fun is_sm_nonza :: "packet \<Rightarrow> bool" where
  "is_sm_nonza PktSMRequest = True"
| "is_sm_nonza (PktSMAnswer h) = True"
| "is_sm_nonza p = False"

definition Client_Send :: "(packet \<Rightarrow> error + string) \<Rightarrow> packet \<Rightarrow> ('h client, unit) action" where
  "Client_Send marshal p =
     inspect (\<lambda>c.
       if clSession c = None then giving (Inl no_session)
       else
         (case marshal p of
            Inl e \<Rightarrow> giving (Inl (Err (''cannot marshal packet '' @ error_text e)))
          | Inr data \<Rightarrow>
              if cfStreamManagementEnable (clConfig c) \<and> \<not> is_sm_nonza p
              then andThen (push_unacked data) (\<lambda>_. sendWithWriter (ORaw data))
              else sendWithWriter (ORaw data)))"

definition Client_SendRaw :: "string \<Rightarrow> ('h client, unit) action" where
  "Client_SendRaw data =
     inspect (\<lambda>c.
       if clSession c = None then giving (Inl no_session)
       else if cfStreamManagementEnable (clConfig c)
       then andThen (push_unacked data) (\<lambda>_. sendWithWriter (ORaw data))
       else sendWithWriter (ORaw data))"

definition ErrCanOnlySendGetOrSetIq :: error where
  "ErrCanOnlySendGetOrSetIq = Err ''SendIQ can only send get and set IQ stanzas''"

definition on_router :: "('h router \<Rightarrow> 'h router) \<Rightarrow> ('h client, unit) action" where
  "on_router f = modify (\<lambda>c. c\<lparr>clRouter := f (clRouter c)\<rparr>)"

definition Client_SendIQ :: "(packet \<Rightarrow> error + string) \<Rightarrow> iq \<Rightarrow> ('h client, nat) action" where
  "Client_SendIQ marshal i c =
     (if aType (iqAttrs i) \<noteq> ''set'' \<and> aType (iqAttrs i) \<noteq> ''get'' then (Inl ErrCanOnlySendGetOrSetIq, c)
      else
        (case NewIQResultRoute (aId (iqAttrs i)) (clRouter c) of
           (ch, r) \<Rightarrow>
             (case Client_Send marshal (PktIQ i) (c\<lparr>clRouter := r\<rparr>) of
                (Inl (Panic p), c') \<Rightarrow> (Inl (Panic p), c')
              | (Inl e, c') \<Rightarrow> (Inl e, c'\<lparr>clRouter := RemoveIQResultRoute (aId (iqAttrs i)) (clRouter c')\<rparr>)
              | (Inr _, c') \<Rightarrow> (Inr ch, c'))))"

fun send_all :: "string list \<Rightarrow> ('h client, unit) action" where
  "send_all [] = skip"
| "send_all (raw # raws) = andThen (sendWithWriter (ORaw raw)) (\<lambda>_. send_all raws)"

definition SendMissingStz :: "(packet \<Rightarrow> error + string) \<Rightarrow> goint \<Rightarrow> ('h client, unit) action" where
  "SendMissingStz marshal lastSent =
     inspect (\<lambda>c. case clSession c of
       None \<Rightarrow> giving (Inl nil_pointer)
     | Some s \<Rightarrow>
         (case smsUnAckQueue (sessSMState s) of
            None \<Rightarrow> skip
          | Some q \<Rightarrow>
              if length (Uslice q) = 0 then skip
              else
                let q' = drop_acked lastSent q; pending = map uStz (Uslice q') in
                andThen (modify (\<lambda>c. c\<lparr>clSession := Some (s\<lparr>sessSMState := (sessSMState s)\<lparr>smsUnAckQueue := Some q'\<rparr>\<rparr>)\<rparr>))
                  (\<lambda>_. andThen (send_all pending)
                  (\<lambda>_. if 0 < length pending then Client_Send marshal PktSMRequest else skip))))"

subsection \<open>Dispatch\<close>

definition record_effect :: "'h effect \<Rightarrow> ('h client, unit) action" where
  "record_effect e = modify (\<lambda>c. c\<lparr>clHandled := clHandled c @ [e]\<rparr>)"

definition run_effect :: "(packet \<Rightarrow> error + string) \<Rightarrow> 'h effect \<Rightarrow> ('h client, unit) action" where
  "run_effect marshal e =
     (case e of
        EMissing h \<Rightarrow> ignoring (SendMissingStz marshal h)
      | ESend i \<Rightarrow> ignoring (Client_Send marshal (PktIQ i))
      | ENilHandler \<Rightarrow> giving (Inl nil_pointer)
      | _ \<Rightarrow> record_effect e)"

fun run_effects :: "(packet \<Rightarrow> error + string) \<Rightarrow> 'h effect list \<Rightarrow> ('h client, unit) action" where
  "run_effects marshal [] = skip"
| "run_effects marshal (e # es) = andThen (run_effect marshal e) (\<lambda>_. run_effects marshal es)"

definition Client_route :: "(packet \<Rightarrow> error + string) \<Rightarrow> packet \<Rightarrow> ('h client, unit) action" where
  "Client_route marshal p =
     inspect (\<lambda>c. case Router_route SClient p (clRouter c) of
       (es, r) \<Rightarrow> andThen (on_router (\<lambda>_. r)) (\<lambda>_. run_effects marshal es))"

subsection \<open>Connecting\<close>

text \<open>
  \<open>cr\<close> and \<open>cdc\<close> are the cryptography of the authentication and the payload decoders. A
  session that \<^verbatim>\<open>NewSession\<close> leaves in the configuration or the transport stays there.
\<close>

definition negotiated :: "crypto \<Rightarrow> codec \<Rightarrow> ('h client, error option) action" where
  "negotiated cr cdc c =
     (case NewSession cr cdc (clSession c) zero_sm_state (clConfig c) (clTransport c) of
        (r, cn) \<Rightarrow>
          let c' = c\<lparr>clTransport := cnTransport cn, clConfig := cnConfig cn\<rparr> in
          (case r of
             Inl e \<Rightarrow> (Inl e, c')
           | Inr (s, e) \<Rightarrow> (Inr e, c'\<lparr>clSession := s\<rparr>)))"

definition Client_Disconnect :: "('h client, unit) action" where
  "Client_Disconnect = on_client tr_Close"

text \<open>
  The goroutine that waits for the server to close the stream, over the packets that arrive
  until the connection is closed.
\<close>

lemma tr_GetDecoder_set [simp]: "tr_GetDecoder (tr_set_decoder d t) = d"
  by (cases t) simp_all

function await_close :: "codec \<Rightarrow> 'h handler \<Rightarrow> ('h client, unit) action" where
  "await_close cdc evh c =
     (case NextPacket cdc (tr_GetDecoder (clTransport c)) of
        Inl (Panic p) \<Rightarrow> (Inl (Panic p), c)
      | Inl e \<Rightarrow> andThen (ErrorHandler e) (\<lambda>_. disconnected evh zero_sm_state) c
      | Inr (v, d) \<Rightarrow>
          (let c' = c\<lparr>clTransport := tr_set_decoder d (clTransport c)\<rparr> in
           if v = PktStreamClose then (Inr (), c'\<lparr>clTransport := tr_ReceivedStreamClose (clTransport c')\<rparr>)
           else await_close cdc evh c'))"
  by auto
termination
  by (relation "measure (\<lambda>(_, _, c). length (decInput (tr_GetDecoder (clTransport c))))")
    (auto dest: NextPacket_less)

declare await_close.simps [simp del]

definition connect :: "crypto \<Rightarrow> codec \<Rightarrow> 'h handler \<Rightarrow> ('h client, unit) action" where
  "connect cr cdc evh =
     andThen (on_client tr_Connect) (\<lambda>streamId.
     andThen (negotiated cr cdc) (\<lambda>err.
       case err of
         Some e \<Rightarrow>
           andThen (ignoring Client_Disconnect) (\<lambda>_. andThen (await_close cdc evh) (\<lambda>_. giving (Inl e)))
       | None \<Rightarrow>
           inspect (\<lambda>c. case clSession c of
             None \<Rightarrow> giving (Inl nil_pointer)
           | Some s \<Rightarrow>
               andThen (modify (\<lambda>c. c\<lparr>clSession := Some (s\<lparr>sessStreamId := streamId\<rparr>)\<rparr>))
                 (\<lambda>_. updateState evh StateSessionEstablished))))"

definition InitialPresence :: string where
  "InitialPresence = ''<presence/>''"

definition run_hook :: "error option option \<Rightarrow> ('h client, unit) action" where
  "run_hook h = (case h of Some (Some e) \<Rightarrow> giving (Inl e) | _ \<Rightarrow> skip)"

definition postSessionSetup :: "('h client, unit) action" where
  "postSessionSetup =
     inspect (\<lambda>c.
       if (case clSession c of Some s \<Rightarrow> sessResumed s | None \<Rightarrow> False) then run_hook (clPostResumeHook c)
       else andThen (sendWithWriter (ORaw InitialPresence)) (\<lambda>_. run_hook (clPostConnectHook c)))"

text \<open>Both end by starting the receiving and the keepalive goroutines.\<close>

definition Client_Connect :: "crypto \<Rightarrow> codec \<Rightarrow> 'h handler \<Rightarrow> ('h client, unit) action" where
  "Client_Connect cr cdc evh = andThen (connect cr cdc evh) (\<lambda>_. postSessionSetup)"

definition Client_Resume :: "crypto \<Rightarrow> codec \<Rightarrow> 'h handler \<Rightarrow> ('h client, unit) action" where
  "Client_Resume cr cdc evh =
     andThen (updateState evh StateResuming) (\<lambda>_. andThen (connect cr cdc evh) (\<lambda>_. postSessionSetup))"

subsection \<open>Receiving\<close>

text \<open>What is done with a session that must be there.\<close>

definition with_session :: "(session \<Rightarrow> ('h client, 'a) action) \<Rightarrow> ('h client, 'a) action" where
  "with_session k = inspect (\<lambda>c. case clSession c of None \<Rightarrow> giving (Inl nil_pointer) | Some s \<Rightarrow> k s)"

definition count_inbound :: "('h client, unit) action" where
  "count_inbound = with_session (\<lambda>s. modify (\<lambda>c. c\<lparr>clSession :=
     Some (s\<lparr>sessSMState := (sessSMState s)\<lparr>smsInbound := smsInbound (sessSMState s) + 1\<rparr>\<rparr>)\<rparr>))"

fun is_stanza :: "packet \<Rightarrow> bool" where
  "is_stanza (PktMessage m) = True"
| "is_stanza (PktPresence p) = True"
| "is_stanza (PktIQ i) = True"
| "is_stanza p = False"

text \<open>\<^verbatim>\<open>go c.router.route(c, val)\<close>: a goroutine that has not run yet.\<close>

definition spawn_route :: "packet \<Rightarrow> ('h client, unit) action" where
  "spawn_route val = modify (\<lambda>c. c\<lparr>clSpawned := clSpawned c @ [val]\<rparr>)"

text \<open>One turn of the loop of \<^verbatim>\<open>recv\<close>: whether it goes on.\<close>

definition recv_packet :: "(packet \<Rightarrow> error + string) \<Rightarrow> 'h handler \<Rightarrow> packet \<Rightarrow> ('h client, bool) action" where
  "recv_packet marshal evh val =
     (case val of
        PktStreamError n txt \<Rightarrow>
          andThen (Client_route marshal val) (\<lambda>_.
          andThen (streamError evh (nLocal n) txt) (\<lambda>_.
          andThen (ErrorHandler (Err (''stream error: '' @ nLocal n))) (\<lambda>_.
          andThen (ignoring Client_Disconnect) (\<lambda>_.
          andThen (spawn_route val) (\<lambda>_. giving (Inr True))))))
      | PktSMRequest \<Rightarrow>
          with_session (\<lambda>s.
            andThen (attempt (Client_Send marshal (PktSMAnswer (smsInbound (sessSMState s))))) (\<lambda>r.
              case r of
                Inl e \<Rightarrow> andThen (ErrorHandler e) (\<lambda>_. giving (Inr False))
              | Inr _ \<Rightarrow> giving (Inr True)))
      | PktSMAnswer h \<Rightarrow> andThen (Client_route marshal val) (\<lambda>_. giving (Inr True))
      | PktStreamClose \<Rightarrow>
          andThen (modify (\<lambda>c. c\<lparr>clTransport := tr_ReceivedStreamClose (clTransport c)\<rparr>)) (\<lambda>_.
            with_session (\<lambda>s. andThen (disconnected evh (sessSMState s)) (\<lambda>_. giving (Inr False))))
      | _ \<Rightarrow>
          andThen (if is_stanza val then count_inbound else skip) (\<lambda>_.
          andThen (spawn_route val) (\<lambda>_. giving (Inr True))))"

definition recv_step :: "codec \<Rightarrow> (packet \<Rightarrow> error + string) \<Rightarrow> 'h handler \<Rightarrow> ('h client, bool) action" where
  "recv_step cdc marshal evh =
     andThen (attempt (on_client (tr_read (NextPacket cdc)))) (\<lambda>r.
       case r of
         Inl e \<Rightarrow>
           andThen (ErrorHandler e) (\<lambda>_.
             with_session (\<lambda>s. andThen (disconnected evh (sessSMState s)) (\<lambda>_. giving (Inr False))))
       | Inr val \<Rightarrow> recv_packet marshal evh val)"

text \<open>
  An event handler may reconnect, so that the loop goes on with what the new connection brings:
  it has fuel.
\<close>

definition recv_loop ::
  "nat \<Rightarrow> codec \<Rightarrow> (packet \<Rightarrow> error + string) \<Rightarrow> 'h handler \<Rightarrow> 'h client \<Rightarrow> ((error + unit) \<times> 'h client) option" where
  "recv_loop k cdc marshal evh = run_loop k (recv_step cdc marshal evh)"

lemma recv_loop_simps [simp]:
  "recv_loop 0 cdc marshal evh c = None"
  "recv_loop (Suc k) cdc marshal evh c =
     (case recv_step cdc marshal evh c of
        (Inl e, c') \<Rightarrow> Some (Inl e, c')
      | (Inr True, c') \<Rightarrow> recv_loop k cdc marshal evh c'
      | (Inr False, c') \<Rightarrow> Some (Inr (), c'))"
  by (simp_all add: recv_loop_def split: prod.split sum.split bool.split)

text \<open>
  The loop and the goroutines it started. In a state of the program, the flag tells whether the loop
  still runs; a panic anywhere ends the program. A run takes turns of the loop, which are counted,
  and runs of goroutines, in any order.
\<close>

datatype 'h program = Crashed | Program bool "'h client"

inductive client_runs ::
  "codec \<Rightarrow> (packet \<Rightarrow> error + string) \<Rightarrow> 'h handler \<Rightarrow> 'h program \<Rightarrow> nat \<Rightarrow> 'h program \<Rightarrow> bool"
  for cdc marshal evh p where
  start: "client_runs cdc marshal evh p 0 p"
| turn: "client_runs cdc marshal evh p n (Program True c) \<Longrightarrow> recv_step cdc marshal evh c = (Inr go, c') \<Longrightarrow>
    client_runs cdc marshal evh p (Suc n) (Program go c')"
| turn_panic: "client_runs cdc marshal evh p n (Program True c) \<Longrightarrow> recv_step cdc marshal evh c = (Inl e, c') \<Longrightarrow>
    client_runs cdc marshal evh p (Suc n) Crashed"
| route: "client_runs cdc marshal evh p n (Program r c) \<Longrightarrow> clSpawned c = pre @ v # post \<Longrightarrow>
    Client_route marshal v (c\<lparr>clSpawned := pre @ post\<rparr>) = (Inr (), c') \<Longrightarrow> client_runs cdc marshal evh p n (Program r c')"
| route_panic: "client_runs cdc marshal evh p n (Program r c) \<Longrightarrow> clSpawned c = pre @ v # post \<Longrightarrow>
    Client_route marshal v (c\<lparr>clSpawned := pre @ post\<rparr>) = (Inl e, c') \<Longrightarrow> client_runs cdc marshal evh p n Crashed"

lemma client_runs_trans:
  "client_runs cdc marshal evh q m r \<Longrightarrow> client_runs cdc marshal evh p n q \<Longrightarrow> client_runs cdc marshal evh p (n + m) r"
  by (induction rule: client_runs.induct) (auto intro: client_runs.intros)

text \<open>
  One tick of \<^verbatim>\<open>keepalive\<close>: whether the ticker goes on. The signal to quit ends it without a
  trace in the state.
\<close>

definition keepalive_tick :: "('h client, bool) action" where
  "keepalive_tick =
     andThen (attempt (on_client tr_Ping)) (\<lambda>r.
       case r of
         Inl e \<Rightarrow> andThen (ignoring (on_client tr_Close)) (\<lambda>_. giving (Inr False))
       | Inr _ \<Rightarrow> giving (Inr True))"

definition IsStreamResumable :: "'h client option \<Rightarrow> bool" where
  "IsStreamResumable c =
     (case c of None \<Rightarrow> False
      | Some c \<Rightarrow> cfStreamManagementEnable (clConfig c) \<and> cfStreamManagementResume (clConfig c))"

subsection \<open>The receiving loop ends\<close>

lemma keeps_on_client: "keeps P m \<Longrightarrow> keeps (\<lambda>c. P (clTransport c)) (on_client m)"
  by (auto simp: keeps_def on_client_def split: prod.split)

lemma keeps_with_session: "(\<And>s. keeps P (k s)) \<Longrightarrow> keeps P (with_session k)"
  unfolding with_session_def by (intro keeps_intros)

text \<open>A property of the transport is kept by what only changes the rest of the client.\<close>

lemma keeps_rest:
  "keeps (\<lambda>c. P (clTransport c)) (ErrorHandler e)" "keeps (\<lambda>c. P (clTransport c)) (push_unacked data)"
  "keeps (\<lambda>c. P (clTransport c)) (on_router f)" "keeps (\<lambda>c. P (clTransport c)) (record_effect ef)"
  "keeps (\<lambda>c. P (clTransport c)) count_inbound" "keeps (\<lambda>c. P (clTransport c)) (run_hook h)"
  "keeps (\<lambda>c. P (clTransport c)) (spawn_route v)"
  unfolding spawn_route_def ErrorHandler_def push_unacked_def on_router_def record_effect_def count_inbound_def run_hook_def
  by (auto intro!: keeps_intros keeps_modify keeps_with_session split: option.split sum.split)

lemma keeps_notify:
  assumes "\<And>e. keeps (\<lambda>c. P (clTransport c)) (evh e)"
  shows "keeps (\<lambda>c. P (clTransport c)) (notify evh e)" "keeps (\<lambda>c. P (clTransport c)) (updateState evh st)"
    "keeps (\<lambda>c. P (clTransport c)) (disconnected evh sm)" "keeps (\<lambda>c. P (clTransport c)) (streamError evh er txt)"
  unfolding updateState_def disconnected_def streamError_def notify_def
  by (intro keeps_andThen keeps_modify keeps_ignoring assms; simp)+

lemma keeps_sends:
  assumes w: "\<And>p. keeps P (tr_Write p)"
  shows "keeps (\<lambda>c. P (clTransport c)) (sendWithWriter p)" "keeps (\<lambda>c. P (clTransport c)) (Client_Send marshal pk)"
    "keeps (\<lambda>c. P (clTransport c)) (send_all raws)" "keeps (\<lambda>c. P (clTransport c)) (SendMissingStz marshal h)"
    "keeps (\<lambda>c. P (clTransport c)) (Client_route marshal pk)"
proof -
  show 1: "keeps (\<lambda>c. P (clTransport c)) (sendWithWriter p)" for p
    unfolding sendWithWriter_def by (intro keeps_intros keeps_on_client w)
  show 2: "keeps (\<lambda>c. P (clTransport c)) (Client_Send marshal pk)" for pk
    unfolding Client_Send_def by (intro keeps_intros 1 keeps_rest)
  show 3: "keeps (\<lambda>c. P (clTransport c)) (send_all raws)" for raws
    by (induction raws) (auto simp only: send_all.simps intro!: keeps_skip keeps_andThen 1)
  show 4: "keeps (\<lambda>c. P (clTransport c)) (SendMissingStz marshal h)" for h
    unfolding SendMissingStz_def Let_def by (intro keeps_intros keeps_modify 2 3) simp
  have 5: "keeps (\<lambda>c. P (clTransport c)) (run_effect marshal e)" for e
    unfolding run_effect_def by (cases e) (simp_all add: keeps_ignoring 2 4 keeps_giving keeps_rest)
  have 6: "keeps (\<lambda>c. P (clTransport c)) (run_effects marshal es)" for es
    by (induction es) (auto simp only: run_effects.simps intro!: keeps_skip keeps_andThen 5)
  show "keeps (\<lambda>c. P (clTransport c)) (Client_route marshal pk)"
    unfolding Client_route_def split_beta by (intro keeps_intros keeps_rest 6)
qed

lemma keeps_recv_packet:
  assumes "\<And>p. keeps P (tr_Write p)" "keeps P tr_Close" "\<And>t. P t \<Longrightarrow> P (tr_ReceivedStreamClose t)"
    and "\<And>e. keeps (\<lambda>c. P (clTransport c)) (evh e)"
  shows "keeps (\<lambda>c. P (clTransport c)) (recv_packet marshal evh val)"
proof -
  note sends = keeps_sends [where P = P, OF assms(1)]
  have "keeps (\<lambda>c. P (clTransport c)) Client_Disconnect"
    unfolding Client_Disconnect_def by (intro keeps_on_client assms(2))
  moreover have "keeps (\<lambda>c. P (clTransport c)) (modify (\<lambda>c. c\<lparr>clTransport := tr_ReceivedStreamClose (clTransport c)\<rparr>))"
    by (rule keeps_modify) (simp add: assms(3))
  ultimately show ?thesis
    unfolding recv_packet_def
    by (cases val; simp only: packet.case)
      (intro keeps_intros keeps_with_session keeps_attempt keeps_ignoring keeps_rest keeps_notify assms(4) sends; assumption)+
qed

lemma xtDecoder_Close: "xtDecoder (snd (xt_Close t)) = xtDecoder t"
  by (simp add: xt_Close_def Let_def xt.write_decoder)

lemma wtDecoder_Close: "wtDecoder (snd (ws_Close t)) = wtDecoder t"
  using ws.write_decoder [of "ORaw ws_close" t]
  by (auto simp: ws_Close_def ws_cleanup_def Let_def split: prod.split sum.split error.split)

lemma same_decoder:
  "keeps (\<lambda>t. tr_GetDecoder t = d) (tr_Write p)" "keeps (\<lambda>t. tr_GetDecoder t = d) tr_Close"
  "tr_GetDecoder (tr_ReceivedStreamClose t) = tr_GetDecoder t"
proof -
  show "keeps (\<lambda>t. tr_GetDecoder t = d) (tr_Write p)" by (simp add: keeps_def tr.write_decoder)
  show "keeps (\<lambda>t. tr_GetDecoder t = d) tr_Close"
    unfolding keeps_def
  proof (intro allI impI)
    fix t assume "tr_GetDecoder t = d"
    then show "tr_GetDecoder (snd (tr_Close t)) = d" by (cases t) (simp_all add: xtDecoder_Close wtDecoder_Close)
  qed
  show "tr_GetDecoder (tr_ReceivedStreamClose t) = tr_GetDecoder t"
    by (cases t) (simp_all add: xt_ReceivedStreamClose_def split: option.split)
qed

abbreviation pending_input :: "'h client \<Rightarrow> nat" where
  "pending_input c \<equiv> length (decInput (tr_GetDecoder (clTransport c)))"

lemma recv_step_less:
  assumes "\<And>e c. tr_GetDecoder (clTransport (snd (evh e c))) = tr_GetDecoder (clTransport c)"
    and "recv_step cdc marshal evh c = (Inr True, c')"
  shows "pending_input c' < pending_input c"
proof (cases "NextPacket cdc (tr_GetDecoder (clTransport c))")
  case (Inl e)
  with assms(2) show ?thesis
    by (auto simp: recv_step_def andThen_def attempt_def on_client_def tr_read_def ErrorHandler_def with_session_def
        split: error.splits option.splits sum.splits prod.splits)
next
  case (Inr vd)
  then obtain v d where v: "NextPacket cdc (tr_GetDecoder (clTransport c)) = Inr (v, d)" by (cases vd) auto
  let ?c = "c\<lparr>clTransport := tr_set_decoder d (clTransport c)\<rparr>"
  have "recv_packet marshal evh v ?c = (Inr True, c')"
    using assms(2) v by (simp add: recv_step_def andThen_def attempt_def on_client_def tr_read_def)
  moreover have "keeps (\<lambda>c. tr_GetDecoder (clTransport c) = d) (recv_packet marshal evh v)"
    by (rule keeps_recv_packet [where P = "\<lambda>t. tr_GetDecoder t = d"])
      (simp_all add: same_decoder, simp add: keeps_def assms(1))
  ultimately have "tr_GetDecoder (clTransport c') = d"
    using keepsD [of "\<lambda>c. tr_GetDecoder (clTransport c) = d" _ ?c] by fastforce
  then show ?thesis using NextPacket_less [OF v] by simp
qed

text \<open>
  C8. The receiving loop ends, whatever arrives, whatever the routes do and whatever fails, after
  at most one turn per token of the input, provided that the event handler does not reconnect.
\<close>

theorem recv_loop_ends:
  assumes "\<And>e c. tr_GetDecoder (clTransport (snd (evh e c))) = tr_GetDecoder (clTransport c)" "pending_input c < k"
  shows "\<exists>r. recv_loop k cdc marshal evh c = Some r"
  unfolding recv_loop_def
  by (rule consuming_loop.loop_ends [OF consuming_loop.intro, of _ pending_input]) (use recv_step_less assms in blast)+

interpretation no_handler: consuming_loop "recv_step cdc marshal (\<lambda>_. skip)" pending_input for cdc marshal
  by unfold_locales (rule recv_step_less; simp)

text \<open>A client with an established session and stream management; \<open>ts\<close> is what arrives.\<close>

definition sample_client :: "xtoken list \<Rightarrow> nat client" where
  "sample_client ts = \<lparr>clConfig = sample_client_config\<lparr>cfStreamManagementEnable := True\<rparr>,
     clSession = Some ((new_session zero_sm_state)\<lparr>sessSMState := zero_sm_state\<lparr>smsId := ''sm1'', smsUnAckQueue := Some NewUnAckQueue\<rparr>\<rparr>),
     clTransport = TCP (sample_reader Encrypted ts),
     clRouter = NewRouter\<lparr>rRoutes := [\<lparr>rtHandler = Some 7, rtMatchers = []\<rparr>]\<rparr>,
     clCurrentState = StateSessionEstablished, clPostConnectHook = None, clPostResumeHook = None, clEvents = [],
     clErrors = [], clHandled = [], clSpawned = []\<rparr>"

fun sample_marshal :: "packet \<Rightarrow> error + string" where
  "sample_marshal PktSMRequest = Inr ''<r/>''"
| "sample_marshal (PktSMAnswer h) = Inr (''a'' @ hex_int h)"
| "sample_marshal p = Inr ''<message/>''"

theorem recv_loop_ends_witness:
  "\<exists>r. recv_loop 1 package_codec sample_marshal (\<lambda>_. skip) (sample_client []) = Some r"
  by (rule recv_loop_ends) (simp_all add: sample_client_def sample_reader_ready after_def)

end
