(* ===== verification/Delivery.thy ===== *)
theory Delivery
  imports Client "HOL-Library.Multiset"
begin

text \<open>
  What the client's sending and receiving do for stream management (XEP-0198): queueing,
  retransmission, the counting of stanzas in both directions, and stream errors.
\<close>

subsection \<open>On a live connection\<close>

lemma sendWithWriter_ready:
  "clTransport c = TCP t \<Longrightarrow> xt_ready ch t \<Longrightarrow> sendWithWriter p c = (Inr (), c\<lparr>clTransport := TCP (wrote ch p t)\<rparr>)"
  by (simp add: sendWithWriter_def andThen_def on_client_def xt_Write_ready)

fun wrote_all :: "channel \<Rightarrow> string list \<Rightarrow> xmpp_transport \<Rightarrow> xmpp_transport" where
  "wrote_all ch [] t = t"
| "wrote_all ch (raw # raws) t = wrote_all ch raws (wrote ch (ORaw raw) t)"

lemma wrote_all_props [simp]:
  "xt_ready ch (wrote_all ch' raws t) = xt_ready ch t"
  "xtOut (wrote_all ch raws t) = xtOut t @ map (\<lambda>raw. (ch, ORaw raw)) raws"
  "xtDecoder (wrote_all ch raws t) = xtDecoder t"
  by (induction raws arbitrary: t) simp_all

lemma send_all_ready:
  "clTransport c = TCP t \<Longrightarrow> xt_ready ch t \<Longrightarrow> send_all raws c = (Inr (), c\<lparr>clTransport := TCP (wrote_all ch raws t)\<rparr>)"
  by (induction raws arbitrary: c t) (simp_all add: sendWithWriter_ready)

subsection \<open>Sending\<close>

abbreviation client_queue :: "'h client \<Rightarrow> unack_queue option" where
  "client_queue c \<equiv> Option.bind (clSession c) (\<lambda>s. smsUnAckQueue (sessSMState s))"

abbreviation set_queue :: "unack_queue \<Rightarrow> 'h client \<Rightarrow> 'h client" where
  "set_queue q c \<equiv> c\<lparr>clSession := map_option (\<lambda>s. s\<lparr>sessSMState := (sessSMState s)\<lparr>smsUnAckQueue := Some q\<rparr>\<rparr>) (clSession c)\<rparr>"

lemma push_unacked_run:
  "client_queue c = Some q \<Longrightarrow> push_unacked data c = (Inr (), set_queue (uaq_push data q) c)"
  by (cases "clSession c") (simp_all add: push_unacked_def Push_Some uaq_push_def)

text \<open>
  C12. With stream management, a stanza that is sent is first put at the end of the queue of
  unacknowledged stanzas and then written, so that it is in the queue even when writing fails; the
  nonzas \<^verbatim>\<open><r/>\<close> and \<^verbatim>\<open><a/>\<close> are written and not queued. What the connection reports is what
  the caller gets.
\<close>

theorem Client_Send_tracks:
  assumes "client_queue c = Some q" "cfStreamManagementEnable (clConfig c)" "marshal p = Inr data"
    and "tr_Write (ORaw data) (clTransport c) = (w, t)"
  shows "\<exists>c'. Client_Send marshal p c = (map_sum id (\<lambda>_. ()) w, c'\<lparr>clTransport := t\<rparr>)
    \<and> (if is_sm_nonza p then c' = c
       else c' = set_queue (uaq_push data q) c \<and> uaq_contents (uaq_push data q) = uaq_contents q @ [data])"
proof -
  obtain s where "clSession c = Some s" using assms(1) by (cases "clSession c") auto
  then have "Client_Send marshal p c =
      (if is_sm_nonza p then sendWithWriter (ORaw data) c
       else sendWithWriter (ORaw data) (set_queue (uaq_push data q) c))"
    using assms(2,3) push_unacked_run [OF assms(1), of data] by (simp add: Client_Send_def)
  moreover have "sendWithWriter (ORaw data) c'' = (map_sum id (\<lambda>_. ()) w, c''\<lparr>clTransport := t\<rparr>)"
    if "clTransport c'' = clTransport c" for c'' :: "'a client"
    using assms(4) that by (cases w) (simp_all add: sendWithWriter_def andThen_def on_client_def)
  ultimately show ?thesis by (auto simp: uaq.contents_push)
qed

text \<open>
  Without an established session nothing is sent; with stream management and no queue
  nothing is sent either, and the caller gets an error.
\<close>

theorem Client_Send_refused:
  assumes "clSession c = None \<or> (client_queue c = None \<and> cfStreamManagementEnable (clConfig c) \<and> \<not> is_sm_nonza p)"
  shows "\<exists>e. Client_Send marshal p c = (Inl e, c)"
  using assms by (cases "clSession c") (auto simp: Client_Send_def push_unacked_def split: sum.split)

text \<open>
  C5. An acknowledgement \<open>h\<close> takes the stanzas numbered up to \<open>h\<close> from the queue, and every other
  stanza of the queue is written again in order, followed by a new request: also the stanzas
  that are still on their way are sent twice.
\<close>

theorem SendMissingStz_resends:
  assumes "clTransport c = TCP t" "xt_ready ch t" "client_queue c = Some q" "uaq_inv q" "marshal PktSMRequest = Inr r"
  shows "\<exists>t' q'. SendMissingStz marshal h c = (Inr (), (set_queue q' c)\<lparr>clTransport := TCP t'\<rparr>)
    \<and> Uslice q' = filter (\<lambda>u. sint h < sint (uId u)) (Uslice q)
    \<and> xtOut t' = xtOut t @ map (\<lambda>u. (ch, ORaw (uStz u))) (Uslice q') @ (if Uslice q' = [] then [] else [(ch, ORaw r)])"
proof -
  obtain s where s: "clSession c = Some s" "smsUnAckQueue (sessSMState s) = Some q"
    using assms(3) by (cases "clSession c") auto
  have q': "Uslice (drop_acked h q) = filter (\<lambda>u. sint h < sint (uId u)) (Uslice q)"
    using assms(4) by (rule drop_acked_filter)
  show ?thesis
  proof (cases "Uslice q = []")
    case True
    then show ?thesis
      by (intro exI [of _ t] exI [of _ q]) (simp add: SendMissingStz_def s assms(1) [symmetric])
  next
    case False
    let ?c = "set_queue (drop_acked h q) c" and ?raws = "map uStz (Uslice (drop_acked h q))"
    have "SendMissingStz marshal h c =
        (if Uslice (drop_acked h q) = [] then (Inr (), ?c\<lparr>clTransport := TCP (wrote_all ch ?raws t)\<rparr>)
         else Client_Send marshal PktSMRequest (?c\<lparr>clTransport := TCP (wrote_all ch ?raws t)\<rparr>))"
      using False s send_all_ready [of ?c t ch ?raws] assms(1,2) by (simp add: SendMissingStz_def Let_def)
    also have "\<dots> = (Inr (), ?c\<lparr>clTransport := TCP (wrote_all ch (?raws @ (if Uslice (drop_acked h q) = [] then [] else [r])) t)\<rparr>)"
    proof -
      have "wrote ch (ORaw r) (wrote_all ch rs u) = wrote_all ch (rs @ [r]) u" for rs u
        by (induction rs arbitrary: u) simp_all
      then show ?thesis
        using assms(2,5) s by (auto simp: Client_Send_def sendWithWriter_ready [where ch = ch])
    qed
    finally show ?thesis
      by (intro exI conjI, assumption) (use q' in simp_all)
  qed
qed

subsection \<open>Counting what arrives\<close>

text \<open>The nonzas that answer the requests among the packets, when \<open>n\<close> stanzas were counted before.\<close>

fun sm_replies :: "gouint \<Rightarrow> packet list \<Rightarrow> packet list" where
  "sm_replies n [] = []"
| "sm_replies n (v # vs) =
     (if v = PktSMRequest then PktSMAnswer n # sm_replies n vs
      else sm_replies (if is_stanza v then n + 1 else n) vs)"

abbreviation client_inbound :: "'h client \<Rightarrow> gouint option" where
  "client_inbound c \<equiv> map_option (\<lambda>s. smsInbound (sessSMState s)) (clSession c)"

lemma Client_route_handler:
  "Router_route SClient v (clRouter c) = ([EHandle h v], r) \<Longrightarrow>
     Client_route marshal v c = (Inr (), c\<lparr>clRouter := r, clHandled := clHandled c @ [EHandle h v]\<rparr>)"
  by (simp add: Client_route_def on_router_def run_effect_def record_effect_def)

lemma recv_stanza:
  assumes "is_stanza v" "clSession c = Some s"
  shows "recv_packet marshal evh v c = (Inr True, c\<lparr>clSpawned := clSpawned c @ [v],
    clSession := Some (s\<lparr>sessSMState := (sessSMState s)\<lparr>smsInbound := smsInbound (sessSMState s) + 1\<rparr>\<rparr>)\<rparr>)"
  using assms by (cases v) (simp_all add: recv_packet_def count_inbound_def with_session_def spawn_route_def)

lemma recv_request:
  assumes "clSession c = Some s" "clTransport c = TCP t" "xt_ready ch t"
    and "marshal (PktSMAnswer (smsInbound (sessSMState s))) = Inr a"
  shows "recv_packet marshal evh PktSMRequest c = (Inr True, c\<lparr>clTransport := TCP (wrote ch (ORaw a) t)\<rparr>)"
  using assms by (simp add: recv_packet_def with_session_def attempt_def Client_Send_def sendWithWriter_ready)

lemma recv_step_TCP:
  assumes "clTransport c = TCP t" "NextPacket cdc (xtDecoder t) = Inr (v, d)"
  shows "recv_step cdc marshal evh c = recv_packet marshal evh v (c\<lparr>clTransport := TCP (t\<lparr>xtDecoder := d\<rparr>)\<rparr>)"
  using assms by (simp add: recv_step_def attempt_def on_client_def tr_read_def)

text \<open>
  The connection after \<open>n\<close> of the packets \<open>vs\<close> were received, when \<open>i\<close> stanzas had been counted
  before: the others are still to be read.
\<close>

definition receiving :: "codec \<Rightarrow> channel \<Rightarrow> packet list \<Rightarrow> decoder \<Rightarrow> gouint \<Rightarrow> nat \<Rightarrow> 'h client \<Rightarrow> bool" where
  "receiving cdc ch vs d i n c \<longleftrightarrow>
     (\<exists>t. clTransport c = TCP t \<and> xt_ready ch t \<and> read_packets cdc (length vs - n) (xtDecoder t) = Inr (drop n vs, d))
     \<and> client_inbound c = Some (i + of_nat (length (filter is_stanza (take n vs))))"

abbreviation client_out :: "'h client \<Rightarrow> (channel \<times> outgoing) list" where
  "client_out c \<equiv> (case clTransport c of TCP t \<Rightarrow> xtOut t | _ \<Rightarrow> [])"

text \<open>A turn of the loop on such a connection: a stanza is counted and its dispatch started, a request is answered.\<close>

lemma recv_turn:
  assumes "receiving cdc ch vs d i n c" "n < length vs" "is_stanza (vs ! n) \<or> vs ! n = PktSMRequest"
    and "\<And>h. marshal (PktSMAnswer h) = Inr (render (PktSMAnswer h))"
  shows "\<exists>c'. recv_step cdc marshal evh c = (Inr True, c') \<and> receiving cdc ch vs d i (Suc n) c'
    \<and> clRouter c' = clRouter c \<and> clHandled c' = clHandled c
    \<and> clSpawned c' = clSpawned c @ (if is_stanza (vs ! n) then [vs ! n] else [])
    \<and> client_out c' = client_out c @ (if is_stanza (vs ! n) then []
        else [(ch, ORaw (render (PktSMAnswer (i + of_nat (length (filter is_stanza (take n vs)))))))])"
proof -
  let ?k = "i + of_nat (length (filter is_stanza (take n vs)))"
  obtain t where t: "clTransport c = TCP t" "xt_ready ch t" "read_packets cdc (length vs - n) (xtDecoder t) = Inr (drop n vs, d)"
    and "client_inbound c = Some ?k"
    using assms(1) by (auto simp: receiving_def)
  then obtain s where s: "clSession c = Some s" "smsInbound (sessSMState s) = ?k" by auto
  have len: "length vs - n = Suc (length vs - Suc n)" using assms(2) by simp
  have dropn: "drop n vs = vs ! n # drop (Suc n) vs" using assms(2) by (rule Cons_nth_drop_Suc [symmetric])
  obtain d1 where v: "NextPacket cdc (xtDecoder t) = Inr (vs ! n, d1)"
    and vs: "read_packets cdc (length vs - Suc n) d1 = Inr (drop (Suc n) vs, d)"
    using t(3) unfolding len dropn by (auto simp: bind_result_Inr_iff)
  let ?t1 = "t\<lparr>xtDecoder := d1\<rparr>"
  let ?c1 = "c\<lparr>clTransport := TCP ?t1\<rparr>"
  have step: "recv_step cdc marshal evh c = recv_packet marshal evh (vs ! n) ?c1" by (rule recv_step_TCP [OF t(1) v])
  have rdy: "xt_ready ch ?t1" using t(2) by simp
  show ?thesis
  proof (cases "is_stanza (vs ! n)")
    case True
    let ?c = "?c1\<lparr>clSpawned := clSpawned c @ [vs ! n],
      clSession := Some (s\<lparr>sessSMState := (sessSMState s)\<lparr>smsInbound := ?k + 1\<rparr>\<rparr>)\<rparr>"
    have "recv_step cdc marshal evh c = (Inr True, ?c)"
      unfolding step using recv_stanza [OF True, of ?c1 s marshal evh] s by simp
    moreover have "receiving cdc ch vs d i (Suc n) ?c"
      using rdy vs True assms(2) by (simp add: receiving_def take_Suc_conv_app_nth add.assoc)
    ultimately show ?thesis using True t(1) by (intro exI [of _ ?c]) simp
  next
    case False
    let ?c = "?c1\<lparr>clTransport := TCP (wrote ch (ORaw (render (PktSMAnswer ?k))) ?t1)\<rparr>"
    have "recv_step cdc marshal evh c = (Inr True, ?c)"
      unfolding step using False assms(3,4) s recv_request [of ?c1 s ?t1 ch marshal "render (PktSMAnswer ?k)" evh] rdy by simp
    moreover have "receiving cdc ch vs d i (Suc n) ?c"
      using rdy vs False assms(2) s by (simp add: receiving_def take_Suc_conv_app_nth)
    ultimately show ?thesis using False t(1) by (intro exI [of _ ?c]) simp
  qed
qed

lemma sm_replies_snoc:
  "sm_replies i (vs @ [v]) =
     sm_replies i vs @ (if v = PktSMRequest then [PktSMAnswer (i + of_nat (length (filter is_stanza vs)))] else [])"
  by (induction i vs rule: sm_replies.induct) (auto simp: add.assoc)

text \<open>
  The state of the program after \<open>n\<close> turns from the client \<open>c\<close>, with any of the goroutines done.
\<close>

definition answering ::
  "codec \<Rightarrow> channel \<Rightarrow> packet list \<Rightarrow> decoder \<Rightarrow> gouint \<Rightarrow> (packet \<Rightarrow> 'h) \<Rightarrow> (packet \<Rightarrow> string) \<Rightarrow> 'h client \<Rightarrow> nat \<Rightarrow> 'h client \<Rightarrow> bool" where
  "answering cdc ch vs d i hf render c n c' \<longleftrightarrow>
     receiving cdc ch vs d i n c' \<and> clRouter c' = clRouter c
     \<and> client_out c' = client_out c @ map (\<lambda>p. (ch, ORaw (render p))) (sm_replies i (take n vs))
     \<and> (\<exists>hs. clHandled c' = clHandled c @ map (\<lambda>v. EHandle (hf v) v) hs
          \<and> mset hs + mset (clSpawned c') = mset (filter is_stanza (take n vs)))"

lemma answering_turn:
  assumes "answering cdc ch vs d i hf render c n c1" "n < length vs"
    and "list_all (\<lambda>v. is_stanza v \<or> v = PktSMRequest) vs" "\<And>h. marshal (PktSMAnswer h) = Inr (render (PktSMAnswer h))"
  shows "\<exists>c2. recv_step cdc marshal evh c1 = (Inr True, c2) \<and> answering cdc ch vs d i hf render c (Suc n) c2"
proof -
  have rec: "receiving cdc ch vs d i n c1" using assms(1) by (simp add: answering_def)
  have v: "is_stanza (vs ! n) \<or> vs ! n = PktSMRequest" using assms(2,3) by (simp add: list_all_length)
  have request: "vs ! n \<noteq> PktSMRequest" if "is_stanza (vs ! n)" using that by auto
  obtain c2 where c2: "recv_step cdc marshal evh c1 = (Inr True, c2)" "receiving cdc ch vs d i (Suc n) c2"
      "clRouter c2 = clRouter c1" "clHandled c2 = clHandled c1"
      "clSpawned c2 = clSpawned c1 @ (if is_stanza (vs ! n) then [vs ! n] else [])"
      "client_out c2 = client_out c1 @ (if is_stanza (vs ! n) then []
        else [(ch, ORaw (render (PktSMAnswer (i + of_nat (length (filter is_stanza (take n vs)))))))])"
    using recv_turn [OF rec assms(2) v, of marshal render evh, OF assms(4)] by blast
  have "answering cdc ch vs d i hf render c (Suc n) c2"
    using assms(1,2) c2 v request
    by (auto simp: answering_def take_Suc_conv_app_nth sm_replies_snoc)
  then show ?thesis using c2(1) by blast
qed

lemma answering_route:
  assumes "answering cdc ch vs d i hf render c n c1" "clSpawned c1 = pre @ v # post"
    and "\<And>v. v \<in> set vs \<Longrightarrow> is_stanza v \<Longrightarrow> Router_route SClient v (clRouter c) = ([EHandle (hf v) v], clRouter c)"
  shows "\<exists>c2. Client_route marshal v (c1\<lparr>clSpawned := pre @ post\<rparr>) = (Inr (), c2)
    \<and> answering cdc ch vs d i hf render c n c2 \<and> clSpawned c2 = pre @ post \<and> clHandled c2 = clHandled c1 @ [EHandle (hf v) v]"
proof -
  obtain hs where hs: "clHandled c1 = clHandled c @ map (\<lambda>v. EHandle (hf v) v) hs"
      "mset hs + mset (clSpawned c1) = mset (filter is_stanza (take n vs))"
    using assms(1) by (auto simp: answering_def)
  have "v \<in># mset hs + mset (clSpawned c1)" using assms(2) by simp
  then have "v \<in> set (filter is_stanza (take n vs))" unfolding hs(2) by simp
  then have v: "v \<in> set vs" "is_stanza v" by (auto dest: in_set_takeD)
  let ?c = "c1\<lparr>clSpawned := pre @ post, clHandled := clHandled c1 @ [EHandle (hf v) v]\<rparr>"
  have r: "clRouter c1 = clRouter c" using assms(1) by (simp add: answering_def)
  have "Client_route marshal v (c1\<lparr>clSpawned := pre @ post\<rparr>) = (Inr (), ?c)"
    using Client_route_handler [of v "c1\<lparr>clSpawned := pre @ post\<rparr>" "hf v" "clRouter c" marshal] assms(3) [OF v] r by simp
  moreover have "answering cdc ch vs d i hf render c n ?c"
  proof -
    have "clHandled ?c = clHandled c @ map (\<lambda>v. EHandle (hf v) v) (hs @ [v])
        \<and> mset (hs @ [v]) + mset (clSpawned ?c) = mset (filter is_stanza (take n vs))"
      using hs assms(2) by simp
    then have "\<exists>hs. clHandled ?c = clHandled c @ map (\<lambda>v. EHandle (hf v) v) hs
        \<and> mset hs + mset (clSpawned ?c) = mset (filter is_stanza (take n vs))" by blast
    then show ?thesis using assms(1) unfolding answering_def by (simp add: receiving_def)
  qed
  ultimately show ?thesis by (intro exI [of _ ?c]) simp
qed

lemma answering_runs:
  assumes "client_runs cdc marshal evh (Program True c) n p" "n \<le> length vs" "answering cdc ch vs d i hf render c 0 c"
    and "list_all (\<lambda>v. is_stanza v \<or> v = PktSMRequest) vs" "\<And>h. marshal (PktSMAnswer h) = Inr (render (PktSMAnswer h))"
    and "\<And>v. v \<in> set vs \<Longrightarrow> is_stanza v \<Longrightarrow> Router_route SClient v (clRouter c) = ([EHandle (hf v) v], clRouter c)"
  shows "\<exists>c'. p = Program True c' \<and> answering cdc ch vs d i hf render c n c'"
  using assms(1,2)
proof (induction rule: client_runs.induct)
  case start
  then show ?case using assms(3) by blast
next
  case (turn n c1 go c2)
  then show ?case using answering_turn [of cdc ch vs d i hf render c n c1 marshal evh] assms(4,5) by fastforce
next
  case (turn_panic n c1 e c2)
  then show ?case using answering_turn [of cdc ch vs d i hf render c n c1 marshal evh] assms(4,5) by fastforce
next
  case (route n r c1 pre v post c2)
  then show ?case using answering_route [of cdc ch vs d i hf render c n c1 pre v post marshal] assms(6) by fastforce
next
  case (route_panic n r c1 pre v post e c2)
  then show ?case using answering_route [of cdc ch vs d i hf render c n c1 pre v post marshal] assms(6) by fastforce
qed

text \<open>The goroutines that wait can all run, and so can the turns that are left.\<close>

lemma answering_drains:
  assumes "answering cdc ch vs d i hf render c n c1"
    and "\<And>v. v \<in> set vs \<Longrightarrow> is_stanza v \<Longrightarrow> Router_route SClient v (clRouter c) = ([EHandle (hf v) v], clRouter c)"
  shows "\<exists>c2. client_runs cdc marshal evh (Program True c1) 0 (Program True c2)
    \<and> answering cdc ch vs d i hf render c n c2 \<and> clSpawned c2 = []"
  using assms(1)
proof (induction "clSpawned c1" arbitrary: c1)
  case Nil
  then show ?case using client_runs.start by metis
next
  case (Cons v post)
  obtain c2 where c2: "Client_route marshal v (c1\<lparr>clSpawned := [] @ post\<rparr>) = (Inr (), c2)"
      "answering cdc ch vs d i hf render c n c2" "clSpawned c2 = [] @ post"
    using answering_route [of cdc ch vs d i hf render c n c1 "[]" v post marshal] Cons.prems Cons.hyps(2) assms(2) by fastforce
  obtain c3 where c3: "client_runs cdc marshal evh (Program True c2) 0 (Program True c3)"
      "answering cdc ch vs d i hf render c n c3" "clSpawned c3 = []"
    using Cons.hyps(1) [of c2] c2 by auto
  have "client_runs cdc marshal evh (Program True c1) 0 (Program True c2)"
    by (rule client_runs.route [OF client_runs.start, where pre = "[]"]) (use Cons.hyps(2) c2(1) in auto)
  then show ?case using client_runs_trans [OF c3(1)] c3(2,3) by fastforce
qed

lemma answering_finishes:
  assumes "answering cdc ch vs d i hf render c n c1" "n \<le> length vs"
    and "list_all (\<lambda>v. is_stanza v \<or> v = PktSMRequest) vs" "\<And>h. marshal (PktSMAnswer h) = Inr (render (PktSMAnswer h))"
    and "\<And>v. v \<in> set vs \<Longrightarrow> is_stanza v \<Longrightarrow> Router_route SClient v (clRouter c) = ([EHandle (hf v) v], clRouter c)"
  shows "\<exists>c2. client_runs cdc marshal evh (Program True c1) (length vs - n) (Program True c2)
    \<and> answering cdc ch vs d i hf render c (length vs) c2 \<and> clSpawned c2 = []"
  using assms(1,2)
proof (induction "length vs - n" arbitrary: n c1)
  case 0
  then have "n = length vs" by simp
  then show ?case using answering_drains [of cdc ch vs d i hf render c n c1 marshal evh] 0 assms(5) by simp
next
  case (Suc k)
  obtain c2 where c2: "recv_step cdc marshal evh c1 = (Inr True, c2)" "answering cdc ch vs d i hf render c (Suc n) c2"
    using answering_turn [of cdc ch vs d i hf render c n c1 marshal evh] Suc.prems Suc.hyps(2) assms(3,4) by force
  obtain c3 where c3: "client_runs cdc marshal evh (Program True c2) (length vs - Suc n) (Program True c3)"
      "answering cdc ch vs d i hf render c (length vs) c3" "clSpawned c3 = []"
    using Suc.hyps(1) [of "Suc n" c2] Suc.hyps(2) c2(2) by force
  have "client_runs cdc marshal evh (Program True c1) (Suc 0) (Program True c2)"
    by (rule client_runs.turn [OF client_runs.start c2(1)])
  moreover have "length vs - n = Suc 0 + (length vs - Suc n)" using Suc.hyps(2) by simp
  ultimately show ?case using client_runs_trans [OF c3(1)] c3(2,3) by metis
qed

text \<open>
  C2. While stanzas and requests for an acknowledgement arrive on a working connection, and every
  stanza is one that is not the answer to a request and that a route with a handler matches, however
  the goroutines that dispatch the stanzas run between the turns of the receiving loop: the program
  does not crash and the loop goes on; every request was answered, in its place, with the number of
  the stanzas that arrived before it; the count of the session has grown by the number of stanzas;
  every stanza that arrived is either still to be dispatched or was given once to the handler of its
  route, in any order. From there the loop can read the rest and every stanza can be handled.
\<close>

theorem recv_loop_answers:
  assumes "clTransport c = TCP t" "xt_ready ch t" "clSpawned c = []" "client_inbound c = Some i"
    and "read_packets cdc (length vs) (xtDecoder t) = Inr (vs, d)" "list_all (\<lambda>v. is_stanza v \<or> v = PktSMRequest) vs"
    and "\<And>v. v \<in> set vs \<Longrightarrow> is_stanza v \<Longrightarrow> Router_route SClient v (clRouter c) = ([EHandle (hf v) v], clRouter c)"
    and "\<And>h. marshal (PktSMAnswer h) = Inr (render (PktSMAnswer h))"
    and "client_runs cdc marshal evh (Program True c) n p" "n \<le> length vs"
  shows "\<exists>c' t' hs c''. p = Program True c' \<and> clTransport c' = TCP t' \<and> xt_ready ch t' \<and> clRouter c' = clRouter c
    \<and> xtOut t' = xtOut t @ map (\<lambda>p. (ch, ORaw (render p))) (sm_replies i (take n vs))
    \<and> client_inbound c' = Some (i + of_nat (length (filter is_stanza (take n vs))))
    \<and> clHandled c' = clHandled c @ map (\<lambda>v. EHandle (hf v) v) hs
    \<and> mset hs + mset (clSpawned c') = mset (filter is_stanza (take n vs))
    \<and> client_runs cdc marshal evh p (length vs - n) (Program True c'') \<and> clSpawned c'' = []"
proof -
  have "answering cdc ch vs d i hf render c 0 c"
    using assms(1-5) by (simp add: answering_def receiving_def)
  then obtain c' where c': "p = Program True c'" "answering cdc ch vs d i hf render c n c'"
    using answering_runs [OF assms(9,10), of ch d i hf render] assms(6-8) by blast
  then obtain c'' where "client_runs cdc marshal evh p (length vs - n) (Program True c'')" "clSpawned c'' = []"
    using answering_finishes [of cdc ch vs d i hf render c n c' marshal evh] assms(6-8,10) by blast
  with c' show ?thesis
    using assms(1) by (fastforce simp: answering_def receiving_def)
qed

text \<open>
  Two stanzas may reach their handlers in the order opposite to that in which they arrived, as the
  loop does not wait for the goroutine of the first.
\<close>

theorem handlers_reorder:
  assumes "clTransport c = TCP t" "xt_ready ch t" "clSpawned c = []" "client_inbound c = Some i"
    and "read_packets cdc (length [v, w]) (xtDecoder t) = Inr ([v, w], d)" "is_stanza v" "is_stanza w"
    and "\<And>u. u \<in> {v, w} \<Longrightarrow> Router_route SClient u (clRouter c) = ([EHandle (hf u) u], clRouter c)"
    and "\<And>h. marshal (PktSMAnswer h) = Inr (render (PktSMAnswer h))"
  shows "\<exists>c'. client_runs cdc marshal evh (Program True c) 2 (Program True c')
    \<and> clHandled c' = clHandled c @ [EHandle (hf w) w, EHandle (hf v) v]"
proof -
  let ?a = "answering cdc ch [v, w] d i hf render c"
  have r: "Router_route SClient u (clRouter c) = ([EHandle (hf u) u], clRouter c)" if "u \<in> set [v, w]" "is_stanza u" for u
    using assms(8) that by simp
  have l: "list_all (\<lambda>v. is_stanza v \<or> v = PktSMRequest) [v, w]" using assms(6,7) by simp
  have "receiving cdc ch [v, w] d i 0 c" using assms(1-5) by (simp add: receiving_def)
  then obtain c1 where c1: "recv_step cdc marshal evh c = (Inr True, c1)" "receiving cdc ch [v, w] d i 1 c1"
      "clRouter c1 = clRouter c" "clHandled c1 = clHandled c" "clSpawned c1 = [v]"
    using recv_turn [of cdc ch "[v, w]" d i 0 c marshal render evh] assms(3,6,9) by auto
  obtain c2 where c2: "recv_step cdc marshal evh c1 = (Inr True, c2)" "clRouter c2 = clRouter c" "clHandled c2 = clHandled c" "clSpawned c2 = [v, w]"
    using recv_turn [of cdc ch "[v, w]" d i 1 c1 marshal render evh] c1 assms(7,9) by auto
  let ?c3 = "c2\<lparr>clSpawned := [v], clHandled := clHandled c @ [EHandle (hf w) w]\<rparr>"
  let ?c4 = "?c3\<lparr>clSpawned := [], clHandled := clHandled c @ [EHandle (hf w) w, EHandle (hf v) v]\<rparr>"
  have 3: "Client_route marshal w (c2\<lparr>clSpawned := [v] @ []\<rparr>) = (Inr (), ?c3)"
    using Client_route_handler [of w "c2\<lparr>clSpawned := [v] @ []\<rparr>" "hf w" "clRouter c" marshal] assms(8) c2 by simp
  have 4: "Client_route marshal v (?c3\<lparr>clSpawned := [] @ []\<rparr>) = (Inr (), ?c4)"
    using Client_route_handler [of v "?c3\<lparr>clSpawned := [] @ []\<rparr>" "hf v" "clRouter c" marshal] assms(8) c2 by simp
  have "client_runs cdc marshal evh (Program True c) (Suc (Suc 0)) (Program True c2)"
    by (rule client_runs.turn [OF client_runs.turn [OF client_runs.start c1(1)] c2(1)])
  then have "client_runs cdc marshal evh (Program True c) (Suc (Suc 0)) (Program True ?c3)"
    by (rule client_runs.route [where pre = "[v]" and post = "[]"]) (use c2(4) 3 in simp_all)
  then have "client_runs cdc marshal evh (Program True c) (Suc (Suc 0)) (Program True ?c4)"
    by (rule client_runs.route [where pre = "[]" and post = "[]"]) (use 4 in simp_all)
  then show ?thesis by (intro exI [of _ ?c4]) (simp add: numeral_2_eq_2)
qed

subsection \<open>The initial presence\<close>

text \<open>
  C9. The initial presence of a new session is written without being put in the queue, but the
  server counts it: after the presence and one stanza, the acknowledgement of the presence alone
  (\<open>h = 1\<close>) takes the stanza from the queue although the server may never have received it.
\<close>

theorem presence_uncounted:
  assumes "clTransport c = TCP t" "xt_ready ch t" "client_queue c = Some NewUnAckQueue"
    and "cfStreamManagementEnable (clConfig c)" "map_option sessResumed (clSession c) = Some False"
    and "clPostConnectHook c = None" "marshal p = Inr data" "\<not> is_sm_nonza p"
  shows "\<exists>c1 c2 c3 t3. postSessionSetup c = (Inr (), c1) \<and> Client_Send marshal p c1 = (Inr (), c2)
    \<and> client_queue c2 = Some \<lparr>Uslice = [\<lparr>uId = 1, uStz = data\<rparr>]\<rparr>
    \<and> SendMissingStz marshal 1 c2 = (Inr (), c3) \<and> client_queue c3 = Some NewUnAckQueue
    \<and> clTransport c3 = TCP t3 \<and> xtOut t3 = xtOut t @ [(ch, ORaw InitialPresence), (ch, ORaw data)]"
proof -
  obtain s where s: "clSession c = Some s" "\<not> sessResumed s" "smsUnAckQueue (sessSMState s) = Some NewUnAckQueue"
    using assms(3,5) by (cases "clSession c") auto
  let ?q = "\<lparr>Uslice = [\<lparr>uId = 1, uStz = data\<rparr>]\<rparr>"
  let ?t1 = "wrote ch (ORaw InitialPresence) t"
  let ?c1 = "c\<lparr>clTransport := TCP ?t1\<rparr>"
  let ?c2 = "set_queue ?q (c\<lparr>clTransport := TCP (wrote ch (ORaw data) ?t1)\<rparr>)"
  let ?c3 = "set_queue NewUnAckQueue ?c2"
  have q: "uaq_push data NewUnAckQueue = ?q" by (simp add: uaq_push_def Push_Some NewUnAckQueue_def)
  have d: "drop_acked 1 ?q = NewUnAckQueue" by (simp add: drop_acked_def NewUnAckQueue_def)
  have 1: "postSessionSetup c = (Inr (), ?c1)"
    using s assms(1,2,6) by (simp add: postSessionSetup_def sendWithWriter_ready run_hook_def)
  have 2: "Client_Send marshal p ?c1 = (Inr (), ?c2)"
    using s assms(2,4,7,8) push_unacked_run [of ?c1 NewUnAckQueue data]
    by (simp add: Client_Send_def q sendWithWriter_ready)
  have 3: "SendMissingStz marshal 1 ?c2 = (Inr (), ?c3)"
    using s by (simp add: SendMissingStz_def Let_def d) (simp add: NewUnAckQueue_def)
  show ?thesis
    by (rule exI [of _ ?c1], rule exI [of _ ?c2], rule exI [of _ ?c3], rule exI [of _ "wrote ch (ORaw data) ?t1"])
      (use 1 2 3 s in simp)
qed

subsection \<open>Stream errors\<close>

text \<open>
  A stream error is dispatched at once and then once more in a goroutine, and the connection is closed only
  after the event handler has run, so that a handler that reconnects has its new connection
  closed: here the event handler leaves a new connection, and the end finds it closed.
\<close>

theorem stream_error_twice:
  assumes "Router_route SClient (PktStreamError nm txt) (clRouter c) = ([EHandle h (PktStreamError nm txt)], clRouter c)"
    and "\<And>e c. evh e c = (Inr (), c\<lparr>clTransport := TCP t'\<rparr>)" "xt_ready ch t'" "xtConn t'"
  shows "\<exists>c' t. recv_packet marshal evh (PktStreamError nm txt) c = (Inr True, c') \<and> clTransport c' = TCP t \<and> xtClosed t
    \<and> xtOut t = xtOut t' @ [(ch, ORaw StreamClose)]
    \<and> clHandled c' = clHandled c @ [EHandle h (PktStreamError nm txt)]
    \<and> clSpawned c' = clSpawned c @ [PktStreamError nm txt] \<and> clRouter c' = clRouter c
    \<and> clCurrentState c' = StateStreamError"
proof -
  have close: "xt_Close t' = (Inr (), (wrote ch (ORaw StreamClose) t')\<lparr>xtCloseChan := map_option (\<lambda>_. 0) (xtCloseChan t'), xtClosed := True\<rparr>)"
    using assms(3,4) by (auto simp: xt_Close_def xt_Write_ready wrote_def xt_ready_def)
  show ?thesis
    using assms(1)
    by (simp add: recv_packet_def Client_route_handler [where h = h and r = "clRouter c"] streamError_def notify_def
        ignoring_def attempt_def assms(2) ErrorHandler_def Client_Disconnect_def on_client_def close state_event_def spawn_route_def)
qed

subsection \<open>Witnesses\<close>

lemma sample_client_props:
  "clTransport (sample_client ts) = TCP (sample_reader Encrypted ts)" "client_queue (sample_client ts) = Some NewUnAckQueue"
  "cfStreamManagementEnable (clConfig (sample_client ts))" "client_inbound (sample_client ts) = Some 0"
  "map_option sessResumed (clSession (sample_client ts)) = Some False" "clPostConnectHook (sample_client ts) = None"
  "Router_route SClient v (clRouter (sample_client ts)) = ([EHandle 7 v], clRouter (sample_client ts)) \<or> (\<exists>h. v = PktSMAnswer h)"
  by (cases v; simp add: sample_client_def new_session_def zero_sm_state_def Router_route_def route_packet_def Router_Match_def
      Route_Match_def NewRouter_def)+

lemma sample_client_handled: "clHandled (sample_client ts) = []"
  by (simp add: sample_client_def)

lemmas sample_ready = sample_client_props(1) sample_reader_ready(1)

theorem Client_Send_tracks_witness:
  "\<exists>c'. fst (Client_Send sample_marshal (PktMessage zero_message) (sample_client [])) = Inr ()
    \<and> snd (Client_Send sample_marshal (PktMessage zero_message) (sample_client [])) = c' \<and> clSession c' \<noteq> None"
proof -
  let ?t = "TCP (wrote Encrypted (ORaw ''<message/>'') (sample_reader Encrypted []))"
  have "tr_Write (ORaw ''<message/>'') (clTransport (sample_client [])) = (Inr True, ?t)"
    by (simp add: sample_client_props(1) xt_Write_ready [OF sample_reader_ready(1)])
  from Client_Send_tracks [OF sample_client_props(2,3) _ this, of sample_marshal "PktMessage zero_message"]
  show ?thesis by (auto simp: sample_client_def)
qed

theorem Client_Send_refused_witness:
  "\<exists>e. Client_Send sample_marshal PktSMRequest ((sample_client [])\<lparr>clSession := None\<rparr>) = (Inl e, (sample_client [])\<lparr>clSession := None\<rparr>)"
  by (rule Client_Send_refused) simp

theorem SendMissingStz_resends_witness:
  "\<exists>t' c'. SendMissingStz sample_marshal 2 (set_queue sample_queue (sample_client [])) = (Inr (), c')
    \<and> clTransport c' = TCP t' \<and> xtOut t' = [(Encrypted, ORaw ''c''), (Encrypted, ORaw ''<r/>'')]"
proof -
  let ?c = "set_queue sample_queue (sample_client [])"
  have c: "clTransport ?c = TCP (sample_reader Encrypted [])" "client_queue ?c = Some sample_queue"
    by (simp_all add: sample_client_def)
  have f: "filter (\<lambda>u. sint (2 :: goint) < sint (uId u)) (Uslice sample_queue) = [\<lparr>uId = 3, uStz = ''c''\<rparr>]"
    by (simp add: sample_queue_def)
  from SendMissingStz_resends [OF c(1) sample_reader_ready(1) c(2) uaq_inv_sample, of sample_marshal "''<r/>''" 2]
  show ?thesis unfolding f by (auto simp: sample_reader_ready)
qed

definition sample_arrivals :: "xml list" where
  "sample_arrivals = [Elem (XName NSClient ''presence'') [] [], Elem (XName NSStreamManagement ''r'') [] []]"

lemma NextPacket_request:
  assumes "not_at_eof stk"
  shows "NextPacket cdc (after (xml_tokens (Elem (XName NSStreamManagement ''r'') [] []) @ rest) stk d) = Inr (PktSMRequest, after rest stk d)"
proof -
  have ns: "NSStreamManagement \<noteq> NSStream" "NSStreamManagement \<noteq> NSSASL" "NSStreamManagement \<noteq> NSClient"
    "NSStreamManagement \<noteq> NSComponent" by (simp_all add: ns_defs)
  show ?thesis
    using assms by (simp add: NextPacket_def NextXmppToken_elem decode_packet_def sm_decode_def ns
        as_packet_def decode_struct_tree decode_sm_request_def expect_name_def del: xml_tokens.simps)
qed

theorem recv_loop_answers_witness:
  "\<exists>c' t'. client_runs package_codec sample_marshal (\<lambda>_. skip)
      (Program True (sample_client (concat (map xml_tokens sample_arrivals)))) 2 (Program True c')
    \<and> clTransport c' = TCP t' \<and> xtOut t' = [(Encrypted, ORaw ''a1'')] \<and> length (clHandled c') = 1 \<and> clSpawned c' = []"
proof -
  let ?p = "PktPresence (zero_presence\<lparr>presXMLName := XName NSClient ''presence''\<rparr>)"
  let ?c = "sample_client (concat (map xml_tokens sample_arrivals))"
  have "stanza_packet (Elem (XName NSClient ''presence'') [] []) = Inr ?p"
    by (simp add: stanza_packet_def ns_defs Presence_start_def zero_presence_def)
  then have r: "read_packets package_codec (length [?p, PktSMRequest]) (xtDecoder (sample_reader Encrypted (concat (map xml_tokens sample_arrivals))))
      = Inr ([?p, PktSMRequest], after [] [] no_decoder)"
    using NextPacket_stanza [of "Elem (XName NSClient ''presence'') [] []" ?p "[]"]
      NextPacket_request [of "[]" package_codec "[]" no_decoder]
    by (simp add: sample_reader_ready sample_arrivals_def del: xml_tokens.simps)
  have v: "list_all (\<lambda>v. is_stanza v \<or> v = PktSMRequest) [?p, PktSMRequest]" by simp
  have h: "Router_route SClient v (clRouter (sample_client ts)) = ([EHandle 7 v], clRouter (sample_client ts))"
    if "is_stanza v" for v ts
    using sample_client_props(7) [of v ts] that by auto
  have m: "sample_marshal (PktSMAnswer h) = Inr (projr (sample_marshal (PktSMAnswer h)))" for h by simp
  have sp: "clSpawned ?c = []" by (simp add: sample_client_def)
  note answers = recv_loop_answers [where hf = "\<lambda>_. 7" and marshal = sample_marshal and render = "\<lambda>p. projr (sample_marshal p)"
        and evh = "\<lambda>_. skip", OF sample_ready sp sample_client_props(4) r v h m]
  obtain c' where run: "client_runs package_codec sample_marshal (\<lambda>_. skip) (Program True ?c) 2 (Program True c')" and e: "clSpawned c' = []"
    using answers [OF _ client_runs.start] by (auto simp: numeral_2_eq_2)
  obtain t' hs where c': "clTransport c' = TCP t'"
      "xtOut t' = xtOut (sample_reader Encrypted (concat (map xml_tokens sample_arrivals)))
        @ map (\<lambda>p. (Encrypted, ORaw (projr (sample_marshal p)))) (sm_replies 0 (take 2 [?p, PktSMRequest]))"
      "clHandled c' = clHandled ?c @ map (\<lambda>v. EHandle 7 v) hs"
      "mset hs + mset (clSpawned c') = mset (filter is_stanza (take 2 [?p, PktSMRequest]))"
    using answers [OF _ run] by auto
  have "size (mset hs) = 1" using c'(4) e by simp
  then show ?thesis
    using run c' e hex_int_1 by (intro exI [of _ c'] exI [of _ t']) (simp add: sample_client_handled sample_reader_ready)
qed

theorem presence_uncounted_witness:
  "\<exists>c1 c2 c3. postSessionSetup (sample_client []) = (Inr (), c1) \<and> Client_Send sample_marshal (PktMessage zero_message) c1 = (Inr (), c2)
    \<and> SendMissingStz sample_marshal 1 c2 = (Inr (), c3) \<and> client_queue c3 = Some NewUnAckQueue"
  using presence_uncounted [OF sample_ready sample_client_props(2,3,5,6), of sample_marshal "PktMessage zero_message"] by fastforce

theorem stream_error_twice_witness:
  "\<exists>c' t. recv_packet sample_marshal (\<lambda>_ c. (Inr (), c\<lparr>clTransport := TCP ((sample_reader Encrypted [])\<lparr>xtConn := True\<rparr>)\<rparr>))
      (PktStreamError (XName [] ''reset'') []) (sample_client []) = (Inr True, c')
    \<and> clTransport c' = TCP t \<and> xtClosed t \<and> length (clHandled c') = 1 \<and> length (clSpawned c') = 1"
proof -
  let ?t = "(sample_reader Encrypted [])\<lparr>xtConn := True\<rparr>" and ?v = "PktStreamError (XName [] ''reset'') []"
  have "xt_ready Encrypted ?t" using sample_reader_ready(1) [of Encrypted "[]"] by (simp add: xt_ready_def)
  moreover have "xtConn ?t" by simp
  moreover have "Router_route SClient ?v (clRouter (sample_client [])) = ([EHandle 7 ?v], clRouter (sample_client []))"
    using sample_client_props(7) [of ?v "[]"] by auto
  ultimately obtain c' t where "recv_packet sample_marshal (\<lambda>_ c. (Inr (), c\<lparr>clTransport := TCP ?t\<rparr>)) ?v (sample_client []) = (Inr True, c')"
      "clTransport c' = TCP t" "xtClosed t" "clHandled c' = clHandled (sample_client []) @ [EHandle 7 ?v]"
      "clSpawned c' = clSpawned (sample_client []) @ [?v]"
    using stream_error_twice [of "XName [] ''reset''" "[]" "sample_client []" 7 "\<lambda>_ c. (Inr (), c\<lparr>clTransport := TCP ?t\<rparr>)" ?t
        Encrypted sample_marshal] by auto
  then show ?thesis by (intro exI [of _ c'] exI [of _ t]) (simp add: sample_client_handled sample_client_def)
qed

end
