(* ===== verification/Component.thy ===== *)
theory Component
  imports Delivery
begin

text \<open>
  \<^verbatim>\<open>component.go\<close>: an external component (XEP-0114): connecting with the handshake, receiving
  and sending. As in theory \<open>Client\<close>, a method is an action on the component, the event handler
  is a parameter, and events, reported errors and dispatched packets are recorded.
\<close>

subsection \<open>The state\<close>

text \<open>
  The field \<^verbatim>\<open>socketProxy\<close> is never used. Every connection makes a new transport;
  \<open>cpServers\<close> are the scripts of the dials to come.
\<close>

record component_options =
  coTransport :: transport_config
  coDomain :: string
  coSecret :: string
  coName :: string
  coCategory :: string
  coType :: string

record 'h component =
  cpOptions :: component_options
  cpRouter :: "'h router"
  cpTransport :: "transport option"
  cpServers :: "server list"
  cpCurrentState :: conn_state
  cpEvents :: "event list"
  cpErrors :: "error list"
  cpHandled :: "'h effect list"

type_synonym 'h component_handler = "event \<Rightarrow> ('h component, unit) action"

definition NewComponent :: "component_options \<Rightarrow> server list \<Rightarrow> 'h router \<Rightarrow> error + 'h component" where
  "NewComponent opts svs r =
     Inr \<lparr>cpOptions = opts, cpRouter = r, cpTransport = None, cpServers = svs, cpCurrentState = StateDisconnected,
       cpEvents = [], cpErrors = [], cpHandled = []\<rparr>"

definition component_notify :: "'h component_handler \<Rightarrow> event \<Rightarrow> ('h component, unit) action" where
  "component_notify evh e =
     andThen (modify (\<lambda>c. c\<lparr>cpCurrentState := evState e, cpEvents := cpEvents c @ [e]\<rparr>)) (\<lambda>_. ignoring (evh e))"

definition component_state :: "'h component_handler \<Rightarrow> conn_state \<Rightarrow> ('h component, unit) action" where
  "component_state evh st = component_notify evh (state_event st)"

definition component_streamError :: "'h component_handler \<Rightarrow> string \<Rightarrow> string \<Rightarrow> ('h component, unit) action" where
  "component_streamError evh err desc =
     component_notify evh ((state_event StateStreamError)\<lparr>evStreamError := err, evDescription := desc\<rparr>)"

definition component_error :: "error \<Rightarrow> ('h component, unit) action" where
  "component_error e = modify (\<lambda>c. c\<lparr>cpErrors := cpErrors c @ [e]\<rparr>)"

text \<open>A call on the transport; a nil transport panics.\<close>

definition on_component :: "(transport, 'a) action \<Rightarrow> ('h component, 'a) action" where
  "on_component m c =
     (case cpTransport c of
        None \<Rightarrow> (Inl nil_pointer, c)
      | Some t \<Rightarrow> (case m t of (r, t') \<Rightarrow> (r, c\<lparr>cpTransport := Some t'\<rparr>)))"

subsection \<open>Connecting\<close>

definition handshake :: "crypto \<Rightarrow> string \<Rightarrow> string \<Rightarrow> string" where
  "handshake cr secret streamId = hex_encode (crHash cr SHA1 (streamId @ secret))"

definition handshake_text :: "string \<Rightarrow> string" where
  "handshake_text h = ''<handshake>'' @ h @ ''</handshake>''"

definition failing :: "'h component_handler \<Rightarrow> conn_state \<Rightarrow> error \<Rightarrow> ('h component, unit) action" where
  "failing evh st e = andThen (component_state evh st) (\<lambda>_. giving (Inl e))"

definition component_write :: "outgoing \<Rightarrow> ('h component, unit) action" where
  "component_write p = andThen (on_component (tr_Write p)) (\<lambda>_. skip)"

definition handshake_reply :: "'h component_handler \<Rightarrow> error + packet \<Rightarrow> ('h component, unit) action" where
  "handshake_reply evh r =
     (case r of
        Inl e \<Rightarrow> failing evh StatePermanentError (NewConnError e True)
      | Inr v \<Rightarrow>
          (case v of
             PktStreamError n txt \<Rightarrow>
               andThen (component_streamError evh ''conflict'' ''no auth loop'')
                 (\<lambda>_. giving (Inl (NewConnError (Err (''handshake failed '' @ nLocal n)) True)))
           | PktHandshake h \<Rightarrow> component_state evh StateSessionEstablished
           | _ \<Rightarrow> failing evh StatePermanentError
               (NewConnError (Err (''expecting handshake result, got '' @ packet_Name v)) True)))"

definition set_domain :: "component_options \<Rightarrow> component_options" where
  "set_domain opts =
     (if tcDomain (coTransport opts) = [] then opts\<lparr>coTransport := (coTransport opts)\<lparr>tcDomain := coDomain opts\<rparr>\<rparr>
      else opts)"

definition Component_Resume :: "crypto \<Rightarrow> codec \<Rightarrow> 'h component_handler \<Rightarrow> ('h component, unit) action" where
  "Component_Resume cr cdc evh =
     andThen (modify (\<lambda>c. c\<lparr>cpOptions := set_domain (cpOptions c)\<rparr>)) (\<lambda>_. inspect (\<lambda>c.
       case NewComponentTransport (cpServers c) (coTransport (cpOptions c)) of
         Inl e \<Rightarrow>
           andThen (modify (\<lambda>c. c\<lparr>cpTransport := None\<rparr>)) (\<lambda>_. failing evh StatePermanentError (NewConnError e True))
       | Inr t \<Rightarrow>
           andThen (modify (\<lambda>c. c\<lparr>cpTransport := Some t, cpServers := tl (cpServers c)\<rparr>)) (\<lambda>_.
           andThen (attempt (on_component tr_Connect)) (\<lambda>r. case r of
             Inl e \<Rightarrow> failing evh StatePermanentError (NewConnError e True)
           | Inr streamId \<Rightarrow>
               andThen (attempt (component_write (ORaw (handshake_text (handshake cr (coSecret (cpOptions c)) streamId)))))
                 (\<lambda>w. case w of
                    Inl e \<Rightarrow> failing evh StateStreamError
                      (NewConnError (Err (''cannot send handshake '' @ error_text e)) False)
                  | Inr _ \<Rightarrow> andThen (attempt (on_component (tr_read (NextPacket cdc)))) (handshake_reply evh))))))"

definition Component_Connect :: "crypto \<Rightarrow> codec \<Rightarrow> 'h component_handler \<Rightarrow> ('h component, unit) action" where
  "Component_Connect = Component_Resume"

definition Component_Disconnect :: "('h component, unit) action" where
  "Component_Disconnect = inspect (\<lambda>c. if cpTransport c = None then skip else on_component tr_Close)"

subsection \<open>Sending\<close>

definition Component_Send :: "(packet \<Rightarrow> error + string) \<Rightarrow> packet \<Rightarrow> ('h component, unit) action" where
  "Component_Send marshal p =
     inspect (\<lambda>c.
       if cpTransport c = None then giving (Inl (Err ''component is not connected''))
       else
         (case marshal p of
            Inl e \<Rightarrow> giving (Inl (Err (''cannot marshal packet '' @ error_text e)))
          | Inr data \<Rightarrow>
              andThen (attempt (component_write (ORaw data))) (\<lambda>w. case w of
                Inl e \<Rightarrow> giving (Inl (Err (''cannot send packet '' @ error_text e)))
              | Inr _ \<Rightarrow> skip)))"

definition Component_SendRaw :: "string \<Rightarrow> ('h component, unit) action" where
  "Component_SendRaw data =
     inspect (\<lambda>c.
       if cpTransport c = None then giving (Inl (Err ''component is not connected''))
       else component_write (ORaw data))"

definition Component_SendIQ :: "(packet \<Rightarrow> error + string) \<Rightarrow> iq \<Rightarrow> ('h component, nat) action" where
  "Component_SendIQ marshal i =
     (if aType (iqAttrs i) \<noteq> ''set'' \<and> aType (iqAttrs i) \<noteq> ''get'' then giving (Inl ErrCanOnlySendGetOrSetIq)
      else
        andThen (Component_Send marshal (PktIQ i)) (\<lambda>_. inspect (\<lambda>c.
          case NewIQResultRoute (aId (iqAttrs i)) (cpRouter c) of
            (ch, r) \<Rightarrow> andThen (modify (\<lambda>c. c\<lparr>cpRouter := r\<rparr>)) (\<lambda>_. giving (Inr ch)))))"

subsection \<open>Receiving\<close>

definition component_effect :: "(packet \<Rightarrow> error + string) \<Rightarrow> 'h effect \<Rightarrow> ('h component, unit) action" where
  "component_effect marshal e =
     (case e of
        ESend i \<Rightarrow> ignoring (Component_Send marshal (PktIQ i))
      | ENilHandler \<Rightarrow> giving (Inl nil_pointer)
      | _ \<Rightarrow> modify (\<lambda>c. c\<lparr>cpHandled := cpHandled c @ [e]\<rparr>))"

fun component_effects :: "(packet \<Rightarrow> error + string) \<Rightarrow> 'h effect list \<Rightarrow> ('h component, unit) action" where
  "component_effects marshal [] = skip"
| "component_effects marshal (e # es) = andThen (component_effect marshal e) (\<lambda>_. component_effects marshal es)"

definition Component_route :: "(packet \<Rightarrow> error + string) \<Rightarrow> packet \<Rightarrow> ('h component, unit) action" where
  "Component_route marshal p =
     inspect (\<lambda>c. case Router_route SComponent p (cpRouter c) of
       (es, r) \<Rightarrow> andThen (modify (\<lambda>c. c\<lparr>cpRouter := r\<rparr>)) (\<lambda>_. component_effects marshal es))"

definition component_packet :: "(packet \<Rightarrow> error + string) \<Rightarrow> 'h component_handler \<Rightarrow> packet \<Rightarrow> ('h component, bool) action" where
  "component_packet marshal evh val =
     (case val of
        PktStreamError n txt \<Rightarrow>
          andThen (Component_route marshal val) (\<lambda>_.
          andThen (component_streamError evh (nLocal n) txt) (\<lambda>_.
          andThen (component_error (Err (''stream error: '' @ nLocal n))) (\<lambda>_.
          andThen (ignoring Component_Disconnect) (\<lambda>_.
          andThen (Component_route marshal val) (\<lambda>_. giving (Inr True))))))
      | PktStreamClose \<Rightarrow>
          andThen (on_component (\<lambda>t. (Inr (), tr_ReceivedStreamClose t))) (\<lambda>_. giving (Inr False))
      | _ \<Rightarrow> andThen (Component_route marshal val) (\<lambda>_. giving (Inr True)))"

definition component_step :: "codec \<Rightarrow> (packet \<Rightarrow> error + string) \<Rightarrow> 'h component_handler \<Rightarrow> ('h component, bool) action" where
  "component_step cdc marshal evh =
     andThen (attempt (on_component (tr_read (NextPacket cdc)))) (\<lambda>r.
       case r of
         Inl e \<Rightarrow>
           andThen (component_state evh StateDisconnected) (\<lambda>_. andThen (component_error e) (\<lambda>_. giving (Inr False)))
       | Inr val \<Rightarrow> component_packet marshal evh val)"

definition component_recv ::
  "nat \<Rightarrow> codec \<Rightarrow> (packet \<Rightarrow> error + string) \<Rightarrow> 'h component_handler \<Rightarrow> 'h component \<Rightarrow> ((error + unit) \<times> 'h component) option" where
  "component_recv k cdc marshal evh = run_loop k (component_step cdc marshal evh)"

subsection \<open>Establishing the connection\<close>

lemma NextPacket_handshake:
  assumes "not_at_eof stk"
  shows "\<exists>h. NextPacket cdc (after (xml_tokens (Elem (XName NSComponent ''handshake'') [] kids) @ rest) stk d) = Inr (PktHandshake h, after rest stk d)"
proof -
  have ns: "NSComponent \<noteq> NSStream" "NSComponent \<noteq> NSSASL" "NSComponent \<noteq> NSClient" by (simp_all add: ns_defs)
  show ?thesis
    using assms by (simp add: NextPacket_def NextXmppToken_elem decode_packet_def decodeComponent_def ns
        as_packet_def decode_struct_tree decode_inner_def expect_name_def del: xml_tokens.simps)
qed

lemma Component_Resume_run:
  assumes "cpServers c = sv # svs" "svDial sv = None" "\<forall>k. svWrite sv k = WOk"
    and "NewComponentTransport (cpServers c) (coTransport (set_domain (cpOptions c))) = Inr (TCP t)"
    and "svPlain sv = new_decoder (header i @ xml_tokens (Elem (XName NSComponent ''handshake'') [] kids) @ rest)"
  shows "\<exists>c' t'. Component_Resume cr cdc (\<lambda>_. skip) c = (Inr (), c') \<and> cpCurrentState c' = StateSessionEstablished
    \<and> cpTransport c' = Some (TCP t') \<and> cpServers c' = svs
    \<and> xtOut t' = [(Clear, open_text t), (Clear, ORaw (handshake_text (handshake cr (coSecret (cpOptions c)) i)))]"
proof -
  let ?h = "xml_tokens (Elem (XName NSComponent ''handshake'') [] kids)"
  have t: "t = new_xmpp_transport componentStreamOpen (xtConfig t) (sv # svs)"
    using assms(1,4) by (auto simp: NewComponentTransport_def new_xmpp_transport_def split: if_splits)
  define t0 where "t0 = t\<lparr>xtConn := True, xtClosed := False, xtCloseChan := Some 0, xtChannel := Some Clear,
     xtDecoder := svPlain sv, xtServer := Some sv, xtServers := svs, xtWrites := 0\<rparr>"
  have r0: "xt_ready Clear t0" "open_text t0 = open_text t" "xtOut t0 = []"
  proof -
    have "xtOut t = []" by (subst t) (simp add: new_xmpp_transport_def)
    then show "xt_ready Clear t0" "open_text t0 = open_text t" "xtOut t0 = []"
      using assms(3) by (simp_all add: t0_def xt_ready_def open_text_def)
  qed
  have d0: "xtDecoder t0 = after (header i @ ?h @ rest) [] no_decoder"
    by (simp add: t0_def assms(5) after_def new_decoder_def no_decoder_def)
  define t1 where "t1 = (wrote Clear (open_text t) t0)\<lparr>xtDecoder := after (?h @ rest) (in_stream []) no_decoder\<rparr>"
  have con: "tr_Connect (TCP t) = (Inr i, TCP t1)"
  proof -
    have "xtServers t = sv # svs" by (subst t) (simp add: new_xmpp_transport_def)
    then have "xt_Connect t = xt_StartStream t0" using assms(2) by (simp add: xt_Connect_def t0_def)
    also have "\<dots> = (Inr i, t1)"
      using r0 by (simp add: xt_StartStream_def open_text_def [symmetric] xt_Write_ready d0 InitStream_after t1_def del: xml_tokens.simps)
    finally show ?thesis by simp
  qed
  let ?p = "ORaw (handshake_text (handshake cr (coSecret (cpOptions c)) i))"
  have sec: "coSecret (set_domain (cpOptions c)) = coSecret (cpOptions c)" by (simp add: set_domain_def)
  have r1: "xt_ready Clear t1" "xtOut t1 = [(Clear, open_text t)]" using r0 by (simp_all add: t1_def)
  obtain v where v: "NextPacket cdc (after (?h @ rest) (in_stream []) no_decoder) = Inr (PktHandshake v, after rest (in_stream []) no_decoder)"
    using NextPacket_handshake [OF in_stream_not_at_eof] by blast
  let ?t2 = "(wrote Clear ?p t1)\<lparr>xtDecoder := after rest (in_stream []) no_decoder\<rparr>"
  have rd: "tr_read (NextPacket cdc) (TCP (wrote Clear ?p t1)) = (Inr (PktHandshake v), TCP ?t2)"
    by (rule tr_read_ok) (simp add: t1_def v del: xml_tokens.simps)
  have w: "tr_Write ?p (TCP t1) = (Inr True, TCP (wrote Clear ?p t1))" by (simp add: xt_Write_ready [OF r1(1)])
  show ?thesis
    using assms(1,4) r1(2)
    by (simp add: Component_Resume_def andThen_def attempt_def on_component_def con component_write_def w rd sec
        handshake_reply_def component_state_def component_notify_def ignoring_def state_event_def
        del: tr_Connect.simps tr_Write.simps)
qed

text \<open>
  C18. Against a server that accepts the handshake, connecting a component writes exactly two
  things: the opening of the stream and the handshake, the hexadecimal SHA-1 digest of the
  stream's identifier followed by the secret; then the component counts as connected.
\<close>

theorem Component_Resume_established:
  assumes "cpServers c = sv # svs" "svDial sv = None" "\<forall>k. svWrite sv k = WOk"
    and "NewComponentTransport (cpServers c) (coTransport (set_domain (cpOptions c))) = Inr (TCP t)"
    and "svPlain sv = new_decoder (header i @ xml_tokens (Elem (XName NSComponent ''handshake'') [] kids) @ rest)"
  shows "\<exists>c' t'. Component_Resume cr cdc (\<lambda>_. skip) c = (Inr (), c') \<and> cpCurrentState c' = StateSessionEstablished
    \<and> cpTransport c' = Some (TCP t') \<and> cpServers c' = svs
    \<and> xtOut t' = [(Clear, open_text t), (Clear, ORaw (handshake_text (handshake cr (coSecret (cpOptions c)) i)))]"
  using assms by (rule Component_Resume_run)

text \<open>What a stream manager gets from a component, with the state that goes with it.\<close>

definition reported :: "error + 'a \<Rightarrow> 'h component \<Rightarrow> bool" where
  "reported r c \<longleftrightarrow>
     (case r of
        Inl (ConnError e' p) \<Rightarrow> cpCurrentState c \<in> {StatePermanentError, StateStreamError}
          \<and> (\<not> p \<longrightarrow> cpCurrentState c = StateStreamError \<and> (\<exists>s. e' = Err (''cannot send handshake '' @ s)))
      | Inl (Panic m) \<Rightarrow> True
      | Inl _ \<Rightarrow> False
      | Inr _ \<Rightarrow> cpCurrentState c = StateSessionEstablished)"

lemma reported_failing: "reported (fst (failing (\<lambda>_. skip) st (ConnError e p) c)) (snd (failing (\<lambda>_. skip) st (ConnError e p) c))
    = (st \<in> {StatePermanentError, StateStreamError} \<and> (\<not> p \<longrightarrow> st = StateStreamError \<and> (\<exists>s. e = Err (''cannot send handshake '' @ s))))"
  by (simp add: failing_def component_state_def component_notify_def ignoring_def attempt_def state_event_def reported_def)

lemma reported_reply: "reported (fst (handshake_reply (\<lambda>_. skip) r c)) (snd (handshake_reply (\<lambda>_. skip) r c))"
proof (cases r)
  case (Inr v)
  then show ?thesis
    by (cases v)
      (simp_all add: handshake_reply_def NewConnError_def reported_failing,
       simp_all add: component_state_def component_streamError_def component_notify_def ignoring_def attempt_def
         state_event_def reported_def)
qed (simp add: handshake_reply_def NewConnError_def reported_failing)

lemma reported_panic [simp]: "reported (Inl (Panic p)) c"
  by (simp add: reported_def)

lemma reported_attempt:
  assumes "\<And>r c. reported (fst (k r c)) (snd (k r c))"
  shows "reported (fst (andThen (attempt m) k c)) (snd (andThen (attempt m) k c))"
  using assms by (cases "m c") (auto simp: andThen_def attempt_def split: sum.split error.split)

lemma Component_Resume_reported:
  "reported (fst (Component_Resume cr cdc (\<lambda>_. skip) c)) (snd (Component_Resume cr cdc (\<lambda>_. skip) c))"
  unfolding Component_Resume_def
  by (auto simp: NewConnError_def reported_failing reported_reply split: sum.split intro!: reported_attempt)

text \<open>
  When connecting a component fails, without a panic, the error tells a stream manager not to
  retry, unless it was the handshake that could not be written; and the component's state is
  that of a permanent or of a stream error.
\<close>

theorem Component_Resume_failed:
  assumes "Component_Resume cr cdc (\<lambda>_. skip) c = (Inl e, c')" "\<nexists>m. e = Panic m"
  shows "\<exists>e' p. e = ConnError e' p \<and> cpCurrentState c' \<in> {StatePermanentError, StateStreamError}
    \<and> (\<not> p \<longrightarrow> cpCurrentState c' = StateStreamError \<and> (\<exists>s. e' = Err (''cannot send handshake '' @ s)))"
  using assms Component_Resume_reported [of cr cdc c] by (cases e) (auto simp: reported_def)

subsection \<open>The handshake\<close>

text \<open>
  The handshake for a digest of 20 bytes has 40 characters, all of them lower-case
  hexadecimal digits, and different digests give different handshakes.
\<close>

theorem handshake_digits:
  assumes "length (crHash cr SHA1 (i @ secret)) = 20"
  shows "length (handshake cr secret i) = 40 \<and> set (handshake cr secret i) \<subseteq> set ''0123456789abcdef''
    \<and> (handshake cr secret i = handshake cr secret' i' \<longrightarrow> crHash cr SHA1 (i @ secret) = crHash cr SHA1 (i' @ secret'))"
proof -
  have hex: "hex_char d \<in> set ''0123456789abcdef''" if "d < 16" for d
  proof -
    have "\<forall>d \<in> set [0..<16]. hex_char d \<in> set ''0123456789abcdef''" by code_simp
    then show ?thesis using that by simp
  qed
  have "set (hex_encode bs) \<subseteq> set ''0123456789abcdef''" for bs
  proof (induction bs)
    case (Cons b bs)
    have "of_char b div 16 < (16 :: nat)" using nat_of_char_less_256 [of b] by linarith
    then show ?case using Cons hex [of "of_char b div 16"] hex [of "of_char b mod 16"]
      by (simp add: hex_encode_def Let_def)
  qed (simp add: hex_encode_def)
  then show ?thesis
    using assms by (auto simp: handshake_def length_hex_encode dest: hex_encode_inj)
qed

subsection \<open>Receiving ends\<close>

abbreviation component_input :: "'h component \<Rightarrow> nat" where
  "component_input c \<equiv> (case cpTransport c of None \<Rightarrow> 0 | Some t \<Rightarrow> length (decInput (tr_GetDecoder t)))"

text \<open>A property of the component's transport, when there is one.\<close>

abbreviation via :: "(transport \<Rightarrow> bool) \<Rightarrow> 'h component \<Rightarrow> bool" where
  "via P c \<equiv> (case cpTransport c of None \<Rightarrow> True | Some t \<Rightarrow> P t)"

lemma keeps_on_component: "keeps P m \<Longrightarrow> keeps (via P) (on_component m)"
  by (auto simp: keeps_def on_component_def split: option.splits prod.split)

lemma keeps_component_notify:
  assumes "\<And>e. keeps (via P) (evh e)"
  shows "keeps (via P) (component_notify evh e)" "keeps (via P) (component_state evh st)" "keeps (via P) (component_streamError evh er txt)"
  unfolding component_state_def component_streamError_def component_notify_def
  by (intro keeps_andThen keeps_modify keeps_ignoring assms; simp)+

lemma keeps_component_packet:
  assumes "\<And>p. keeps P (tr_Write p)" "keeps P tr_Close" "\<And>t. P t \<Longrightarrow> P (tr_ReceivedStreamClose t)"
    and "\<And>e. keeps (via P) (evh e)"
  shows "keeps (via P) (component_packet marshal evh val)"
proof -
  have send: "keeps (via P) (Component_Send marshal p)" for p
    unfolding Component_Send_def component_write_def
    by (intro keeps_intros keeps_attempt keeps_on_component assms(1))
  have eff: "keeps (via P) (component_effect marshal e)" for e
    unfolding component_effect_def
    by (cases e) (auto intro!: keeps_ignoring send keeps_giving keeps_modify)
  have effs: "keeps (via P) (component_effects marshal es)" for es
    by (induction es) (auto simp only: component_effects.simps intro!: keeps_skip keeps_andThen eff)
  have route: "keeps (via P) (Component_route marshal p)" for p
    unfolding Component_route_def split_beta by (intro keeps_intros keeps_modify effs) simp
  have err: "keeps (via P) (component_error e)" for e
    unfolding component_error_def by (rule keeps_modify) simp
  have disc: "keeps (via P) Component_Disconnect"
    unfolding Component_Disconnect_def by (intro keeps_intros keeps_on_component assms(2))
  have close: "keeps (via P) (on_component (\<lambda>t. (Inr (), tr_ReceivedStreamClose t)) :: ('a component, unit) action)"
    by (rule keeps_on_component) (simp add: keeps_def assms(3))
  show ?thesis
    unfolding component_packet_def
    by (cases val; simp only: packet.case)
      (intro keeps_intros keeps_ignoring keeps_component_notify assms(4) route err disc close)+
qed

lemma component_step_less:
  assumes "\<And>e c. map_option tr_GetDecoder (cpTransport (snd (evh e c))) = map_option tr_GetDecoder (cpTransport c)"
    and "component_step cdc marshal evh c = (Inr True, c')"
  shows "component_input c' < component_input c"
proof (cases "cpTransport c")
  case None
  with assms(2) show ?thesis
    by (simp add: component_step_def andThen_def attempt_def on_component_def nil_pointer_def)
next
  case (Some t)
  show ?thesis
  proof (cases "NextPacket cdc (tr_GetDecoder t)")
    case (Inl e)
    with assms(2) Some show ?thesis
      by (auto simp: component_step_def andThen_def attempt_def on_component_def tr_read_def component_error_def
          split: error.splits option.splits sum.splits prod.splits)
  next
    case (Inr vd)
    then obtain v d where v: "NextPacket cdc (tr_GetDecoder t) = Inr (v, d)" by (cases vd) auto
    let ?c = "c\<lparr>cpTransport := Some (tr_set_decoder d t)\<rparr>"
    have "component_packet marshal evh v ?c = (Inr True, c')"
      using assms(2) v Some by (simp add: component_step_def andThen_def attempt_def on_component_def tr_read_def)
    moreover have "keeps (via (\<lambda>t. tr_GetDecoder t = d)) (component_packet marshal evh v)"
    proof (rule keeps_component_packet)
      show "keeps (via (\<lambda>t. tr_GetDecoder t = d)) (evh e)" for e
        unfolding keeps_def
      proof (intro allI impI)
        fix c :: "'a component" assume "via (\<lambda>t. tr_GetDecoder t = d) c"
        then show "via (\<lambda>t. tr_GetDecoder t = d) (snd (evh e c))"
          using assms(1) [of e c] by (auto split: option.splits)
      qed
    qed (simp_all add: same_decoder)
    ultimately have "via (\<lambda>t. tr_GetDecoder t = d) c'"
      using keepsD [of "via (\<lambda>t. tr_GetDecoder t = d)" _ ?c] by fastforce
    then show ?thesis using NextPacket_less [OF v] Some by (auto split: option.splits)
  qed
qed

interpretation component_loop: consuming_loop "component_step cdc marshal (\<lambda>_. skip)" component_input for cdc marshal
  by unfold_locales (rule component_step_less; simp)

text \<open>
  The receiving loop of a component ends, and with more fuel it has the same outcome, when no
  event handler reconnects.
\<close>

theorem component_recv_ends:
  assumes "component_input c < k"
  shows "\<exists>r. \<forall>n. component_recv (k + n) cdc marshal (\<lambda>_. skip) c = Some r"
  unfolding component_recv_def
  using component_loop.loop_ends [OF assms] component_loop.loop_fuel by blast

subsection \<open>Sending a request\<close>

lemma Component_Send_router: "cpRouter (snd (Component_Send marshal p c)) = cpRouter c"
proof -
  have "keeps (\<lambda>c'. cpRouter c' = cpRouter c) (Component_Send marshal p)"
    unfolding Component_Send_def component_write_def
    by (intro keeps_intros keeps_attempt) (auto simp: keeps_def on_component_def split: option.split prod.split)
  then show ?thesis by (simp add: keeps_def)
qed

lemma Client_Send_router: "clRouter (snd (Client_Send marshal p c)) = clRouter c"
proof -
  have "keeps (\<lambda>c'. clRouter c' = clRouter c) (Client_Send marshal p)"
    unfolding Client_Send_def sendWithWriter_def push_unacked_def
    by (intro keeps_intros) (auto simp: keeps_def on_client_def split: prod.split)
  then show ?thesis by (simp add: keeps_def)
qed

text \<open>
  A component sends a request before it registers the result route: an answer that is
  dispatched in between goes to the ordinary routes, nothing is delivered, and the channel that
  \<^verbatim>\<open>SendIQ\<close> then returns stays registered although its answer has come already.
\<close>

theorem Component_SendIQ_race:
  assumes "aType (iqAttrs i) = ''get'' \<or> aType (iqAttrs i) = ''set''" "aId (iqAttrs answer) = aId (iqAttrs i)"
    and "rIQResultRoutes (cpRouter c) (aId (iqAttrs i)) = None"
    and "Component_Send marshal (PktIQ i) c = (Inr (), c1)"
  shows "(\<forall>ch. EDeliver ch answer \<notin> set (fst (Router_route SComponent (PktIQ answer) (cpRouter c1))))
    \<and> (\<exists>ch c2. Component_SendIQ marshal i c = (Inr ch, c2) \<and> rIQResultRoutes (cpRouter c2) (aId (iqAttrs i)) = Some ch)"
proof -
  have r: "cpRouter c1 = cpRouter c" using Component_Send_router [of marshal "PktIQ i" c] assms(4) by simp
  have "EDeliver ch answer \<notin> set (route_packet (PktIQ answer) (cpRouter c))" for ch
    by (auto simp: route_packet_def split: option.splits if_splits)
  then show ?thesis
    using assms by (auto simp: Router_route_def r Component_SendIQ_def NewIQResultRoute_def)
qed

text \<open>
  A client refuses anything but a request. It registers the result route before it sends, so
  that the answer finds its channel however early it comes; when sending fails the route is gone
  and the error is returned, and every other route is left alone.
\<close>

theorem Client_SendIQ_spec:
  assumes "Client_SendIQ marshal i c = (r, c')" "\<nexists>p. r = Inl (Panic p)" "aId (iqAttrs answer) = aId (iqAttrs i)"
  shows "if aType (iqAttrs i) \<noteq> ''get'' \<and> aType (iqAttrs i) \<noteq> ''set'' then r = Inl ErrCanOnlySendGetOrSetIq \<and> c' = c
    else (\<exists>ch reg. reg = snd (NewIQResultRoute (aId (iqAttrs i)) (clRouter c))
       \<and> fst (Router_route SClient (PktIQ answer) reg) = [EDeliver ch answer]
       \<and> (case r of
            Inr ch' \<Rightarrow> ch' = ch \<and> clRouter c' = reg
          | Inl e \<Rightarrow> fst (Client_Send marshal (PktIQ i) (c\<lparr>clRouter := reg\<rparr>)) = Inl e
              \<and> rIQResultRoutes (clRouter c') = (rIQResultRoutes (clRouter c))(aId (iqAttrs i) := None)))"
proof -
  let ?reg = "snd (NewIQResultRoute (aId (iqAttrs i)) (clRouter c))"
  obtain w c1 where w: "Client_Send marshal (PktIQ i) (c\<lparr>clRouter := ?reg\<rparr>) = (w, c1)"
    by (cases "Client_Send marshal (PktIQ i) (c\<lparr>clRouter := ?reg\<rparr>)")
  have c1: "clRouter c1 = ?reg" using Client_Send_router [of marshal "PktIQ i" "c\<lparr>clRouter := ?reg\<rparr>"] w by simp
  show ?thesis
    using assms w c1
    by (cases w)
      (auto simp: Client_SendIQ_def NewIQResultRoute_def Router_route_def RemoveIQResultRoute_def split: error.splits)
qed

subsection \<open>Witnesses\<close>

definition sample_component :: "server list \<Rightarrow> nat component" where
  "sample_component svs = \<lparr>cpOptions = \<lparr>coTransport = sample_config\<lparr>tcDomain := []\<rparr>, coDomain = ''c.localhost'', coSecret = ''secret'',
     coName = [], coCategory = [], coType = []\<rparr>, cpRouter = NewRouter, cpTransport = None, cpServers = svs,
     cpCurrentState = StateDisconnected, cpEvents = [], cpErrors = [], cpHandled = []\<rparr>"

definition sample_accepting :: server where
  "sample_accepting = (sample_server [] [])\<lparr>svPlain := new_decoder (header ''s1''
     @ xml_tokens (Elem (XName NSComponent ''handshake'') [] []) @ [])\<rparr>"

lemma sample_component_transport:
  "\<exists>t. NewComponentTransport svs (coTransport (set_domain (cpOptions (sample_component svs)))) = Inr (TCP t)"
  by (simp add: sample_component_def set_domain_def NewComponentTransport_def sample_config_def HasPrefix_def)

theorem Component_Resume_established_witness:
  "\<exists>c' t'. Component_Resume sample_crypto package_codec (\<lambda>_. skip) (sample_component [sample_accepting]) = (Inr (), c')
    \<and> cpTransport c' = Some (TCP t') \<and> length (xtOut t') = 2"
proof -
  have sv: "svDial sample_accepting = None" "\<forall>k. svWrite sample_accepting k = WOk"
    "svPlain sample_accepting = new_decoder (header ''s1'' @ xml_tokens (Elem (XName NSComponent ''handshake'') [] []) @ [])"
    "cpServers (sample_component [sample_accepting]) = [sample_accepting]"
    by (simp_all add: sample_accepting_def sample_server_def sample_component_def)
  obtain t where "NewComponentTransport (cpServers (sample_component [sample_accepting]))
      (coTransport (set_domain (cpOptions (sample_component [sample_accepting])))) = Inr (TCP t)"
    using sample_component_transport [of "[sample_accepting]"] sv(4) by auto
  from Component_Resume_established [OF sv(4,1,2) this sv(3), of sample_crypto package_codec] show ?thesis by fastforce
qed

theorem Component_Resume_failed_witness:
  "\<exists>e c'. Component_Resume sample_crypto package_codec (\<lambda>_. skip) (sample_component []) = (Inl e, c')
    \<and> cpCurrentState c' \<in> {StatePermanentError, StateStreamError}"
proof -
  let ?r = "Component_Resume sample_crypto package_codec (\<lambda>_. skip) (sample_component [])"
  have "fst ?r = Inl (NewConnError (NewConnError (LibErr ''dial tcp: connection refused'') True) True)"
    by (simp add: Component_Resume_def sample_component_def set_domain_def NewComponentTransport_def sample_config_def HasPrefix_def
        andThen_def attempt_def on_component_def xt_Connect_def new_xmpp_transport_def NewConnError_def failing_def
        component_state_def component_notify_def ignoring_def)
  then obtain c' where "?r = (Inl (NewConnError (NewConnError (LibErr ''dial tcp: connection refused'') True) True), c')"
    by (cases ?r) auto
  from Component_Resume_failed [OF this] this show ?thesis by (auto simp: NewConnError_def)
qed

definition zero_crypto :: crypto where
  "zero_crypto = sample_crypto\<lparr>crHash := (\<lambda>_ _. replicate 20 CHR 0x00)\<rparr>"

theorem handshake_digits_witness: "length (handshake zero_crypto ''s'' ''i'') = 40"
  using handshake_digits [of zero_crypto "''i''" "''s''"] by (simp add: zero_crypto_def)

theorem component_recv_ends_witness:
  "\<exists>r. \<forall>n. component_recv (1 + n) package_codec sample_marshal (\<lambda>_. skip) (sample_component []) = Some r"
  by (rule component_recv_ends) (simp add: sample_component_def)

theorem Component_SendIQ_race_witness:
  "\<exists>ch c2. Component_SendIQ sample_marshal sample_request ((sample_component [])\<lparr>cpTransport := Some (TCP (sample_reader Clear []))\<rparr>) = (Inr ch, c2)"
proof -
  let ?c = "(sample_component [])\<lparr>cpTransport := Some (TCP (sample_reader Clear []))\<rparr>"
  have "Component_Send sample_marshal (PktIQ sample_request) ?c =
      (Inr (), ?c\<lparr>cpTransport := Some (TCP (wrote Clear (ORaw ''<message/>'') (sample_reader Clear [])))\<rparr>)"
    by (simp add: Component_Send_def component_write_def andThen_def attempt_def on_component_def xt_Write_ready [OF sample_reader_ready(1)])
  from Component_SendIQ_race [OF _ refl _ this] show ?thesis
    by (auto simp: sample_request_def sample_component_def NewRouter_def)
qed

theorem Client_SendIQ_spec_witness:
  "\<exists>r c'. Client_SendIQ sample_marshal sample_request ((sample_client [])\<lparr>clSession := None\<rparr>) = (r, c')
    \<and> rIQResultRoutes (clRouter c') ''q1'' = None"
proof -
  let ?c = "(sample_client [])\<lparr>clSession := None\<rparr>"
  have q: "aType (iqAttrs sample_request) = ''get''" "aId (iqAttrs sample_request) = ''q1''" by (simp_all add: sample_request_def)
  obtain c' where r: "Client_SendIQ sample_marshal sample_request ?c = (Inl no_session, c')"
    using q by (auto simp: Client_SendIQ_def Client_Send_def no_session_def NewIQResultRoute_def)
  from Client_SendIQ_spec [OF r _ refl] show ?thesis
    using r q by (auto simp: no_session_def)
qed

end
