(* ===== verification/ClientSecurity.thy ===== *)
theory ClientSecurity
  imports Client
begin

text \<open>
  What connecting a client writes before the connection is secure, over the whole of
  \<^verbatim>\<open>Connect\<close> in \<^verbatim>\<open>client.go\<close>: the transport's opening of the stream, the negotiation of the
  session, the close after a failure, and the initial presence after a success. The last part
  is about \<^verbatim>\<open>NewClient\<close>.
\<close>

subsection \<open>Opening and closing a stream\<close>

definition openings :: "transport \<Rightarrow> outgoing set" where
  "openings t = {starttls_nonza} \<union>
     (case t of
        TCP t \<Rightarrow> {open_text t, ORaw StreamClose}
      | WS t \<Rightarrow> {ORaw (fprintf1 ws_open (tcDomain (wtConfig t))), ORaw ws_close})"

definition never_secured :: "transport \<Rightarrow> bool" where
  "never_secured t = (case t of TCP t \<Rightarrow> \<not> xtIsSecure t | WS t \<Rightarrow> True)"

lemma modest_TCP: "modest W (TCP t) \<longleftrightarrow> xt.honest t \<and> xt.clear_writes t \<subseteq> W"
  by (simp add: modest_def tr.honest_def xt.honest_def tr.clear_writes_def xt.clear_writes_def)

lemma modest_WS: "modest W (WS t) \<longleftrightarrow> ws.clear_writes t \<subseteq> W"
  by (simp add: modest_def tr.honest_def tr.clear_writes_def ws.clear_writes_def ws_channel_def)

lemma modest_xt_Write: "modest W (TCP t) \<Longrightarrow> p \<in> W \<Longrightarrow> modest W (TCP (snd (xt_Write p t)))"
  using modest_write [of p W] by (auto simp: keeps_def dest: spec [of _ "TCP t"])

lemma modest_xt_updates [simp]:
  "modest W (TCP (t\<lparr>xtCloseChan := k\<rparr>)) = modest W (TCP t)" "modest W (TCP (t\<lparr>xtClosed := b\<rparr>)) = modest W (TCP t)"
  "modest W (TCP (t\<lparr>xtDecoder := d\<rparr>)) = modest W (TCP t)"
  by (simp_all add: modest_TCP xt.honest_def xt.clear_writes_def)

lemma modest_xt_Close: "modest W (TCP t) \<Longrightarrow> ORaw StreamClose \<in> W \<Longrightarrow> modest W (TCP (snd (xt_Close t)))"
  by (simp add: xt_Close_def Let_def modest_xt_Write)

lemma modest_xt_StartStream:
  "modest W (TCP t) \<Longrightarrow> open_text t \<in> W \<Longrightarrow> ORaw StreamClose \<in> W \<Longrightarrow> modest W (TCP (snd (xt_StartStream t)))"
  using modest_xt_Write [of W t "open_text t"]
  by (auto simp: xt_StartStream_def open_text_def [symmetric] modest_xt_Close split: prod.split sum.split)

lemma modest_ws_Write: "modest W (WS t) \<Longrightarrow> p \<in> W \<Longrightarrow> modest W (WS (snd (ws_Write p t)))"
  using modest_write [of p W] by (auto simp: keeps_def dest: spec [of _ "WS t"])

lemma modest_ws_updates [simp]:
  "modest W (WS (t\<lparr>wtDecoder := d\<rparr>)) = modest W (WS t)" "modest W (WS (t\<lparr>wtQueue := q\<rparr>)) = modest W (WS t)"
  "modest W (WS (t\<lparr>wtConn := b\<rparr>)) = modest W (WS t)" "modest W (WS (t\<lparr>wtConnClosed := b\<rparr>)) = modest W (WS t)"
  "modest W (WS (t\<lparr>wtCtx := x\<rparr>)) = modest W (WS t)" "modest W (WS (t\<lparr>wtServers := svs\<rparr>)) = modest W (WS t)"
  "modest W (WS (t\<lparr>wtServer := sv\<rparr>)) = modest W (WS t)" "modest W (WS (t\<lparr>wtWrites := n\<rparr>)) = modest W (WS t)"
  by (simp_all add: modest_WS ws.clear_writes_def)

lemma modest_ws_cleanup: "modest W (WS t) \<Longrightarrow> modest W (WS (snd (ws_cleanup b t)))"
  by (simp add: ws_cleanup_def Let_def)

lemma modest_ws_Close: "modest W (WS t) \<Longrightarrow> ORaw ws_close \<in> W \<Longrightarrow> modest W (WS (snd (ws_Close t)))"
  using modest_ws_Write [of W t "ORaw ws_close"]
  by (auto simp: ws_Close_def modest_ws_cleanup split: prod.split sum.split error.split)

lemma modest_ws_StartStream:
  "modest W (WS t) \<Longrightarrow> ORaw (fprintf1 ws_open (tcDomain (wtConfig t))) \<in> W \<Longrightarrow> ORaw ws_close \<in> W \<Longrightarrow>
     modest W (WS (snd (ws_StartStream t)))"
  using modest_ws_Write [of W t "ORaw (fprintf1 ws_open (tcDomain (wtConfig t)))"]
  by (auto simp: ws_StartStream_def modest_ws_Close modest_ws_cleanup snd_unless_panic split: prod.split sum.split error.split)

lemma modest_Connect:
  assumes "openings t \<subseteq> W" "never_secured t" "tr.clear_writes t \<subseteq> W"
  shows "modest W (snd (tr_Connect t))"
proof (cases t)
  case (TCP x)
  have m: "modest W (TCP (x\<lparr>xtConn := a, xtClosed := b, xtCloseChan := c, xtChannel := ch, xtDecoder := d, xtServer := sv,
      xtServers := svs, xtWrites := n\<rparr>))" for a b c ch d sv svs n
    using assms(2,3) by (simp add: TCP modest_TCP xt.honest_def xt.clear_writes_def tr.clear_writes_def never_secured_def)
  have m': "modest W (TCP (x\<lparr>xtConn := False\<rparr>))" "modest W (TCP (x\<lparr>xtConn := False, xtServers := svs\<rparr>))" for svs
    using assms(2,3) by (simp_all add: TCP modest_TCP xt.honest_def xt.clear_writes_def tr.clear_writes_def never_secured_def)
  have "modest W (TCP (snd (xt_Connect x)))"
    using assms(1) m m' by (auto simp: TCP openings_def xt_Connect_def open_text_def split: list.split option.split
        intro!: modest_xt_StartStream)
  then show ?thesis by (simp add: TCP)
next
  case (WS x)
  have "modest W (WS x)" using assms(3) by (simp add: WS modest_WS ws.clear_writes_def tr.clear_writes_def)
  then have "modest W (WS (snd (ws_Connect x)))"
    using assms(1) by (auto simp: WS openings_def ws_Connect_def Let_def snd_unless_panic split: list.split option.split
        intro!: modest_ws_StartStream modest_ws_cleanup)
  then show ?thesis by (simp add: WS)
qed

definition closings :: "outgoing set" where
  "closings = {ORaw StreamClose, ORaw ws_close}"

lemma modest_Close: "closings \<subseteq> W \<Longrightarrow> keeps (modest W) tr_Close"
  unfolding keeps_def
proof (intro allI impI)
  fix t assume "closings \<subseteq> W" "modest W t"
  then show "modest W (snd (tr_Close t))" by (cases t) (auto simp: closings_def modest_xt_Close modest_ws_Close)
qed

lemma modest_ReceivedStreamClose: "modest W t \<Longrightarrow> modest W (tr_ReceivedStreamClose t)"
  by (cases t) (simp_all add: xt_ReceivedStreamClose_def split: option.split)

subsection \<open>A negotiated session is secure\<close>

lemma negotiate_sealed:
  assumes "starttls_nonza \<in> W" "modest_conn W c" "\<not> cfInsecure (cnConfig c)" "negotiate cr cdc c = (Inr (s, None), c')"
  shows "sealed_conn W c'"
proof -
  obtain r1 c1 where i: "Session_init c = (r1, c1)" by (cases "Session_init c")
  have c1: "modest_conn W c1" "\<not> cfInsecure (cnConfig c1)"
    using keepsD [OF modest_init assms(2)] keepsD [OF keeps_insecure_steps(1), of c False] assms(3) i by simp_all
  define m where "m = inspect (\<lambda>c. if \<not> tr_IsSecure (cnTransport c) then Session_startTlsIfSupported else skip)"
  obtain r2 c2 where m: "m c1 = (r2, c2)" by (cases "m c1")
  have c2: "modest_conn W c2" "\<not> cfInsecure (cnConfig c2)"
    using keepsD [OF modest_startTls [OF assms(1)] c1(1)] keepsD [OF keeps_insecure_steps(2), of c1 False] c1 m
    by (auto simp: m_def split: if_splits)
  have "tr_IsSecure (cnTransport c2) \<and> snd (secured_session cr cdc c2) = c'"
    using assms(4) i m c2(2) unfolding negotiate_def m_def [symmetric]
    by (cases r1; cases r2) (auto simp: andThen_def split: option.splits if_splits)
  then show ?thesis
    using keepsD [OF sealed_secured_session] modest_sealed [OF c2(1)] by blast
qed

subsection \<open>Connecting\<close>

lemma modest_await_close:
  assumes "\<And>e c. clTransport (snd (evh e c)) = clTransport c" "modest W (clTransport c)"
  shows "modest W (clTransport (snd (await_close cdc evh c)))"
  using assms
proof (induction cdc evh c rule: await_close.induct)
  case (1 cdc evh c)
  let ?d = "tr_GetDecoder (clTransport c)"
  have ev: "modest W (clTransport (snd (disconnected evh zero_sm_state c')))" if "modest W (clTransport c')" for c'
  proof -
    have "keeps (\<lambda>c. modest W (clTransport c)) (evh e)" for e by (simp add: keeps_def "1.prems"(1))
    then show ?thesis by (rule keepsD [OF keeps_notify(3)]) (rule that)
  qed
  show ?case
  proof (cases "NextPacket cdc ?d")
    case (Inl e)
    then show ?thesis
      using "1.prems"(2) ev [of "snd (ErrorHandler e c)"]
      by (subst await_close.simps) (cases e; simp add: andThen_def ErrorHandler_def)
  next
    case (Inr vd)
    then obtain v d where v: "NextPacket cdc ?d = Inr (v, d)" by (cases vd) auto
    show ?thesis
    proof (cases "v = PktStreamClose")
      case True
      then show ?thesis
        using v "1.prems"(2) by (subst await_close.simps) (simp add: modest_set_decoder modest_ReceivedStreamClose)
    next
      case False
      have "modest W (clTransport (snd (await_close cdc evh (c\<lparr>clTransport := tr_set_decoder d (clTransport c)\<rparr>))))"
        using "1.IH" [OF v refl _ False] "1.prems" by (simp add: modest_set_decoder)
      then show ?thesis using v False by (subst await_close.simps) simp
    qed
  qed
qed

definition sent_in_clear :: "'h client \<Rightarrow> outgoing set" where
  "sent_in_clear c = tr.clear_writes (clTransport c)"

lemma negotiated_modest:
  assumes "starttls_nonza \<in> W" "modest W (clTransport c)" "\<not> cfInsecure (clConfig c)"
  shows "modest W (clTransport (snd (negotiated cr cdc c)))"
    and "negotiated cr cdc c = (Inr None, c') \<Longrightarrow> tr.sealed W (clTransport c')"
proof -
  let ?c = "\<lparr>cnSession = session_or_new (clSession c) zero_sm_state, cnTransport = clTransport c, cnConfig = clConfig c\<rparr>"
  have "modest_conn W (snd (negotiate cr cdc ?c))" by (rule negotiate_modest) (use assms in simp_all)
  then show "modest W (clTransport (snd (negotiated cr cdc c)))"
    by (auto simp: negotiated_def NewSession_def Let_def split: prod.split sum.split)
  show "tr.sealed W (clTransport c')" if "negotiated cr cdc c = (Inr None, c')"
    using that negotiate_sealed [OF assms(1), of ?c cr cdc] assms(2,3)
    by (auto simp: negotiated_def NewSession_def Let_def split: prod.splits sum.splits)
qed

lemma connect_modest:
  assumes "\<And>e c. clTransport (snd (evh e c)) = clTransport c" "never_secured (clTransport c)" "\<not> cfInsecure (clConfig c)"
    and "openings (clTransport c) \<union> closings \<union> sent_in_clear c \<subseteq> W"
  shows "modest W (clTransport (snd (connect cr cdc evh c)))"
    and "connect cr cdc evh c = (Inr (), c') \<Longrightarrow> tr.sealed W (clTransport c')"
proof -
  obtain r1 c1 where 1: "on_client tr_Connect c = (r1, c1)" by (cases "on_client tr_Connect c")
  have c1: "modest W (clTransport c1)" "clConfig c1 = clConfig c"
    using modest_Connect [of "clTransport c" W] assms(2,4) 1
    by (auto simp: on_client_def sent_in_clear_def split: prod.splits)
  have tls: "starttls_nonza \<in> W" using assms(4) by (auto simp: openings_def)
  obtain r2 c2 where 2: "negotiated cr cdc c1 = (r2, c2)" by (cases "negotiated cr cdc c1")
  have c2: "modest W (clTransport c2)" "r2 = Inr None \<Longrightarrow> tr.sealed W (clTransport c2)"
    using negotiated_modest [OF tls c1(1), of cr cdc] assms(3) c1(2) 2 by auto
  have ev: "keeps (\<lambda>c. P (clTransport c)) (updateState evh st)" for P st
    by (rule keeps_notify(2)) (simp add: keeps_def assms(1))
  have fail: "modest W (clTransport (snd (andThen (ignoring Client_Disconnect) (\<lambda>_. andThen (await_close cdc evh) (\<lambda>_. giving (Inl e :: error + unit))) c2)))"
    for e
  proof -
    have "keeps (\<lambda>c. modest W (clTransport c)) (ignoring Client_Disconnect)"
      unfolding Client_Disconnect_def
      by (intro keeps_ignoring keeps_on_client modest_Close) (use assms(4) in auto)
    moreover have "keeps (\<lambda>c. modest W (clTransport c)) (await_close cdc evh)"
      unfolding keeps_def by (blast intro: modest_await_close assms(1))
    ultimately have "keeps (\<lambda>c. modest W (clTransport c))
        (andThen (ignoring Client_Disconnect) (\<lambda>_. andThen (await_close cdc evh) (\<lambda>_. giving (Inl e :: error + unit))))"
      by (intro keeps_intros)
    then show ?thesis using c2(1) by (simp add: keeps_def)
  qed
  have ok: "keeps (\<lambda>c. P (clTransport c)) (inspect (\<lambda>c. case clSession c of
       None \<Rightarrow> giving (Inl nil_pointer)
     | Some s \<Rightarrow> andThen (modify (\<lambda>c. c\<lparr>clSession := Some (s\<lparr>sessStreamId := i\<rparr>)\<rparr>)) (\<lambda>_. updateState evh StateSessionEstablished)))"
    for P i
    by (intro keeps_intros keeps_modify ev) simp
  show "modest W (clTransport (snd (connect cr cdc evh c)))"
    using 1 2 c1 c2 fail keepsD [OF ok [of "modest W"], of c2]
    unfolding connect_def by (cases r1; cases r2; cases "projr r2") (auto simp: andThen_def)
  show "tr.sealed W (clTransport c')" if "connect cr cdc evh c = (Inr (), c')"
    using 1 2 c1 c2 that keepsD [OF ok [of "tr.sealed W"], of c2]
    unfolding connect_def by (cases r1; cases r2; cases "projr r2") (auto simp: andThen_def split: prod.splits sum.splits, metis snd_conv)
qed

text \<open>
  C1. Connecting a client whose transport was never secured before, without \<^verbatim>\<open>Insecure\<close>, and with an event
  handler that leaves the transport alone (not that of a stream manager, which reconnects on the event
  that a failure raises): nothing goes over an unencrypted connection but the opening of the stream,
  the request to start TLS and the close of the stream. No credentials, no presence and no stanza do,
  whatever the server sends, whatever fails, and at whatever point.
\<close>

theorem Client_Connect_no_cleartext:
  assumes "\<And>e c. clTransport (snd (evh e c)) = clTransport c" "never_secured (clTransport c)" "\<not> cfInsecure (clConfig c)"
  shows "sent_in_clear (snd (Client_Connect cr cdc evh c))
    \<subseteq> openings (clTransport c) \<union> closings \<union> sent_in_clear c"
proof -
  let ?W = "openings (clTransport c) \<union> closings \<union> sent_in_clear c"
  obtain r1 c1 where 1: "connect cr cdc evh c = (r1, c1)" by (cases "connect cr cdc evh c")
  have c1: "modest ?W (clTransport c1)" "r1 = Inr () \<Longrightarrow> tr.sealed ?W (clTransport c1)"
    using connect_modest [where evh = evh and c = c and cr = cr and cdc = cdc, OF assms order_refl] 1 by auto
  have "keeps (\<lambda>c. tr.sealed ?W (clTransport c)) postSessionSetup"
    unfolding postSessionSetup_def
    by (intro keeps_intros keeps_rest keeps_sends sealed_operations)
  then have "modest ?W (clTransport (snd (Client_Connect cr cdc evh c)))"
    using c1 1 by (cases r1) (auto simp: Client_Connect_def andThen_def keeps_def intro!: sealed_modest)
  then show ?thesis by (simp add: modest_def sent_in_clear_def)
qed

definition sample_fresh :: "nat client" where
  "sample_fresh = (sample_client [])\<lparr>clSession := None, clTransport := TCP sample_transport\<rparr>"

theorem Client_Connect_no_cleartext_witness:
  "sent_in_clear (snd (Client_Connect sample_crypto package_codec (\<lambda>_. skip) sample_fresh))
    \<subseteq> openings (TCP sample_transport) \<union> closings"
proof -
  have t: "clTransport sample_fresh = TCP sample_transport" "\<not> cfInsecure (clConfig sample_fresh)"
    by (simp_all add: sample_fresh_def sample_client_def sample_client_config_def)
  have "sent_in_clear sample_fresh = {}" "never_secured (clTransport sample_fresh)"
    by (simp_all add: t sent_in_clear_def tr.clear_writes_def sample_transport_def new_xmpp_transport_def never_secured_def)
  then show ?thesis
    using Client_Connect_no_cleartext [of "\<lambda>_. skip" sample_fresh sample_crypto package_codec] t by simp
qed

subsection \<open>A new client\<close>

text \<open>
  \<^verbatim>\<open>NewClient\<close> fails only for an address that is not a JID and for an empty secret, with an
  error that tells a stream manager not to retry. The new client is disconnected, its transport
  was never secured and has written nothing, it talks to the domain of its address unless the
  configuration names another one, and no timeout is 0.
\<close>

theorem NewClient_spec:
  "case NewClient lookup svs cfg r of
     Inl e \<Rightarrow> permanent e \<and> (\<not> is_ok (NewJid (cfJid cfg)) \<or> credSecret (cfCredential cfg) = [])
   | Inr c \<Rightarrow>
       (\<exists>j. NewJid (cfJid cfg) = Inr j \<and> cfParsedJid (clConfig c) = Some j
          \<and> tcDomain (cfTransport (clConfig c)) = (if tcDomain (cfTransport cfg) = [] then jidDomain j else tcDomain (cfTransport cfg)))
       \<and> credSecret (cfCredential (clConfig c)) \<noteq> []
       \<and> clSession c = None \<and> clCurrentState c = StateDisconnected
       \<and> never_secured (clTransport c) \<and> sent_in_clear c = {}
       \<and> cfKeepaliveInterval (clConfig c) \<noteq> 0 \<and> cfConnectTimeout (clConfig c) \<noteq> 0
       \<and> tcConnectTimeout (cfTransport (clConfig c)) = cfConnectTimeout (clConfig c)
       \<and> cfInsecure (clConfig c) = cfInsecure cfg"
  by (auto simp: NewClient_def Let_def NewConnError_def never_secured_def sent_in_clear_def tr.clear_writes_def
      NewClientTransport_def new_xmpp_transport_def new_websocket_transport_def split: sum.split)

end
