(* ===== verification/Backoff.thy ===== *)
theory Backoff
  imports Prelude
begin

text \<open>
  \<^verbatim>\<open>backoff.go\<close>: the delays between reconnection attempts.

  The fields are Go's 64-bit integers. The delay is computed with \<^verbatim>\<open>float64\<close>, whose values are whole
  numbers here: \<open>float_of\<close> rounds a whole number to 53 significant bits, ties to even, and \<open>float_pow\<close> is
  the repeated squaring of \<^verbatim>\<open>math.Pow\<close>, which rounds every product. Numbers beyond the largest
  \<^verbatim>\<open>float64\<close> stay numbers instead of being infinite; both are above every cap and outside the
  integers. The conversion back is that of amd64, where a number that does not fit gives the least
  integer, and the product with \<^verbatim>\<open>time.Millisecond\<close> wraps. \<open>rnd\<close> is \<^verbatim>\<open>rand.Intn\<close>, which panics for an
  argument that is not positive. A duration is in nanoseconds.
\<close>

subsection \<open>Whole numbers as float64, and back\<close>

text \<open>The weight of the last of 53 significant bits.\<close>

fun ulp :: "nat \<Rightarrow> nat" where
  "ulp x = (if x < 2 ^ 53 then 1 else 2 * ulp (x div 2))"

declare ulp.simps [simp del]

definition round53 :: "nat \<Rightarrow> nat" where
  "round53 x =
     (let u = ulp x; q = x div u; r = x mod u in
      if u < 2 * r \<or> (2 * r = u \<and> odd q) then (q + 1) * u else q * u)"

definition float_of :: "int \<Rightarrow> int" where
  "float_of x = sgn x * int (round53 (nat \<bar>x\<bar>))"

function float_pow_loop :: "int \<Rightarrow> int \<Rightarrow> nat \<Rightarrow> int" where
  "float_pow_loop a x i =
     (if i = 0 then a
      else float_pow_loop (if odd i then float_of (a * x) else a) (float_of (x * x)) (i div 2))"
  by auto
termination by (relation "measure (\<lambda>(_, _, i). i)") auto

declare float_pow_loop.simps [simp del]

definition float_pow :: "int \<Rightarrow> nat \<Rightarrow> int" where
  "float_pow x i = float_pow_loop 1 x i"

definition int_of_float :: "int \<Rightarrow> int" where
  "int_of_float x = (if - (2 ^ 63) \<le> x \<and> x < 2 ^ 63 then x else - (2 ^ 63))"

definition wrap64 :: "int \<Rightarrow> int" where
  "wrap64 x = signed_take_bit 63 x"

subsection \<open>The delays\<close>

record backoff =
  boNoJitter :: bool
  boBase :: int
  boFactor :: int
  boCap :: int
  boAttempt :: nat

definition zero_backoff :: backoff where
  "zero_backoff = \<lparr>boNoJitter = False, boBase = 0, boFactor = 0, boCap = 0, boAttempt = 0\<rparr>"

definition defaultBase :: int where "defaultBase = 20"
definition defaultFactor :: int where "defaultFactor = 2"
definition defaultCap :: int where "defaultCap = 180000"

definition setDefault :: "backoff \<Rightarrow> backoff" where
  "setDefault b =
     (let b1 = (if boBase b = 0 then b\<lparr>boBase := defaultBase\<rparr> else b);
          b2 = (if boCap b1 = 0 then b1\<lparr>boCap := defaultCap\<rparr> else b1) in
      if boFactor b2 = 0 then b2\<lparr>boFactor := defaultFactor\<rparr> else b2)"

definition Intn :: "(int \<Rightarrow> int) \<Rightarrow> int \<Rightarrow> error + int" where
  "Intn rnd n = (if n \<le> 0 then Inl (Panic ''invalid argument to Intn'') else Inr (rnd n))"

text \<open>The attempt \<open>n\<close> is not used: the code reads the field of the receiver.\<close>

definition durationForAttempt :: "(int \<Rightarrow> int) \<Rightarrow> nat \<Rightarrow> (backoff, int) action" where
  "durationForAttempt rnd n =
     andThen (modify setDefault) (\<lambda>_. inspect (\<lambda>b.
       let exp = min (float_of (boCap b)) (float_of (float_of (boBase b) * float_pow (float_of (boFactor b)) (boAttempt b)));
           d = int_of_float exp in
       giving (bind_result (if \<not> boNoJitter b then Intn rnd d else Inr d) (\<lambda>d. Inr (wrap64 (d * 10 ^ 6))))))"

definition duration :: "(int \<Rightarrow> int) \<Rightarrow> (backoff, int) action" where
  "duration rnd =
     inspect (\<lambda>b. andThen (durationForAttempt rnd (boAttempt b)) (\<lambda>d.
       andThen (modify (\<lambda>b. b\<lparr>boAttempt := boAttempt b + 1\<rparr>)) (\<lambda>_. giving (Inr d))))"

definition backoff_reset :: "backoff \<Rightarrow> backoff" where
  "backoff_reset b = b\<lparr>boAttempt := 0\<rparr>"

subsection \<open>Properties\<close>

text \<open>
  Settings that are not negative and fit their fields, with a cap of at most the milliseconds that a
  duration can hold, 292 years.
\<close>

definition sensible :: "backoff \<Rightarrow> bool" where
  "sensible b \<longleftrightarrow> 0 \<le> boBase b \<and> boBase b < 2 ^ 63 \<and> 0 \<le> boFactor b \<and> boFactor b < 2 ^ 63
     \<and> 0 \<le> boCap b \<and> boCap b \<le> 9223372036854"

text \<open>The upper limit of the delay of attempt \<open>k\<close>, in milliseconds.\<close>

definition limit :: "backoff \<Rightarrow> nat \<Rightarrow> int" where
  "limit b k = (let b = setDefault b in min (boCap b) (boBase b * boFactor b ^ k))"

lemma setDefault_simps [simp]:
  "boAttempt (setDefault b) = boAttempt b" "boNoJitter (setDefault b) = boNoJitter b"
  "setDefault (setDefault b) = setDefault b"
  "limit (setDefault b) = limit b" "sensible b \<Longrightarrow> sensible (setDefault b)"
  by (auto simp: setDefault_def Let_def defaultBase_def defaultCap_def defaultFactor_def limit_def sensible_def)

lemma setDefault_positive: "sensible b \<Longrightarrow> 0 < boBase (setDefault b) \<and> 0 < boFactor (setDefault b) \<and> 0 < boCap (setDefault b)"
  by (auto simp: setDefault_def Let_def defaultBase_def defaultCap_def defaultFactor_def sensible_def)

lemma limit_positive: "sensible b \<Longrightarrow> 0 < limit b k"
  using setDefault_positive [of b] by (simp add: limit_def Let_def)

text \<open>
  Rounding keeps numbers below \<open>2 ^ 53\<close> and leaves the others above it: \<open>same53\<close> relates numbers that
  compare alike with every cap below.
\<close>

definition same53 :: "int \<Rightarrow> int \<Rightarrow> bool" where
  "same53 x y \<longleftrightarrow> 1 \<le> x \<and> 1 \<le> y \<and> min x (2 ^ 53) = min y (2 ^ 53)"

lemma ulp_large: "2 ^ 53 \<le> x \<Longrightarrow> 2 \<le> ulp x \<and> 2 ^ 52 * ulp x \<le> x"
proof (induction x rule: ulp.induct)
  case (1 x)
  have u: "ulp x = 2 * ulp (x div 2)" using 1(2) by (simp add: ulp.simps [of x])
  show ?case
  proof (cases "x div 2 < 2 ^ 53")
    case True
    then have "ulp (x div 2) = 1" by (simp add: ulp.simps [of "x div 2"])
    then show ?thesis using u 1(2) by simp
  next
    case False
    then have "2 ^ 52 * ulp (x div 2) \<le> x div 2" "2 \<le> ulp (x div 2)" using 1 by simp_all
    then show ?thesis unfolding u by linarith
  qed
qed

lemma round53_small: "x < 2 ^ 53 \<Longrightarrow> round53 x = x"
  by (simp add: round53_def Let_def ulp.simps [of x])

lemma round53_large:
  assumes "2 ^ 53 \<le> x"
  shows "2 ^ 53 \<le> round53 x"
proof -
  have u: "2 \<le> ulp x" "2 ^ 52 * ulp x \<le> x" using ulp_large [OF assms] by simp_all
  then have "2 ^ 52 \<le> x div ulp x" by (simp add: less_eq_div_iff_mult_less_eq)
  then have "2 ^ 52 * 2 \<le> (x div ulp x) * ulp x" using u(1) by (rule mult_le_mono)
  then show ?thesis by (simp add: round53_def Let_def)
qed

lemma same53_float: "1 \<le> x \<Longrightarrow> same53 (float_of x) x"
proof (cases "x < 2 ^ 53")
  case True
  assume "1 \<le> x"
  with True have "nat x < 2 ^ 53" by (simp add: nat_less_iff)
  with \<open>1 \<le> x\<close> show ?thesis by (simp add: same53_def float_of_def round53_small)
next
  case False
  assume "1 \<le> x"
  from False have "2 ^ 53 \<le> nat x" by (simp add: le_nat_iff)
  from round53_large [OF this] have "2 ^ 53 \<le> int (round53 (nat x))" by simp
  with False \<open>1 \<le> x\<close> show ?thesis by (simp add: same53_def float_of_def)
qed

lemma same53_mult:
  assumes "same53 x x'" "same53 y y'"
  shows "same53 (x * y) (x' * y')"
proof -
  have p: "1 \<le> x" "1 \<le> y" "1 \<le> x'" "1 \<le> y'" using assms by (auto simp: same53_def)
  have ge: "a \<le> a * b" "b \<le> a * b" if "1 \<le> a" "1 \<le> b" for a b :: int
    using that mult_left_mono [of 1 b a] mult_right_mono [of 1 a b] by simp_all
  show ?thesis
  proof (cases "x < 2 ^ 53 \<and> y < 2 ^ 53")
    case True
    then have "x' = x" "y' = y" using assms by (auto simp: same53_def min_def split: if_splits)
    moreover have "1 \<le> x * y" using p(1) ge(1) [OF p(1,2)] by (rule order_trans)
    ultimately show ?thesis by (simp add: same53_def)
  next
    case False
    moreover have large: "(x < 2 ^ 53) = (x' < 2 ^ 53)" "(y < 2 ^ 53) = (y' < 2 ^ 53)"
      using assms by (auto simp: same53_def min_def split: if_splits)
    ultimately have "2 ^ 53 \<le> x \<or> 2 ^ 53 \<le> y" "2 ^ 53 \<le> x' \<or> 2 ^ 53 \<le> y'" by auto
    then have "2 ^ 53 \<le> x * y" "2 ^ 53 \<le> x' * y'"
      using ge [OF p(1,2)] ge [OF p(3,4)] by (auto dest: order_trans)
    then show ?thesis by (simp add: same53_def)
  qed
qed

lemma same53_trans: "same53 x y \<Longrightarrow> same53 y z \<Longrightarrow> same53 x z"
  by (simp add: same53_def)

lemma same53_float_mult: "same53 x x' \<Longrightarrow> same53 y y' \<Longrightarrow> same53 (float_of (x * y)) (x' * y')"
  using same53_mult [of x x' y y'] by (intro same53_trans [OF same53_float]) (auto simp: same53_def)

lemma same53_pow_loop: "same53 a a' \<Longrightarrow> same53 x x' \<Longrightarrow> same53 (float_pow_loop a x i) (a' * x' ^ i)"
proof (induction a x i arbitrary: a' x' rule: float_pow_loop.induct)
  case (1 a x i)
  show ?case
  proof (cases "i = 0")
    case True
    then show ?thesis using 1 by (simp add: float_pow_loop.simps)
  next
    case False
    let ?a = "if odd i then a' * x' else a'"
    have "same53 (float_pow_loop a x i) (?a * (x' * x') ^ (i div 2))"
      unfolding float_pow_loop.simps [of a x i] if_not_P [OF False]
      by (rule 1(1) [OF False]) (use 1 same53_float_mult in auto)
    moreover have "?a * (x' * x') ^ (i div 2) = a' * x' ^ i"
      by (cases "odd i") (auto elim!: oddE evenE simp: power_mult power2_eq_square power_add)
    ultimately show ?thesis by simp
  qed
qed

text \<open>With a cap below \<open>2 ^ 53\<close> the rounding does not show.\<close>

lemma exp_backoff_exact:
  assumes "sensible b"
  shows "min (float_of (boCap (setDefault b)))
      (float_of (float_of (boBase (setDefault b)) * float_pow (float_of (boFactor (setDefault b))) k)) = limit b k"
proof -
  let ?b = "setDefault b"
  have s: "1 \<le> boBase ?b" "1 \<le> boFactor ?b" "0 < boCap ?b" "boCap ?b < 2 ^ 53"
    using setDefault_positive [OF assms] setDefault_simps(5) [OF assms] by (auto simp: sensible_def)
  have "same53 (float_pow (float_of (boFactor ?b)) k) (1 * boFactor ?b ^ k)"
    unfolding float_pow_def by (intro same53_pow_loop same53_float s) (simp add: same53_def)
  from same53_float_mult [OF same53_float [OF s(1)] this]
  have "same53 (float_of (float_of (boBase ?b) * float_pow (float_of (boFactor ?b)) k)) (boBase ?b * boFactor ?b ^ k)" by simp
  moreover have "float_of (boCap ?b) = boCap ?b"
    using s by (simp add: float_of_def round53_small nat_less_iff)
  ultimately show ?thesis
    using s by (auto simp: limit_def Let_def same53_def min_def split: if_splits)
qed

lemma fits:
  assumes "sensible b"
  shows "int_of_float (limit b k) = limit b k" "0 \<le> d \<Longrightarrow> d \<le> limit b k \<Longrightarrow> wrap64 (d * 10 ^ 6) = d * 10 ^ 6"
proof -
  have l: "limit b k \<le> 9223372036854" "0 < limit b k"
    using setDefault_simps(5) [OF assms] limit_positive [OF assms, of k] by (auto simp: limit_def Let_def sensible_def)
  then show "int_of_float (limit b k) = limit b k" by (simp add: int_of_float_def)
  assume "0 \<le> d" "d \<le> limit b k"
  with l show "wrap64 (d * 10 ^ 6) = d * 10 ^ 6" unfolding wrap64_def by (intro signed_take_bit_int_eq_self) simp_all
qed

lemma duration_run:
  assumes "sensible b"
  shows "duration rnd b =
     (let d = limit b (boAttempt b);
          r = (if boNoJitter b then Inr d else Intn rnd d) in
      case r of
        Inl e \<Rightarrow> (Inl e, setDefault b)
      | Inr d \<Rightarrow> (Inr (wrap64 (d * 10 ^ 6)), (setDefault b)\<lparr>boAttempt := boAttempt b + 1\<rparr>))"
  using exp_backoff_exact [OF assms, of "boAttempt b"]
  by (simp add: duration_def durationForAttempt_def andThen_def Let_def fits(1) [OF assms] split: sum.split)

lemma duration_bounded:
  assumes "sensible b" "\<And>n. 0 < n \<Longrightarrow> 0 \<le> rnd n \<and> rnd n < n"
  shows "\<exists>d b'. duration rnd b = (Inr d, b') \<and> 0 \<le> d \<and> d \<le> limit b (boAttempt b) * 10 ^ 6
    \<and> (boNoJitter b \<longrightarrow> d = limit b (boAttempt b) * 10 ^ 6) \<and> (\<not> boNoJitter b \<longrightarrow> d < limit b (boAttempt b) * 10 ^ 6)
    \<and> boAttempt b' = boAttempt b + 1 \<and> sensible b' \<and> limit b' = limit b"
proof -
  let ?l = "limit b (boAttempt b)"
  have l: "0 < ?l" using limit_positive [OF assms(1)] .
  moreover have "sensible (x\<lparr>boAttempt := k\<rparr>) = sensible x" "limit (x\<lparr>boAttempt := k\<rparr>) = limit x" for x k
    by (simp_all add: sensible_def limit_def setDefault_def Let_def fun_eq_iff)
  ultimately show ?thesis
    using assms(1) assms(2) [OF l] fits(2) [OF assms(1), of ?l "boAttempt b"]
      fits(2) [OF assms(1), of "rnd ?l" "boAttempt b"]
    by (auto simp: duration_run Let_def Intn_def)
qed

text \<open>
  C19. In Go's arithmetic, \<^verbatim>\<open>float64\<close> rounding and 64-bit integers included, with settings that are not
  negative and a cap of at most 9223372036854 milliseconds: a delay is never negative and never
  above the limit of its attempt, which is base times factor to the power of the attempt but at most
  the cap; without jitter it is that limit and with jitter it is below it. The generator of random
  numbers is never called with an argument it panics on, and each delay counts one attempt.
\<close>

theorem duration_bounds:
  assumes "sensible b" "\<And>n. 0 < n \<Longrightarrow> 0 \<le> rnd n \<and> rnd n < n"
  shows "\<exists>d b'. duration rnd b = (Inr d, b') \<and> 0 \<le> d \<and> d \<le> limit b (boAttempt b) * 10 ^ 6
    \<and> (boNoJitter b \<longrightarrow> d = limit b (boAttempt b) * 10 ^ 6) \<and> (\<not> boNoJitter b \<longrightarrow> d < limit b (boAttempt b) * 10 ^ 6)
    \<and> boAttempt b' = boAttempt b + 1 \<and> sensible b' \<and> limit b' = limit b"
  by (rule duration_bounded) (fact assms)+

text \<open>
  The bound on the cap is sharp. One millisecond more, and the product with \<^verbatim>\<open>time.Millisecond\<close> wraps to a
  negative delay; with the largest integer, \<^verbatim>\<open>float64\<close> rounds up, the conversion back gives the
  least integer, and the generator panics.
\<close>

definition capped :: "bool \<Rightarrow> int \<Rightarrow> backoff" where
  "capped nojitter n = \<lparr>boNoJitter = nojitter, boBase = n, boFactor = 1, boCap = n, boAttempt = 0\<rparr>"

theorem duration_overflow:
  "fst (duration rnd (capped True 9223372036855)) = Inr (- 9223372036854551616)"
  "fst (duration rnd (capped False (2 ^ 63 - 1))) = Inl (Panic ''invalid argument to Intn'')"
proof -
  have u: "ulp (2 ^ 63 - 1) = 1024" by (simp add: ulp.simps)
  have r: "round53 (2 ^ 63 - 1) = 2 ^ 63" "round53 9223372036855 = 9223372036855" "round53 1 = 1" "round53 (2 ^ 63) = 2 ^ 63"
  proof -
    show "round53 (2 ^ 63 - 1) = 2 ^ 63" unfolding round53_def Let_def u by simp
    show "round53 9223372036855 = 9223372036855" "round53 1 = 1" by (simp_all add: round53_small)
    have "ulp (2 ^ 63) = 2048" by (simp add: ulp.simps)
    then show "round53 (2 ^ 63) = 2 ^ 63" by (simp add: round53_def)
  qed
  have p: "float_pow 1 0 = 1" by (simp add: float_pow_def float_pow_loop.simps)
  show "fst (duration rnd (capped True 9223372036855)) = Inr (- 9223372036854551616)"
    using r p by (simp add: duration_def durationForAttempt_def andThen_def capped_def setDefault_def Let_def float_of_def
        int_of_float_def wrap64_def)
  show "fst (duration rnd (capped False (2 ^ 63 - 1))) = Inl (Panic ''invalid argument to Intn'')"
    using r p by (simp add: duration_def durationForAttempt_def andThen_def capped_def setDefault_def Let_def float_of_def
        int_of_float_def Intn_def)
qed

text \<open>
  The limits never decrease from one attempt to the next and are constant once the cap is
  reached; a fresh \<^verbatim>\<open>backoff\<close> gives 20, 40, 80 and so on up to 180000 milliseconds.
\<close>

theorem limit_mono:
  assumes "sensible b"
  shows "limit b k \<le> limit b (Suc k) \<and> (limit b k = boCap (setDefault b) \<longrightarrow> limit b (Suc k) = boCap (setDefault b))
    \<and> limit zero_backoff k = min 180000 (20 * 2 ^ k)"
proof -
  let ?b = "setDefault b"
  have p: "0 < boBase ?b" "0 < boFactor ?b" using setDefault_positive [OF assms] by simp_all
  have "boBase ?b * boFactor ?b ^ k \<le> boBase ?b * boFactor ?b ^ Suc k"
    using p by (simp add: self_le_power)
  then show ?thesis
    by (simp add: limit_def Let_def setDefault_def zero_backoff_def defaultBase_def defaultCap_def defaultFactor_def)
qed

text \<open>
  \<^verbatim>\<open>durationForAttempt\<close> does not depend on the attempt it is given, contrary to its comment:
  a fresh \<^verbatim>\<open>backoff\<close> without jitter gives 20 milliseconds for every attempt, also where the
  limit is 640.
\<close>

theorem durationForAttempt_ignores:
  "durationForAttempt rnd m b = durationForAttempt rnd n b
   \<and> fst (durationForAttempt rnd n (zero_backoff\<lparr>boNoJitter := True\<rparr>)) = Inr (20 * 10 ^ 6) \<and> limit zero_backoff 5 = 640"
proof -
  let ?b = "zero_backoff\<lparr>boNoJitter := True\<rparr>"
  have s: "sensible ?b" and l: "limit ?b 0 = 20" "limit zero_backoff 5 = 640"
    by (simp_all add: sensible_def limit_def zero_backoff_def setDefault_def Let_def defaultBase_def defaultCap_def defaultFactor_def)
  show ?thesis
    using exp_backoff_exact [OF s, of 0] fits(1) [OF s, of 0] l
    by (simp add: durationForAttempt_def andThen_def Let_def zero_backoff_def int_of_float_def wrap64_def)
qed

theorem duration_bounds_witness:
  "\<exists>d b'. duration (\<lambda>_. 0) zero_backoff = (Inr d, b') \<and> 0 \<le> d \<and> boAttempt b' = 1"
proof -
  have "sensible zero_backoff" "boAttempt zero_backoff = 0" by (simp_all add: sensible_def zero_backoff_def)
  then show ?thesis using duration_bounds [of zero_backoff "\<lambda>_. 0"] by auto
qed

theorem limit_mono_witness: "limit zero_backoff 3 \<le> limit zero_backoff 4"
  using limit_mono [of zero_backoff 3] by (simp add: sensible_def zero_backoff_def)

end
