(* ===== verification/StreamManager.thy ===== *)
theory StreamManager
  imports Component ClientSecurity Backoff
begin

text \<open>
  \<^verbatim>\<open>stream_manager.go\<close>: the manager that keeps a stream client connected, with the delays of
  theory \<open>Backoff\<close>. What it manages is a client or a component (the interface \<^verbatim>\<open>StreamClient\<close>),
  here a type parameter with the actions the manager calls. \<^verbatim>\<open>PostConnect\<close> is code of the
  library's users, whose calls are counted. The metrics read the clock and are left out, and so
  is the wait group: \<^verbatim>\<open>Run\<close> ends with the wait for \<^verbatim>\<open>Stop\<close>.
\<close>

subsection \<open>The manager\<close>

record 'c manager =
  mgClient :: 'c
  mgPostConnect :: bool
  mgPostConnects :: nat
  mgWaits :: "int list"

definition NewStreamManager :: "'c \<Rightarrow> bool \<Rightarrow> 'c manager" where
  "NewStreamManager c pc = \<lparr>mgClient = c, mgPostConnect = pc, mgPostConnects = 0, mgWaits = []\<rparr>"

definition post_connect :: "'c manager \<Rightarrow> 'c manager" where
  "post_connect m = (if mgPostConnect m then m\<lparr>mgPostConnects := mgPostConnects m + 1\<rparr> else m)"

definition on_managed :: "('c, 'a) action \<Rightarrow> ('c manager, 'a) action" where
  "on_managed a m = (case a (mgClient m) of (r, c) \<Rightarrow> (r, m\<lparr>mgClient := c\<rparr>))"

subsection \<open>Reconnecting\<close>

text \<open>
  One turn of the loop of \<^verbatim>\<open>resume\<close>, over the manager and the local \<^verbatim>\<open>backoff\<close>: whether to go on.
  \<open>verb\<close> is how an error is printed with \<^verbatim>\<open>%#v\<close>.
\<close>

definition resume_step ::
  "(error \<Rightarrow> string) \<Rightarrow> (int \<Rightarrow> int) \<Rightarrow> ('c, unit) action \<Rightarrow> (backoff \<times> 'c manager, bool) action" where
  "resume_step verb rnd resume bm =
     (case bm of (b, m) \<Rightarrow>
        (case attempt (on_managed resume) m of
           (Inl p, m') \<Rightarrow> (Inl p, (b, m'))
         | (Inr (Inr _), m') \<Rightarrow> (Inr False, (b, m'))
         | (Inr (Inl e), m') \<Rightarrow>
             if (case as_conn_error e of Some (_, p) \<Rightarrow> p | None \<Rightarrow> False)
             then (Inl (Err (''unrecoverable connect error '' @ verb e)), (b, m'))
             else
               (case duration rnd b of
                  (Inl p, b') \<Rightarrow> (Inl p, (b', m'))
                | (Inr d, b') \<Rightarrow> (Inr True, (b', m'\<lparr>mgWaits := mgWaits m' @ [d]\<rparr>)))))"

definition sm_resume ::
  "nat \<Rightarrow> (error \<Rightarrow> string) \<Rightarrow> (int \<Rightarrow> int) \<Rightarrow> ('c, unit) action \<Rightarrow> 'c manager \<Rightarrow> ((error + unit) \<times> 'c manager) option" where
  "sm_resume k verb rnd resume m =
     (case run_loop k (resume_step verb rnd resume) (zero_backoff, m) of
        None \<Rightarrow> None
      | Some (Inl e, (b, m')) \<Rightarrow> Some (Inl e, m')
      | Some (Inr _, (b, m')) \<Rightarrow> Some (Inr (), post_connect m'))"

text \<open>The event handler that \<^verbatim>\<open>Run\<close> installs.\<close>

definition sm_handler ::
  "nat \<Rightarrow> (error \<Rightarrow> string) \<Rightarrow> (int \<Rightarrow> int) \<Rightarrow> ('c, unit) action \<Rightarrow> ('c, unit) action \<Rightarrow> event \<Rightarrow> 'c manager \<Rightarrow>
     ((error + unit) \<times> 'c manager) option" where
  "sm_handler k verb rnd resume disconnect e m =
     (case evState e of
        StateDisconnected \<Rightarrow> sm_resume k verb rnd resume m
      | StateStreamError \<Rightarrow>
          (case ignoring (on_managed disconnect) m of
             (Inl p, m') \<Rightarrow> Some (Inl p, m')
           | (Inr _, m') \<Rightarrow> if evStreamError e \<noteq> ''conflict'' then sm_resume k verb rnd resume m' else Some (Inr (), m'))
      | _ \<Rightarrow> Some (Inr (), m))"

subsection \<open>Running\<close>

datatype 'h stream_client = ManagedClient "'h client" | ManagedComponent "'h component"

definition sm_connect ::
  "crypto \<Rightarrow> codec \<Rightarrow> 'h handler \<Rightarrow> ('h stream_client manager, unit) action" where
  "sm_connect cr cdc evh m =
     (case mgClient m of
        ManagedClient c \<Rightarrow>
          if clCurrentState c = StateDisconnected then
            (case Client_Connect cr cdc evh c of
               (Inl e, c') \<Rightarrow> (Inl e, m\<lparr>mgClient := ManagedClient c'\<rparr>)
             | (Inr _, c') \<Rightarrow> (Inr (), post_connect (m\<lparr>mgClient := ManagedClient c'\<rparr>)))
          else (Inl (Err ''client is not disconnected''), m)
      | ManagedComponent c \<Rightarrow> (Inl (Err ''client is not disconnected''), m))"

text \<open>The client is nil, or the handler is set and the first connection is made.\<close>

definition sm_Run ::
  "crypto \<Rightarrow> codec \<Rightarrow> 'h handler \<Rightarrow> ('h stream_client manager) option \<Rightarrow> (error + unit) \<times> ('h stream_client manager) option" where
  "sm_Run cr cdc evh m =
     (case m of
        None \<Rightarrow> (Inl (Err ''missing stream client''), None)
      | Some m \<Rightarrow> apsnd Some (sm_connect cr cdc evh m))"

definition sm_Stop :: "('c, unit) action \<Rightarrow> ('c manager, unit) action" where
  "sm_Stop disconnect = ignoring (on_managed disconnect)"

subsection \<open>The reconnection loop\<close>

text \<open>The client after \<open>n\<close> attempts that fail with an error the manager retries on.\<close>

definition retryable :: "error \<Rightarrow> bool" where
  "retryable e \<longleftrightarrow> \<not> permanent e \<and> (\<nexists>p. e = Panic p)"

fun after_failures :: "nat \<Rightarrow> ('c, unit) action \<Rightarrow> 'c \<Rightarrow> 'c option" where
  "after_failures 0 resume c = Some c"
| "after_failures (Suc n) resume c =
     (case resume c of (Inl e, c') \<Rightarrow> if retryable e then after_failures n resume c' else None | (Inr _, c') \<Rightarrow> None)"

lemma as_conn_error_permanent: "(case as_conn_error e of Some (_, p) \<Rightarrow> p | None \<Rightarrow> False) = permanent e"
  by (cases e) simp_all

lemma attempt_on_managed:
  "attempt (on_managed a) m =
     (case a (mgClient m) of
        (Inl (Panic p), c) \<Rightarrow> (Inl (Panic p), m\<lparr>mgClient := c\<rparr>)
      | (r, c) \<Rightarrow> (Inr r, m\<lparr>mgClient := c\<rparr>))"
  by (auto simp: attempt_def on_managed_def split: prod.split sum.split error.split)

lemma resume_step_retry:
  assumes "resume (mgClient m) = (Inl e, c)" "retryable e" "duration rnd b = (Inr d, b')"
  shows "resume_step verb rnd resume (b, m) = (Inr True, (b', m\<lparr>mgClient := c, mgWaits := mgWaits m @ [d]\<rparr>))"
  using assms by (cases e) (simp_all add: resume_step_def attempt_on_managed as_conn_error_permanent retryable_def)

lemma resume_loop:
  assumes "after_failures n resume (mgClient m) = Some c" "sensible b" "\<And>n. 0 < n \<Longrightarrow> 0 \<le> rnd n \<and> rnd n < n"
  shows "\<exists>ds b'. run_loop (n + k) (resume_step verb rnd resume) (b, m) =
      run_loop k (resume_step verb rnd resume) (b', m\<lparr>mgClient := c, mgWaits := mgWaits m @ ds\<rparr>)
    \<and> length ds = n \<and> (\<forall>i < n. 0 \<le> ds ! i \<and> ds ! i \<le> limit b (boAttempt b + i) * 10 ^ 6)"
  using assms(1,2)
proof (induction n arbitrary: m b)
  case 0
  then show ?case by (intro exI [of _ "[]"] exI [of _ b]) auto
next
  case (Suc n)
  obtain e c1 where e: "resume (mgClient m) = (Inl e, c1)" "retryable e" "after_failures n resume c1 = Some c"
    using Suc.prems(1) by (auto split: prod.splits sum.splits if_splits)
  obtain d b1 where d: "duration rnd b = (Inr d, b1)" "0 \<le> d" "d \<le> limit b (boAttempt b) * 10 ^ 6"
    "boAttempt b1 = boAttempt b + 1" "sensible b1" "limit b1 = limit b"
    using duration_bounded [OF Suc.prems(2) assms(3)] by blast
  let ?m = "m\<lparr>mgClient := c1, mgWaits := mgWaits m @ [d]\<rparr>"
  obtain ds b' where ds: "run_loop (n + k) (resume_step verb rnd resume) (b1, ?m) =
      run_loop k (resume_step verb rnd resume) (b', ?m\<lparr>mgClient := c, mgWaits := mgWaits ?m @ ds\<rparr>)"
    "length ds = n" "\<forall>i < n. 0 \<le> ds ! i \<and> ds ! i \<le> limit b (boAttempt b + 1 + i) * 10 ^ 6"
    using Suc.IH [of ?m b1] e(3) d(4-6) by auto
  have "run_loop (Suc n + k) (resume_step verb rnd resume) (b, m) =
      run_loop k (resume_step verb rnd resume) (b', m\<lparr>mgClient := c, mgWaits := mgWaits m @ d # ds\<rparr>)"
    using resume_step_retry [of resume m e c1 rnd b d b1 verb, OF e(1,2) d(1)] ds(1) by simp
  moreover have "\<forall>i < Suc n. 0 \<le> (d # ds) ! i \<and> (d # ds) ! i \<le> limit b (boAttempt b + i) * 10 ^ 6"
    using d(2,3) ds(3) by (auto simp: nth_Cons split: nat.split)
  ultimately show ?case using ds(2) by (intro exI [of _ "d # ds"] exI [of _ b']) simp
qed

text \<open>
  C11. The reconnection loop calls \<^verbatim>\<open>Resume\<close> until an attempt succeeds or fails with a permanent
  error, and then returns: after \<open>n\<close> failures that are not permanent it has waited \<open>n\<close> times, the
  i-th time at most 20 milliseconds times two to the power of i, with 3 minutes as the limit. It
  calls \<^verbatim>\<open>PostConnect\<close> once after a success, and not at all after an error.
\<close>

theorem sm_resume_retries:
  assumes "after_failures n resume (mgClient m) = Some c" "\<And>n. 0 < n \<Longrightarrow> 0 \<le> rnd n \<and> rnd n < n" "n < k"
    and "resume c = (r, c')" "r = Inr () \<or> (\<exists>e. r = Inl e \<and> permanent e)"
  shows "\<exists>ds. sm_resume k verb rnd resume m =
      (let m' = m\<lparr>mgClient := c', mgWaits := mgWaits m @ ds\<rparr> in
       Some (case r of Inr _ \<Rightarrow> (Inr (), post_connect m') | Inl e \<Rightarrow> (Inl (Err (''unrecoverable connect error '' @ verb e)), m')))
    \<and> length ds = n \<and> (\<forall>i < n. 0 \<le> ds ! i \<and> ds ! i \<le> min 180000 (20 * 2 ^ i) * 10 ^ 6)"
proof -
  have s: "sensible zero_backoff" "boAttempt zero_backoff = 0" by (simp_all add: sensible_def zero_backoff_def)
  have lim: "limit zero_backoff i = min 180000 (20 * 2 ^ i)" for i
    by (simp add: limit_def Let_def setDefault_def zero_backoff_def defaultBase_def defaultCap_def defaultFactor_def)
  obtain k' where k: "k = n + Suc k'" using assms(3) by (metis less_iff_Suc_add add_Suc_right)
  obtain ds b where ds: "run_loop k (resume_step verb rnd resume) (zero_backoff, m) =
      run_loop (Suc k') (resume_step verb rnd resume) (b, m\<lparr>mgClient := c, mgWaits := mgWaits m @ ds\<rparr>)"
    "length ds = n" "\<forall>i < n. 0 \<le> ds ! i \<and> ds ! i \<le> limit zero_backoff i * 10 ^ 6"
    using resume_loop [OF assms(1) s(1) assms(2), of "Suc k'" verb] s(2) k by auto
  have "resume_step verb rnd resume (b, m\<lparr>mgClient := c, mgWaits := mgWaits m @ ds\<rparr>) =
      ((case r of Inr _ \<Rightarrow> Inr False | Inl e \<Rightarrow> Inl (Err (''unrecoverable connect error '' @ verb e))),
       (b, m\<lparr>mgClient := c', mgWaits := mgWaits m @ ds\<rparr>))"
  proof (cases r)
    case (Inl e)
    then show ?thesis
      using assms(4,5) by (cases e) (simp_all add: resume_step_def attempt_on_managed as_conn_error_permanent)
  qed (use assms(4) in \<open>simp add: resume_step_def attempt_on_managed\<close>)
  then show ?thesis
    using ds lim by (cases r) (auto simp: sm_resume_def Let_def)
qed

subsection \<open>What the manager relies on\<close>

text \<open>
  The law of \<^verbatim>\<open>Resume\<close> that makes the loop useful: without an error the stream is established.
\<close>

locale resumable =
  fixes resume :: "('c, unit) action"
    and state :: "'c \<Rightarrow> conn_state"
  assumes resume_established: "resume c = (Inr (), c') \<Longrightarrow> state c' = StateSessionEstablished"
begin

lemma loop_established:
  "run_loop k (resume_step verb rnd resume) bm = Some (Inr u, (b, m)) \<Longrightarrow> state (mgClient m) = StateSessionEstablished"
proof (induction k arbitrary: bm)
  case (Suc k)
  obtain b0 m0 where bm: "bm = (b0, m0)" by (cases bm)
  obtain r c where r: "resume (mgClient m0) = (r, c)" by (cases "resume (mgClient m0)")
  show ?case
  proof (cases r)
    case (Inr x)
    with Suc.prems r show ?thesis
      using resume_established [of "mgClient m0" c] by (auto simp: bm resume_step_def attempt_on_managed)
  next
    case (Inl e)
    with Suc r show ?thesis
      by (auto simp: bm resume_step_def attempt_on_managed split: error.splits prod.splits sum.splits if_splits bool.splits)
  qed
qed simp

lemma resumed_established:
  "sm_resume k verb rnd resume m = Some (Inr (), m') \<Longrightarrow> state (mgClient m') = StateSessionEstablished"
  by (auto simp: sm_resume_def post_connect_def split: option.splits sum.splits prod.splits if_splits dest!: loop_established)

end

lemma keeps_state_post: "keeps (\<lambda>c. clCurrentState c = st) postSessionSetup"
  unfolding postSessionSetup_def sendWithWriter_def run_hook_def
  by (intro keeps_intros) (auto simp: keeps_def on_client_def split: prod.split option.split intro!: keeps_intros)

lemma ends_updateState: "ends (\<lambda>c. clCurrentState c = st) (updateState (\<lambda>_. skip) st)"
  by (simp add: ends_def updateState_def notify_def ignoring_def attempt_def andThen_def state_event_def)

lemma ends_connect: "ends (\<lambda>c. clCurrentState c = StateSessionEstablished) (connect cr cdc (\<lambda>_. skip))"
  unfolding connect_def by (intro ends_intros ends_updateState)

interpretation managed_client: resumable "Client_Resume cr cdc (\<lambda>_. skip)" clCurrentState for cr cdc
proof unfold_locales
  fix c c' :: "'a client"
  have "ends (\<lambda>c. clCurrentState c = StateSessionEstablished) (Client_Resume cr cdc (\<lambda>_. skip) :: ('a client, unit) action)"
    unfolding Client_Resume_def by (intro ends_andThen ends_keeps ends_connect keeps_state_post)
  then show "Client_Resume cr cdc (\<lambda>_. skip) c = (Inr (), c') \<Longrightarrow> clCurrentState c' = StateSessionEstablished"
    by (rule endsD)
qed

interpretation managed_component: resumable "Component_Resume cr cdc (\<lambda>_. skip)" cpCurrentState for cr cdc
proof unfold_locales
  fix c c' :: "'a component"
  assume "Component_Resume cr cdc (\<lambda>_. skip) c = (Inr (), c')"
  then show "cpCurrentState c' = StateSessionEstablished"
    using Component_Resume_reported [of cr cdc c] by (simp add: reported_def)
qed

text \<open>
  When the reconnection loop of a client or of a component returns without an error, the
  stream is established.
\<close>

theorem sm_resume_established:
  "(sm_resume k verb rnd (Client_Resume cr cdc (\<lambda>_. skip)) m = Some (Inr (), m') \<longrightarrow>
      clCurrentState (mgClient m') = StateSessionEstablished)
   \<and> (sm_resume k verb rnd (Component_Resume cr cdc (\<lambda>_. skip)) n = Some (Inr (), n') \<longrightarrow>
      cpCurrentState (mgClient n') = StateSessionEstablished)"
  using managed_client.resumed_established managed_component.resumed_established by blast

subsection \<open>Which events reconnect\<close>

text \<open>
  The manager reconnects exactly when the stream was disconnected and when it was ended by
  a stream error other than \<^verbatim>\<open>conflict\<close>, and in the second case it closes the transport first.
  Another client that takes the session over is not fought.
\<close>

theorem sm_handler_spec:
  "sm_handler k verb rnd resume disconnect e m =
     (if evState e = StateDisconnected then sm_resume k verb rnd resume m
      else if evState e = StateStreamError then
        (case disconnect (mgClient m) of
           (Inl (Panic p), c) \<Rightarrow> Some (Inl (Panic p), m\<lparr>mgClient := c\<rparr>)
         | (_, c) \<Rightarrow> if evStreamError e = ''conflict'' then Some (Inr (), m\<lparr>mgClient := c\<rparr>)
             else sm_resume k verb rnd resume (m\<lparr>mgClient := c\<rparr>))
      else Some (Inr (), m))"
  by (cases "evState e")
    (auto simp: sm_handler_def ignoring_def andThen_def attempt_on_managed split: prod.split sum.split error.split)

text \<open>
  \<^verbatim>\<open>Run\<close> never connects a component: it returns the error that the client is not
  disconnected and leaves the component as it is, although the manager is documented to handle
  clients and components.
\<close>

theorem sm_Run_component:
  assumes "mgClient m = ManagedComponent c"
  shows "sm_Run cr cdc evh (Some m) = (Inl (Err ''client is not disconnected''), Some m)"
  using assms by (simp add: sm_Run_def sm_connect_def)

theorem sm_Run_component_witness:
  "sm_Run sample_crypto package_codec (\<lambda>_. skip) (Some (NewStreamManager (ManagedComponent (sample_component [sample_accepting])) True))
    = (Inl (Err ''client is not disconnected''), Some (NewStreamManager (ManagedComponent (sample_component [sample_accepting])) True))"
  by (rule sm_Run_component) (simp add: NewStreamManager_def)

text \<open>
  A dial that fails ends the reconnection for good: the loop returns after one dial, without
  having waited, so that the delays of the backoff never apply to a server that is down.
\<close>

theorem sm_resume_dial_fails:
  assumes "clTransport (mgClient m) = TCP t" "xtServers t = sv # svs" "svDial sv = Some e"
  shows "\<exists>c t'. sm_resume (Suc k) verb rnd (Client_Resume cr cdc (\<lambda>_. skip)) m =
      Some (Inl (Err (''unrecoverable connect error '' @ verb (ConnError e True))), m\<lparr>mgClient := c\<rparr>)
    \<and> clTransport c = TCP t' \<and> xtServers t' = svs"
proof -
  let ?t = "t\<lparr>xtConn := False, xtServers := svs\<rparr>"
  obtain c where c: "Client_Resume cr cdc (\<lambda>_. skip) (mgClient m) = (Inl (ConnError e True), c)" "clTransport c = TCP ?t"
    using assms
    by (auto simp: Client_Resume_def andThen_def updateState_def notify_def ignoring_def attempt_def connect_def
        on_client_def xt_Connect_def NewConnError_def)
  then have "resume_step verb rnd (Client_Resume cr cdc (\<lambda>_. skip)) (zero_backoff, m) =
      (Inl (Err (''unrecoverable connect error '' @ verb (ConnError e True))), (zero_backoff, m\<lparr>mgClient := c\<rparr>))"
    by (simp add: resume_step_def attempt_on_managed)
  then show ?thesis using c(2) by (intro exI [of _ c] exI [of _ ?t]) (simp add: sm_resume_def)
qed

text \<open>
  C14. When the negotiation of a session fails during \<^verbatim>\<open>Resume\<close>, the error goes to the reconnection loop that
  called it: the loop waits and tries again, or gives up when the error is permanent. If the
  connection then ends with an error, the goroutine that waits for the end of the stream also raises
  the event that the stream is disconnected, on which the manager's handler runs a reconnection loop
  of its own, with a fresh backoff, in both cases; so two loops run when the first one goes on, and a
  permanent error does not stop the reconnecting. If the server closes the stream instead, no event
  is raised.
\<close>

theorem connect_failure_twice:
  assumes "on_client tr_Connect (snd (updateState (\<lambda>_. skip) StateResuming c)) = (Inr i, c1)"
    and "negotiated cr cdc c1 = (Inr (Some e), c2)" "\<nexists>p. e = Panic p" "\<nexists>p. fst (Client_Disconnect c2) = Inl (Panic p)"
    and "NextPacket cdc (tr_GetDecoder (clTransport c2)) = end"
    and "case end of Inl e' \<Rightarrow> (\<nexists>p. e' = Panic p) | Inr (v, d) \<Rightarrow> v = PktStreamClose"
    and "duration rnd b = (Inr w, b')"
  shows "\<exists>c3. Client_Resume cr cdc (\<lambda>_. skip) c = (Inl e, c3)
    \<and> resume_step verb rnd (Client_Resume cr cdc (\<lambda>_. skip)) (b, m\<lparr>mgClient := c\<rparr>) =
        (if permanent e then (Inl (Err (''unrecoverable connect error '' @ verb e)), (b, m\<lparr>mgClient := c3\<rparr>))
         else (Inr True, (b', m\<lparr>mgClient := c3, mgWaits := mgWaits m @ [w]\<rparr>)))
    \<and> (case end of
         Inl e' \<Rightarrow> \<exists>ev. clEvents c3 = clEvents c2 @ [ev]
           \<and> (\<forall>k resume disconnect (m' :: 'c manager). sm_handler k verb rnd resume disconnect ev m' = sm_resume k verb rnd resume m')
       | Inr vd \<Rightarrow> clEvents c3 = clEvents c2)"
proof -
  obtain r c3 where d: "Client_Disconnect c2 = (r, c3)" "\<nexists>p. r = Inl (Panic p)"
    using assms(4) by (cases "Client_Disconnect c2") auto
  have i: "ignoring Client_Disconnect c2 = (Inr (), c3)"
    using d by (auto simp: ignoring_def attempt_def andThen_def split: sum.split error.split)
  have t: "NextPacket cdc (tr_GetDecoder (clTransport c3)) = end" "clEvents c3 = clEvents c2"
    using d(1) keepsD [OF same_decoder(2), of "clTransport c2"] assms(5)
    by (auto simp: Client_Disconnect_def on_client_def split: prod.splits)
  let ?ev = "(state_event StateDisconnected)\<lparr>evSMState := zero_sm_state\<rparr>"
  have "\<exists>c4. await_close cdc (\<lambda>_. skip) c3 = (Inr (), c4)
      \<and> clEvents c4 = (case end of Inl e' \<Rightarrow> clEvents c2 @ [?ev] | Inr vd \<Rightarrow> clEvents c2)"
  proof (cases "end")
    case (Inl e')
    with assms(6) t show ?thesis
      by (cases e') (auto simp: await_close.simps [of cdc _ c3] andThen_def ErrorHandler_def disconnected_def notify_def
          ignoring_def attempt_def)
  next
    case (Inr vd)
    with assms(6) t show ?thesis
      by (auto simp: await_close.simps [of cdc _ c3] Let_def split: prod.splits)
  qed
  then obtain c4 where a: "await_close cdc (\<lambda>_. skip) c3 = (Inr (), c4)"
      "clEvents c4 = (case end of Inl e' \<Rightarrow> clEvents c2 @ [?ev] | Inr vd \<Rightarrow> clEvents c2)" by blast
  have "connect cr cdc (\<lambda>_. skip) (snd (updateState (\<lambda>_. skip) StateResuming c)) = (Inl e, c4)"
    using assms(1,2) i a(1) by (simp add: connect_def)
  then have r: "Client_Resume cr cdc (\<lambda>_. skip) c = (Inl e, c4)"
    by (simp add: Client_Resume_def updateState_def notify_def ignoring_def attempt_def)
  have "resume_step verb rnd (Client_Resume cr cdc (\<lambda>_. skip)) (b, m\<lparr>mgClient := c\<rparr>) =
      (if permanent e then (Inl (Err (''unrecoverable connect error '' @ verb e)), (b, m\<lparr>mgClient := c4\<rparr>))
       else (Inr True, (b', m\<lparr>mgClient := c4, mgWaits := mgWaits m @ [w]\<rparr>)))"
    using r assms(3,7) by (cases e) (simp_all add: resume_step_def attempt_on_managed)
  then show ?thesis
    using r a(2) by (intro exI [of _ c4]) (auto simp: sm_handler_def state_event_def split: sum.splits)
qed

subsection \<open>Witnesses\<close>

text \<open>A client that fails as often as its number says.\<close>

definition failing_client :: "(nat, unit) action" where
  "failing_client n = (if n = 0 then (Inr (), 0) else (Inl IoEOF, n - 1))"

theorem sm_resume_retries_witness:
  "\<exists>m'. sm_resume 3 error_text (\<lambda>_. 0) failing_client (NewStreamManager 2 True) = Some (Inr (), m')
    \<and> mgPostConnects m' = 1 \<and> length (mgWaits m') = 2"
proof -
  have a: "after_failures 2 failing_client (mgClient (NewStreamManager 2 True)) = Some 0"
    by (simp add: numeral_2_eq_2 failing_client_def retryable_def NewStreamManager_def)
  have b: "failing_client 0 = (Inr (), 0)" by (simp add: failing_client_def)
  from sm_resume_retries [OF a _ _ b, of "\<lambda>_. 0" 3 error_text] show ?thesis
    by (auto simp: Let_def post_connect_def NewStreamManager_def)
qed

theorem sm_resume_established_witness:
  "\<exists>m'. sm_resume 1 error_text (\<lambda>_. 0) (Component_Resume sample_crypto package_codec (\<lambda>_. skip))
      (NewStreamManager (sample_component [sample_accepting]) False) = Some (Inr (), m')
    \<and> cpCurrentState (mgClient m') = StateSessionEstablished"
proof -
  have sv: "svDial sample_accepting = None" "\<forall>k. svWrite sample_accepting k = WOk"
    "svPlain sample_accepting = new_decoder (header ''s1'' @ xml_tokens (Elem (XName NSComponent ''handshake'') [] []) @ [])"
    "cpServers (sample_component [sample_accepting]) = [sample_accepting]"
    by (simp_all add: sample_accepting_def sample_server_def sample_component_def)
  obtain t where "NewComponentTransport (cpServers (sample_component [sample_accepting]))
      (coTransport (set_domain (cpOptions (sample_component [sample_accepting])))) = Inr (TCP t)"
    using sample_component_transport [of "[sample_accepting]"] sv(4) by auto
  from Component_Resume_run [OF sv(4,1,2) this sv(3), of sample_crypto package_codec]
  obtain m' where "sm_resume 1 error_text (\<lambda>_. 0) (Component_Resume sample_crypto package_codec (\<lambda>_. skip))
      (NewStreamManager (sample_component [sample_accepting]) False) = Some (Inr (), m')"
    by (auto simp: sm_resume_def resume_step_def attempt_on_managed NewStreamManager_def)
  then show ?thesis using sm_resume_established by blast
qed

definition sample_refusing :: server where
  "sample_refusing = (sample_server [] [])\<lparr>svDial := Some (LibErr ''connection refused'')\<rparr>"

theorem sm_resume_dial_fails_witness:
  "\<exists>e m'. sm_resume 1 error_text (\<lambda>_. 0) (Client_Resume sample_crypto package_codec (\<lambda>_. skip))
      (NewStreamManager (sample_fresh\<lparr>clTransport := TCP (sample_transport\<lparr>xtServers := [sample_refusing, sample_server [] []]\<rparr>)\<rparr>) True) = Some (Inl e, m')
    \<and> mgPostConnects m' = 0 \<and> mgWaits m' = []"
  using sm_resume_dial_fails [of "NewStreamManager (sample_fresh\<lparr>clTransport := TCP (sample_transport\<lparr>xtServers := [sample_refusing, sample_server [] []]\<rparr>)\<rparr>) True"
      "sample_transport\<lparr>xtServers := [sample_refusing, sample_server [] []]\<rparr>" sample_refusing "[sample_server [] []]" "LibErr ''connection refused''"
      0 error_text "\<lambda>_. 0" sample_crypto package_codec]
  by (auto simp: NewStreamManager_def sample_refusing_def)

text \<open>
  A server that closes the connection when it is given the credentials: the error is not permanent, and
  both loops run.
\<close>

definition sample_hangup :: server where
  "sample_hangup = sample_server (xml_tokens (features_elem [mechanisms_elem])) []"

definition sample_dropped :: "nat client" where
  "sample_dropped = sample_fresh\<lparr>clTransport := TCP (sample_transport\<lparr>xtIsSecure := True, xtServers := [sample_hangup]\<rparr>)\<rparr>"

theorem connect_failure_twice_witness:
  "\<exists>e c3 ev b m'. Client_Resume sample_crypto package_codec (\<lambda>_. skip) sample_dropped = (Inl e, c3) \<and> \<not> permanent e
    \<and> resume_step error_text (\<lambda>_. 0) (Client_Resume sample_crypto package_codec (\<lambda>_. skip))
        (zero_backoff, NewStreamManager sample_dropped True) = (Inr True, (b, m'))
    \<and> ev \<in> set (clEvents c3)
    \<and> sm_handler 1 error_text (\<lambda>_. 0) failing_client failing_client ev (NewStreamManager 0 True)
        = sm_resume 1 error_text (\<lambda>_. 0) failing_client (NewStreamManager 0 True)"
proof -
  let ?nd = "new_decoder []"
  let ?d = "after [] (in_stream []) ?nd"
  let ?ts = "xml_tokens (Elem (XName NSStream ''features'') [] [mechanisms_elem]) @ []"
  let ?f = "zero_features\<lparr>sfMechanismsName := XName NSSASL ''mechanisms'', sfMechanism := [''PLAIN'']\<rparr>"
  let ?e = "scan_error (syntax_error ''unexpected EOF'')"
  define t0 where "t0 = sample_transport\<lparr>xtIsSecure := True, xtServers := [sample_hangup]\<rparr>"
  define t1 where "t1 = t0\<lparr>xtConn := True, xtClosed := False, xtCloseChan := Some 0, xtChannel := Some Clear,
     xtDecoder := svPlain sample_hangup, xtServer := Some sample_hangup, xtServers := [], xtWrites := 0\<rparr>"
  define t2 where "t2 = (wrote Clear (open_text t1) t1)\<lparr>xtDecoder := after ?ts (in_stream []) ?nd\<rparr>"
  define t3 where "t3 = t2\<lparr>xtDecoder := ?d\<rparr>"
  define t4 where "t4 = wrote Clear (OSASLAuth ''PLAIN'' (b64_encode (plain_message ''juliet'' ''secret''))) t3"
  define c0 where "c0 = snd (updateState (\<lambda>_. skip) StateResuming sample_dropped)"
  have c0: "clTransport c0 = TCP t0" "clSession c0 = None" "clConfig c0 = sample_client_config\<lparr>cfStreamManagementEnable := True\<rparr>"
    by (simp_all add: c0_def updateState_def notify_def ignoring_def attempt_def sample_dropped_def t0_def sample_fresh_def sample_client_def)
  have r: "xt_ready Clear t1" by (simp add: t1_def xt_ready_def sample_hangup_def sample_server_def)
  have sv: "svPlain sample_hangup = after (header ''s1'' @ ?ts) [] ?nd"
    by (simp add: sample_hangup_def sample_server_def features_elem_def stream_header_def header_def new_decoder_def after_def)
  have "xt_Connect t0 = xt_StartStream t1"
    by (simp add: t1_def t0_def xt_Connect_def sample_transport_def new_xmpp_transport_def sample_hangup_def sample_server_def)
  also have "\<dots> = (Inr ''s1'', t2)"
  proof -
    have "InitStream (xtDecoder t1) = Inr (''s1'', after ?ts (in_stream []) ?nd)"
      using InitStream_after [of "[]" "''s1''" ?ts ?nd] by (simp add: t1_def sv del: xml_tokens.simps)
    then show ?thesis
      by (simp add: xt_StartStream_def open_text_def [symmetric] xt_Write_ready [OF r] t2_def del: xml_tokens.simps)
  qed
  finally have 1: "on_client tr_Connect c0 = (Inr ''s1'', c0\<lparr>clTransport := TCP t2\<rparr>)"
    by (simp add: on_client_def c0)
  have r2: "xt_ready Clear t2" "xt_ready Clear t3" "xt_ready Clear t4" using r by (simp_all add: t2_def t3_def t4_def)
  have n: "NextPacket package_codec ?d = Inl ?e"
  proof -
    have "?d = \<lparr>decInput = [], decErr = IoEOF, decStk = [StkStart (XName NSStream ''stream'')]\<rparr>"
      by (simp add: after_def in_stream_def new_decoder_def)
    then show ?thesis by (simp only:) (simp add: NextPacket_def NextXmppToken.simps Token_def)
  qed
  let ?cn = "\<lambda>s t. \<lparr>cnSession = s, cnTransport = TCP t, cnConfig = clConfig c0\<rparr>"
  let ?s1 = "(new_session zero_sm_state)\<lparr>sessErr := None, sessFeatures := ?f\<rparr>"
  have init: "Session_init (?cn (new_session zero_sm_state) t2) = (Inr (), ?cn ?s1 t3)"
    using Session_init_run [of "?cn (new_session zero_sm_state) t2" t2 "XName NSStream ''features''" "[]" "[mechanisms_elem]" "[]" "in_stream []" ?nd ?f]
      sample_features(1) by (simp add: t2_def t3_def features_elem_def del: xml_tokens.simps)
  have cfg: "cfParsedJid (clConfig c0) = Some sample_jid" "cfCredential (clConfig c0) = Password ''secret''"
    using sample_config_props by (simp_all add: c0)
  have plain: "only_plain ?f" by (simp add: only_plain_def)
  have "authPlain package_codec ''PLAIN'' ''juliet'' ''secret'' (TCP t3) = (Inl ?e, TCP t4)"
    using n r2(2) by (simp add: authPlain_def andThen_def write_some_ready [of Clear] tr_read_def t4_def) (simp add: t3_def)
  then have auth: "Session_auth sample_crypto package_codec (?cn (?s1\<lparr>sessResumed := False\<rparr>) t3) =
      (Inr (), ?cn (?s1\<lparr>sessResumed := False, sessErr := Some ?e\<rparr>) t4)"
    using cfg plain
    by (simp add: Session_auth_def unless_err_def authSASL_only_plain andThen_def on_transport_def set_err_def upd_def
        sample_jid_def scan_error_def syntax_error_def)
  have sec: "tr_IsSecure (TCP t3)" by (simp add: t3_def t2_def t1_def t0_def wrote_def)
  have "secured_session sample_crypto package_codec (?cn ?s1 t3) =
      (Inr (Some (?s1\<lparr>sessResumed := False, sessErr := Some ?e\<rparr>), Some ?e), ?cn (?s1\<lparr>sessResumed := False, sessErr := Some ?e\<rparr>) t4)"
    using auth by (simp add: secured_session_def andThen_def upd_def checked_def returning_def new_session_def)
  then have "NewSession sample_crypto package_codec None zero_sm_state (clConfig c0) (TCP t2) =
      (Inr (Some (?s1\<lparr>sessResumed := False, sessErr := Some ?e\<rparr>), Some ?e), ?cn (?s1\<lparr>sessResumed := False, sessErr := Some ?e\<rparr>) t4)"
    using init sec by (simp add: NewSession_def session_or_new_def negotiate_def andThen_def)
  then obtain c2 where 2: "negotiated sample_crypto package_codec (c0\<lparr>clTransport := TCP t2\<rparr>) = (Inr (Some ?e), c2)" "clTransport c2 = TCP t4"
    by (simp add: negotiated_def c0 Let_def)
  have "xt_ready Clear t4 \<and> xtConn t4" using r2(3) by (simp add: t4_def t3_def t2_def t1_def wrote_def)
  then have 3: "\<nexists>p. fst (Client_Disconnect c2) = Inl (Panic p)"
    using 2(2) by (auto simp: Client_Disconnect_def on_client_def xt_Close_def Let_def xt_Write_ready split: prod.split)
  have 4: "NextPacket package_codec (tr_GetDecoder (clTransport c2)) = Inl ?e"
    using n 2(2) by (simp add: t4_def t3_def)
  have "sensible zero_backoff" by (simp add: sensible_def zero_backoff_def)
  then obtain w b' where 5: "duration (\<lambda>_. 0) zero_backoff = (Inr w, b')"
    using duration_bounded [of zero_backoff "\<lambda>_. 0"] by auto
  have e: "\<nexists>p. ?e = Panic p" "\<not> permanent ?e" by (simp_all add: scan_error_def syntax_error_def)
  have m: "(NewStreamManager sample_dropped True)\<lparr>mgClient := sample_dropped\<rparr> = NewStreamManager sample_dropped True"
    by (simp add: NewStreamManager_def)
  from connect_failure_twice [OF 1 [unfolded c0_def] 2(1) [unfolded c0_def] e(1) 3 4 _ 5, of error_text "NewStreamManager sample_dropped True"]
  show ?thesis using e unfolding m by fastforce
qed

end
