(* ===== verification/CertCheck.thy ===== *)
theory CertCheck
  imports Session
begin

text \<open>
  \<^verbatim>\<open>cert_checker.go\<close>: checking the certificate of a server (\<open>ServerCheck_Check\<close>) and its
  expiration (\<open>checkExpiration\<close>). The parameters of a check are in theory \<open>Network\<close>, the other
  side is a script as in theory \<open>Transport\<close>. Times are in nanoseconds; \<open>now\<close> is \<^verbatim>\<open>time.Now()\<close>.
\<close>

record cert =
  ctSignature :: string
  ctCommonName :: string
  ctNotAfter :: int

definition hour :: int where
  "hour = 3600 * 10 ^ 9"

text \<open>\<^verbatim>\<open>int64(d.Hours())\<close> truncates towards zero.\<close>

definition truncated_hours :: "int \<Rightarrow> int" where
  "truncated_hours d = (if 0 \<le> d then d div hour else - (- d div hour))"

fun check_certs :: "(cert \<Rightarrow> string) \<Rightarrow> int \<Rightarrow> cert list \<Rightarrow> string set \<Rightarrow> error + unit" where
  "check_certs msg now [] seen = Inr ()"
| "check_certs msg now (c # cs) seen =
     (if ctSignature c \<in> seen then check_certs msg now cs seen
      else if truncated_hours (ctNotAfter c - now) \<le> 48 then Inl (Err (msg c))
      else check_certs msg now cs (insert (ctSignature c) seen))"

text \<open>\<open>msg\<close> is how the error message names the certificate and its date.\<close>

definition checkExpiration :: "(cert \<Rightarrow> string) \<Rightarrow> int \<Rightarrow> cert list list \<Rightarrow> error + unit" where
  "checkExpiration msg now chs = check_certs msg now (concat chs) {}"

text \<open>What is done once the features are there.\<close>

definition check_tls :: "(cert \<Rightarrow> string) \<Rightarrow> int \<Rightarrow> cert list list \<Rightarrow> server \<Rightarrow> decoder \<Rightarrow> error + unit" where
  "check_tls msg now chs sv d =
     bind_result (write_outcome (svWrite sv 1)) (\<lambda>_.
     case decode_next (decode_struct (expect_name nsTLS ''proceed'')) d of
       Inl e \<Rightarrow> Inl (Err (''expecting starttls proceed: '' @ error_text e))
     | Inr _ \<Rightarrow>
         (case svHandshake sv of
            Some e \<Rightarrow> Inl e
          | None \<Rightarrow>
              (case svVerifyHostname sv of
                 Some e \<Rightarrow> Inl e
               | None \<Rightarrow> checkExpiration msg now chs)))"

text \<open>The features among what the server may send after the opening of the stream.\<close>

definition offered_features :: "error + packet \<times> decoder \<Rightarrow> error + stream_features \<times> decoder" where
  "offered_features r =
     (case r of
        Inl e \<Rightarrow> Inl (Err (''stream open decode features: '' @ error_text e))
      | Inr (p, d) \<Rightarrow>
          (case p of
             PktStreamFeatures f \<Rightarrow> Inr (f, d)
           | PktStreamError n txt \<Rightarrow> Inl (Err (''open stream error: '' @ nLocal n))
           | _ \<Rightarrow> Inl (Err (''expected packet received while expecting features, got '' @ packet_Name p))))"

definition ServerCheck_Check ::
  "codec \<Rightarrow> (cert \<Rightarrow> string) \<Rightarrow> int \<Rightarrow> cert list list \<Rightarrow> server \<Rightarrow> error + unit" where
  "ServerCheck_Check cdc msg now chs sv =
     (case svDial sv of
        Some e \<Rightarrow> Inl e
      | None \<Rightarrow>
          bind_result (write_outcome (svWrite sv 0)) (\<lambda>_.
          bind_result (InitStream (svPlain sv)) (\<lambda>(_, d).
          bind_result (offered_features (NextPacket cdc d)) (\<lambda>(f, d').
            if snd (DoesStartTLS f) then check_tls msg now chs sv d'
            else Inl (Err ''TLS not supported on server'')))))"

subsection \<open>Properties\<close>

lemma truncated_hours_iff: "truncated_hours d \<le> 48 \<longleftrightarrow> d < 49 * hour"
proof (cases "0 \<le> d")
  case True
  then show ?thesis by (simp add: truncated_hours_def hour_def) linarith
next
  case False
  have "0 \<le> - d div hour" using False by (simp add: hour_def pos_imp_zdiv_nonneg_iff)
  then show ?thesis using False by (simp add: truncated_hours_def hour_def)
qed

lemma check_certs_ok:
  assumes "inj_on ctSignature (set cs \<union> D)" "\<And>c. c \<in> D \<Longrightarrow> 49 * hour \<le> ctNotAfter c - now"
  shows "check_certs msg now cs (ctSignature ` D) = Inr () \<longleftrightarrow> list_all (\<lambda>c. 49 * hour \<le> ctNotAfter c - now) cs"
  using assms
proof (induction cs arbitrary: D)
  case (Cons c cs)
  show ?case
  proof (cases "ctSignature c \<in> ctSignature ` D")
    case True
    then have "c \<in> D" using Cons.prems(1) by (auto simp: inj_on_def)
    moreover have "inj_on ctSignature (set cs \<union> D)" using Cons.prems(1) by (rule inj_on_subset) auto
    ultimately show ?thesis using True Cons.IH [of D] Cons.prems(2) by simp
  next
    case False
    show ?thesis
    proof (cases "49 * hour \<le> ctNotAfter c - now")
      case True
      have i: "insert (ctSignature c) (ctSignature ` D) = ctSignature ` insert c D" by simp
      have "check_certs msg now cs (ctSignature ` insert c D) = Inr () \<longleftrightarrow> list_all (\<lambda>c. 49 * hour \<le> ctNotAfter c - now) cs"
        by (rule Cons.IH) (use Cons.prems True in auto)
      then show ?thesis using False True unfolding check_certs.simps i by (simp add: truncated_hours_iff)
    qed (use False in \<open>simp add: truncated_hours_iff\<close>)
  qed
qed simp

text \<open>
  Checking the expiration succeeds exactly when no certificate of the verified chains expires
  within 49 hours, provided that different certificates have different signatures. The comment
  says 48 hours: the hours are truncated before they are compared.
\<close>

theorem checkExpiration_spec:
  assumes "inj_on ctSignature (set (concat chs))"
  shows "checkExpiration msg now chs = Inr () \<longleftrightarrow> (\<forall>chain \<in> set chs. \<forall>c \<in> set chain. 49 * hour \<le> ctNotAfter c - now)"
  using check_certs_ok [of "concat chs" "{}" now msg] assms by (auto simp: checkExpiration_def list_all_iff)

theorem checkExpiration_spec_witness:
  "checkExpiration ctCommonName 0 [[\<lparr>ctSignature = ''s'', ctCommonName = ''localhost'', ctNotAfter = 48 * hour + 1\<rparr>]] \<noteq> Inr ()"
  using checkExpiration_spec [of "[[\<lparr>ctSignature = ''s'', ctCommonName = ''localhost'', ctNotAfter = 48 * hour + 1\<rparr>]]" ctCommonName 0]
  by (simp add: hour_def)

text \<open>
  A check of a server that succeeds means that the server offered TLS in its features, that the
  handshake succeeded, that the certificate is one for the domain, and that the certificates are
  not about to expire.
\<close>

theorem ServerCheck_Check_ok:
  assumes "ServerCheck_Check cdc msg now chs sv = Inr ()"
  shows "svDial sv = None \<and> svHandshake sv = None \<and> svVerifyHostname sv = None \<and> checkExpiration msg now chs = Inr ()
    \<and> (\<exists>i d f d'. InitStream (svPlain sv) = Inr (i, d) \<and> NextPacket cdc d = Inr (PktStreamFeatures f, d') \<and> snd (DoesStartTLS f))"
proof -
  obtain i d f d' where d: "svDial sv = None" "InitStream (svPlain sv) = Inr (i, d)"
    "offered_features (NextPacket cdc d) = Inr (f, d')" "snd (DoesStartTLS f)" "check_tls msg now chs sv d' = Inr ()"
    using assms by (auto simp: ServerCheck_Check_def bind_result_Inr_iff split: option.splits if_splits)
  moreover have "NextPacket cdc d = Inr (PktStreamFeatures f, d')"
    using d(3) by (auto simp: offered_features_def split: sum.splits packet.splits)
  ultimately show ?thesis
    by (auto simp: check_tls_def bind_result_Inr_iff split: option.splits sum.splits)
qed

theorem ServerCheck_Check_ok_witness:
  "ServerCheck_Check package_codec ctCommonName 0 [] sample_peer = Inr () \<and> svHandshake sample_peer = None"
proof -
  obtain f where f: "decode_features zero_features (features_elem [starttls_elem]) = Inr f" "snd (DoesStartTLS f)"
    using sample_starttls by blast
  let ?proceed = "xml_tokens (Elem (XName nsTLS ''proceed'') [] [])"
  have i: "InitStream (svPlain sample_peer) = Inr (''s1'', after tls_tokens (in_stream []) (new_decoder []))"
    using InitStream_header [of tls_tokens]
    by (simp add: sample_peer_def sample_server_def after_def in_stream_def new_decoder_def)
  have n: "NextPacket package_codec (after tls_tokens (in_stream []) d) = Inr (PktStreamFeatures f, after ?proceed (in_stream []) d)" for d
    using f(1) unfolding tls_tokens_def features_elem_def
    by (simp add: NextPacket_def NextXmppToken_elem decode_packet_def decodeStream_def streamFeatures_decode_def
        as_packet_def decode_struct_tree del: xml_tokens.simps)
  have p: "decode_next (decode_struct (expect_name nsTLS ''proceed'')) (after ?proceed (in_stream []) d) =
      Inr (XName nsTLS ''proceed'', after [] (in_stream []) d)" for d
    using decode_next_struct [of "in_stream []" "expect_name nsTLS ''proceed''" "XName nsTLS ''proceed''" "[]" "[]" "[]" d]
    by (simp add: expect_name_def)
  have sv: "svDial sample_peer = None" "svWrite sample_peer k = WOk" "svHandshake sample_peer = None" "svVerifyHostname sample_peer = None" for k
    by (simp_all add: sample_peer_def sample_server_def)
  have "ServerCheck_Check package_codec ctCommonName 0 [] sample_peer = Inr ()"
    using sv by (simp add: ServerCheck_Check_def check_tls_def i n offered_features_def f(2) p checkExpiration_def write_outcome_def del: xml_tokens.simps)
  with ServerCheck_Check_ok [OF this] show ?thesis by simp
qed

end
