(* ===== verification/PayloadWire.thy ===== *)
theory PayloadWire
  imports Stanza
begin

text \<open>
  What \<^verbatim>\<open>xml.Marshal\<close> prints of payloads, IQs, messages and presences, by the tags of their
  structs, and what a peer that uses the same library reads of it. A payload of a type that is not
  modelled is not printed here; neither are events, which only services send.
\<close>

subsection \<open>Payloads\<close>

definition NSBind :: string where "NSBind = ''urn:ietf:params:xml:ns:xmpp-bind''"
definition NSSession :: string where "NSSession = ''urn:ietf:params:xml:ns:xmpp-session''"

definition bind_elem :: "bind \<Rightarrow> xml" where
  "bind_elem v =
     Elem (XName NSBind ''bind'') []
       (opt_elem ''resource'' (bindResource v) @ opt_elem ''jid'' (bindJid v) @ maybe result_set_elem (bindResultSet v))"

definition stream_session_elem :: "stream_session \<Rightarrow> xml" where
  "stream_session_elem v =
     Elem (XName NSSession ''session'') [] (flag_elem ''Optional'' (ssOptional v) @ maybe result_set_elem (ssResultSet v))"

fun payload_elem :: "payload \<Rightarrow> xml option" where
  "payload_elem (PBind b) = Some (bind_elem b)"
| "payload_elem (PStreamSession s) = Some (stream_session_elem s)"
| "payload_elem (PForm f) = Some (form_elem f)"
| "payload_elem (PPubSub p) = Some (pubsub_elem p)"
| "payload_elem (PPubSubOwner p) = Some (pubsub_owner_elem p)"
| "payload_elem (PPubSubEvent p) = None"
| "payload_elem (PCommand c) = Some (command_elem c)"
| "payload_elem (PDiscoInfo d) = Some (disco_info_elem d)"
| "payload_elem (PDiscoItems d) = Some (disco_items_elem d)"
| "payload_elem (PRoster r) = Some (roster_elem r)"
| "payload_elem (PRosterItems r) = Some (roster_items_elem r)"
| "payload_elem (PVersion v) = Some (version_elem v)"
| "payload_elem (PControlSet c) = Some (control_set_elem c)"
| "payload_elem (PMsgExt e) = Some (extension_elem e)"
| "payload_elem (PExt ty t) = None"

text \<open>The payloads of an IQ that survive the way, and what is read of them.\<close>

fun payload_ok :: "payload \<Rightarrow> bool" where
  "payload_ok (PBind b) = all_opt go_ints (bindResultSet b)"
| "payload_ok (PStreamSession s) = all_opt go_ints (ssResultSet s)"
| "payload_ok (PForm f) = False"
| "payload_ok (PPubSub p) = pubsub_ok p"
| "payload_ok (PPubSubOwner p) = all_opt use_case_ok (poOwnerUseCase p)"
| "payload_ok (PPubSubEvent p) = False"
| "payload_ok (PCommand c) = command_ok c"
| "payload_ok (PDiscoInfo d) = all_opt go_ints (diResultSet d)"
| "payload_ok (PDiscoItems d) = all_opt go_ints (dtResultSet d)"
| "payload_ok (PRoster r) = all_opt go_ints (roResultSet r)"
| "payload_ok (PRosterItems r) = all_opt go_ints (risResultSet r)"
| "payload_ok (PVersion v) = all_opt go_ints (veResultSet v)"
| "payload_ok (PControlSet c) = control_ok c"
| "payload_ok (PMsgExt e) = False"
| "payload_ok (PExt ty t) = False"

abbreviation named_sets :: "result_set option \<Rightarrow> result_set option" where
  "named_sets \<equiv> map_option named_result_set"

fun payload_read :: "payload \<Rightarrow> payload" where
  "payload_read (PBind b) = PBind (b\<lparr>bindXMLName := XName NSBind ''bind'', bindResultSet := named_sets (bindResultSet b)\<rparr>)"
| "payload_read (PStreamSession s) = PStreamSession (s\<lparr>ssXMLName := XName NSSession ''session'', ssResultSet := named_sets (ssResultSet s)\<rparr>)"
| "payload_read (PPubSub p) = PPubSub (pubsub_read p)"
| "payload_read (PPubSubOwner p) = PPubSubOwner (owner_read p)"
| "payload_read (PCommand c) = PCommand (command_read c)"
| "payload_read (PDiscoInfo d) = PDiscoInfo (d\<lparr>diXMLName := XName NSDiscoInfo ''query'', diResultSet := named_sets (diResultSet d)\<rparr>)"
| "payload_read (PDiscoItems d) = PDiscoItems (d\<lparr>dtXMLName := XName NSDiscoItems ''query'', dtResultSet := named_sets (dtResultSet d)\<rparr>)"
| "payload_read (PRoster r) = PRosterItems \<lparr>risXMLName = XName NSRoster ''query'', risItems = [], risResultSet = named_sets (roResultSet r)\<rparr>"
| "payload_read (PRosterItems r) = PRosterItems (r\<lparr>risXMLName := XName NSRoster ''query'', risResultSet := named_sets (risResultSet r)\<rparr>)"
| "payload_read (PVersion v) = PVersion (v\<lparr>veXMLName := XName NSVersion ''query'', veResultSet := named_sets (veResultSet v)\<rparr>)"
| "payload_read (PControlSet c) = PControlSet (c\<lparr>csXMLName := XName NSControl ''set'', csResultSet := named_sets (csResultSet c)\<rparr>)"
| "payload_read p = p"

lemma decode_set_elem:
  "all_opt go_ints (Some r) \<Longrightarrow> decode_set_field None (on_wire ns (result_set_elem r)) = Inr (Some (named_result_set r))"
  by (simp add: decode_set_field_def decode_result_set_elem)

lemma bind_space [simp]: "NSBind \<noteq> []" "NSSession \<noteq> []"
  by (simp_all add: NSBind_def NSSession_def)

lemma decode_bind_elem:
  assumes "all_opt go_ints (bindResultSet v)"
  shows "decode_bind zero_bind (on_wire ns (bind_elem v))
    = Inr (v\<lparr>bindXMLName := XName NSBind ''bind'', bindResultSet := named_sets (bindResultSet v)\<rparr>)"
  using assms
  by (cases v; cases "bindResultSet v")
    (auto simp: decode_bind_def bind_elem_def expect_name_def NSBind_def fold_result_append opt_elem_def zero_bind_def
      decode_set_elem)

lemma decode_stream_session_elem:
  assumes "all_opt go_ints (ssResultSet v)"
  shows "decode_stream_session zero_stream_session (on_wire ns (stream_session_elem v))
    = Inr (v\<lparr>ssXMLName := XName NSSession ''session'', ssResultSet := named_sets (ssResultSet v)\<rparr>)"
  using assms
  by (cases v; cases "ssResultSet v")
    (auto simp: decode_stream_session_def stream_session_elem_def expect_name_def NSSession_def fold_result_append
      flag_elem_def zero_stream_session_def decode_set_elem)

lemma roster_as_items: "roster_elem r = roster_items_elem \<lparr>risXMLName = XName [] [], risItems = [], risResultSet = roResultSet r\<rparr>"
  by (simp add: roster_elem_def roster_items_elem_def)

definition payload_name :: "payload \<Rightarrow> xname" where
  "payload_name p = (case payload_elem p of None \<Rightarrow> XName [] [] | Some t \<Rightarrow> elem_name t)"

lemma payload_named:
  assumes "payload_ok p"
  obtains t where "payload_elem p = Some t" "is_elem (\<lambda>_. True) t" "elem_name (on_wire ns t) = payload_name p"
    "nLocal (payload_name p) \<noteq> ''error''"
  using assms
  by (cases p) (auto simp: payload_name_def bind_elem_def stream_session_elem_def pubsub_elem_def pubsub_owner_elem_def
      NSPubSubOwner_def command_elem_def NSCommands_def disco_info_elem_def disco_items_elem_def roster_elem_def
      roster_items_elem_def version_elem_def control_set_elem_def)

text \<open>The registry finds the type of every payload it is printed with, but for \<^verbatim>\<open>Roster\<close>.\<close>

fun payload_type :: "payload \<Rightarrow> gotype" where
  "payload_type (PBind b) = ''Bind''"
| "payload_type (PStreamSession s) = ''StreamSession''"
| "payload_type (PForm f) = ''Form''"
| "payload_type (PPubSub p) = ''PubSubGeneric''"
| "payload_type (PPubSubOwner p) = ''PubSubOwner''"
| "payload_type (PPubSubEvent p) = ''PubSubEvent''"
| "payload_type (PCommand c) = ''Command''"
| "payload_type (PDiscoInfo d) = ''DiscoInfo''"
| "payload_type (PDiscoItems d) = ''DiscoItems''"
| "payload_type (PRoster r) = ''Roster''"
| "payload_type (PRosterItems r) = ''RosterItems''"
| "payload_type (PVersion v) = ''Version''"
| "payload_type (PControlSet c) = ''ControlSet''"
| "payload_type (PMsgExt e) = extension_type e"
| "payload_type (PExt ty t) = ty"

lemma payload_registered:
  assumes "payload_ok p"
  shows "GetExtensionType PKTIQ (payload_name p) TypeRegistry = Some (payload_type (payload_read p))"
  using assms
  by (cases p; simp add: payload_name_def bind_elem_def stream_session_elem_def pubsub_elem_def pubsub_owner_elem_def
      command_elem_def disco_info_elem_def disco_items_elem_def roster_elem_def roster_items_elem_def version_elem_def control_set_elem_def
      NSControl_def NSBind_def NSSession_def NSPubSub_def NSPubSubOwner_def NSCommands_def NSDiscoInfo_def NSDiscoItems_def NSRoster_def
      NSVersion_def registration_simps)

lemma payload_of_elem:
  assumes "payload_ok p" "payload_elem p = Some t"
  shows "payload_of (payload_type (payload_read p)) (on_wire ns t) = Inr (payload_read p)"
  using assms
  by (cases p; auto simp: payload_of_def decode_bind_elem decode_stream_session_elem decode_pubsub_elem owner_of_elem
      command_of_elem decode_disco_info_elem decode_disco_items_elem decode_roster_items_elem decode_version_elem roster_as_items
      decode_control_set_elem)


subsection \<open>Stanzas\<close>

definition attrs_attrs :: "attrs \<Rightarrow> xattr list" where
  "attrs_attrs a = opt_attr ''type'' (aType a) @ opt_attr ''id'' (aId a) @ opt_attr ''from'' (aFrom a)
     @ opt_attr ''to'' (aTo a) @ opt_attr ''lang'' (aLang a)"

text \<open>\<^verbatim>\<open>Err.MarshalXML\<close> as a list of elements, empty for an error without a code.\<close>

definition err_elems :: "err \<Rightarrow> xml list" where
  "err_elems x =
     (if errCode x = 0 then []
      else [Elem (plain_name ''error'')
        ((plain_name ''code'', Itoa (errCode x)) # opt_attr ''type'' (errType x))
        ((if errReason x \<noteq> [] then [Elem (XName NSStanzas (errReason x)) [] []] else [])
         @ (if errText x \<noteq> [] then [Elem (XName NSStanzas ''text'') [] [Text (errText x)]] else []))])"

lemma err_elems_tokens: "concat (map xml_tokens (err_elems x)) = Err_tokens x"
  by (simp add: err_elems_def Err_tokens_def opt_attr_def plain_name_def Let_def)

definition opt_payload :: "payload option \<Rightarrow> xml list" where
  "opt_payload p = (case p of None \<Rightarrow> [] | Some q \<Rightarrow> maybe id (payload_elem q))"

definition iq_elem :: "iq \<Rightarrow> xml" where
  "iq_elem i =
     Elem (plain_name ''iq'') (attrs_attrs (iqAttrs i))
       (opt_payload (iqPayload i) @ concat (maybe err_elems (iqError i)) @ maybe node_elem (iqAny i))"

definition message_elem :: "message \<Rightarrow> xml" where
  "message_elem m =
     Elem (plain_name ''message'') (attrs_attrs (msgAttrs m))
       (opt_elem ''subject'' (msgSubject m) @ opt_elem ''body'' (msgBody m) @ opt_elem ''thread'' (msgThread m)
        @ err_elems (msgError m) @ concat (map (\<lambda>p. maybe id (payload_elem p)) (msgExtensions m)))"

definition presence_elem :: "presence \<Rightarrow> xml" where
  "presence_elem p =
     Elem (plain_name ''presence'') (attrs_attrs (presAttrs p))
       (opt_elem ''show'' (presShow p) @ opt_elem ''status'' (presStatus p)
        @ (if presPriority p = 0 then [] else [int_elem ''priority'' (presPriority p)])
        @ err_elems (presError p) @ concat (map (\<lambda>p. maybe id (payload_elem p)) (presExtensions p)))"

lemma is_elem_stanza [simp]:
  "is_elem (\<lambda>_. True) (iq_elem i)" "is_elem (\<lambda>_. True) (message_elem m)" "is_elem (\<lambda>_. True) (presence_elem p)"
  by (simp_all add: iq_elem_def message_elem_def presence_elem_def)

lemma fold_attrs:
  "fold IQ_attr (attrs_attrs a) zero_attrs = a\<lparr>aLang := []\<rparr>"
  "fold stanza_attr (attrs_attrs a) zero_attrs = a"
  by (cases a; simp add: attrs_attrs_def opt_attr_def IQ_attr_def stanza_attr_def zero_attrs_def Let_def)+

lemma IQ_start_elem: "IQ_start n (attrs_attrs a) = zero_iq\<lparr>iqXMLName := n, iqAttrs := a\<lparr>aLang := []\<rparr>\<rparr>"
  by (simp add: IQ_start_def fold_attrs)

lemma iq_on_tree: "on_tree (DecodeIQ package_codec) (Elem n at kids) = fold_result IQ_step (elements kids) (IQ_start n at)"
  unfolding on_tree_def DecodeIQ_def IQ_UnmarshalXML_def xml.case unmarshalInterface_tree [OF exact_IQ_child]
  by (cases "fold_result IQ_step (elements kids) (IQ_start n at)") simp_all

text \<open>What a peer that runs the same library reads of an IQ.\<close>

definition over_wire :: "iq \<Rightarrow> error + iq" where
  "over_wire i = Unmarshal (DecodeIQ package_codec) (rescan [] (xml_tokens (iq_elem i)))"

lemma iq_on_wire:
  assumes "iqPayload i = Some p" "payload_ok p" "iqError i = None" "iqAny i = None"
  obtains k where "on_wire ns (iq_elem i) = Elem (XName ns ''iq'') (attrs_attrs (iqAttrs i)) [k]" "elements [k] = [k]"
    "\<And>s. IQ_step k s = Inr (s\<lparr>iqPayload := Some (payload_read p)\<rparr>)"
proof -
  obtain t where t: "payload_elem p = Some t" "is_elem (\<lambda>_. True) t" "elem_name (on_wire ns t) = payload_name p"
      "nLocal (payload_name p) \<noteq> ''error''"
    using payload_named [OF assms(2)] by metis
  have "IQ_step (on_wire ns t) s = Inr (s\<lparr>iqPayload := Some (payload_read p)\<rparr>)" for s
    using t(4) by (simp add: IQ_step_def t(3) payload_registered [OF assms(2)] payload_of_elem [OF assms(2) t(1)])
  moreover have "on_wire ns (iq_elem i) = Elem (XName ns ''iq'') (attrs_attrs (iqAttrs i)) [on_wire ns t]"
    using assms t(1) by (simp add: iq_elem_def opt_payload_def)
  moreover have "elements [on_wire ns t] = [on_wire ns t]" using t(2) is_elem_wire [of ns t] by (simp add: elements_def)
  ultimately show thesis by (intro that)
qed

lemma iq_roundtrip:
  assumes "iqPayload i = Some p" "payload_ok p" "iqError i = None" "iqAny i = None"
  shows "over_wire i
    = Inr (i\<lparr>iqXMLName := XName [] ''iq'', iqAttrs := (iqAttrs i)\<lparr>aLang := []\<rparr>, iqPayload := Some (payload_read p)\<rparr>)"
proof -
  obtain k where k: "on_wire [] (iq_elem i) = Elem (XName [] ''iq'') (attrs_attrs (iqAttrs i)) [k]" "elements [k] = [k]"
    "\<And>s. IQ_step k s = Inr (s\<lparr>iqPayload := Some (payload_read p)\<rparr>)"
    using iq_on_wire [OF assms] by metis
  have "is_elem (\<lambda>_. True) (iq_elem i)" by (simp add: iq_elem_def)
  with k assms show ?thesis
    by (cases i) (simp add: over_wire_def Unmarshal_on_tree iq_on_tree IQ_start_elem zero_iq_def)
qed

text \<open>
  C6. What a peer that uses the library reads of an IQ that carries a payload: the same addresses, type
  and identifier, and the payload with the element names filled in and without what the decoders
  lose (\<open>payload_read\<close>). They lose the result set of an owner payload; a roster query is read as an
  empty list of items; a command loses its error conditions and its result set, the last of which
  replaces the command element, and its actions or its note are read as a generic node. The language of
  the IQ is not read. Forms, integers and generic nodes in the payload are ones that the encoder
  prints without loss (\<open>payload_ok\<close>), and the payload is not an event, a form of its own or an extension of
  messages.
\<close>

theorem request_roundtrip:
  assumes "iqPayload i = Some p" "payload_ok p" "iqError i = None" "iqAny i = None"
  shows "over_wire i
    = Inr (i\<lparr>iqXMLName := XName [] ''iq'', iqAttrs := (iqAttrs i)\<lparr>aLang := []\<rparr>, iqPayload := Some (payload_read p)\<rparr>)"
  by (rule iq_roundtrip [OF assms])

definition error_ok :: "err \<Rightarrow> bool" where
  "error_ok x \<longleftrightarrow> x = zero_err \<or> errCode x \<noteq> 0 \<and> go_int (errCode x) \<and> errReason x \<notin> {''text'', ''gone''}"

definition error_read :: "err \<Rightarrow> err" where
  "error_read x = (if errCode x = 0 then x else x\<lparr>errXMLName := XName [] ''error''\<rparr>)"

lemma err_elems_wire: "map (on_wire []) (err_elems x) = (if errCode x = 0 then [] else [err_tree x])"
  by (simp add: err_elems_def err_tree_def opt_attr_def NSStanzas_def plain_name_def)

lemma err_of_error_ok: "error_ok x \<Longrightarrow> errCode x \<noteq> 0 \<Longrightarrow> err_of zero_err (err_tree x) = Inr (error_read x)"
  using err_of_tree [of x] by (auto simp: error_ok_def error_read_def go_int_def zero_err_def)

lemma message_on_tree:
  "avoids Message_known n kids \<Longrightarrow>
     on_tree (DecodeMessage package_codec) (Elem n at kids) = fold_result Message_step (spliced Message_known kids) (Message_start n at)"
  unfolding on_tree_def DecodeMessage_def Message_UnmarshalXML_def xml.case
  by (cases "fold_result Message_step (spliced Message_known kids) (Message_start n at)")
    (simp_all add: unmarshalInterface_spliced [OF passes_Message_child])

lemma presence_on_tree:
  "avoids Presence_known n kids \<Longrightarrow>
     on_tree (DecodePresence package_codec) (Elem n at kids) = fold_result Presence_step (spliced Presence_known kids) (Presence_start n at)"
  unfolding on_tree_def DecodePresence_def Presence_UnmarshalXML_def xml.case
  by (cases "fold_result Presence_step (spliced Presence_known kids) (Presence_start n at)")
    (simp_all add: unmarshalInterface_spliced [OF passes_Presence_child])

lemma stanza_names:
  "l \<in> {''body'', ''thread'', ''subject'', ''error''} \<Longrightarrow> GetExtensionType PKTMessage (XName [] l) TypeRegistry = None"
  "l \<in> {''show'', ''status'', ''priority'', ''error''} \<Longrightarrow> GetExtensionType PKTPresence (XName [] l) TypeRegistry = None"
  by (auto simp: registration_simps)

text \<open>A list of known elements is decoded as it is.\<close>

lemma known_list:
  "list_all (is_elem known) ts \<Longrightarrow> spliced known ts = ts \<and> avoids known n ts"
  by (induction ts) (auto elim!: is_elem.elims)

lemma Message_step_elem:
  "Message_step (on_wire [] (text_elem ''subject'' v)) m = Inr (m\<lparr>msgSubject := v\<rparr>)"
  "Message_step (on_wire [] (text_elem ''body'' v)) m = Inr (m\<lparr>msgBody := v\<rparr>)"
  "Message_step (on_wire [] (text_elem ''thread'' v)) m = Inr (m\<lparr>msgThread := v\<rparr>)"
  "Message_step (err_tree x) m = bind_result (err_of (msgError m) (err_tree x)) (\<lambda>e. Inr (m\<lparr>msgError := e\<rparr>))"
  by (simp_all add: Message_step_def stanza_names, simp add: err_tree_def stanza_names)

lemma is_elem_name: "is_elem known t \<longleftrightarrow> is_elem (\<lambda>_. True) t \<and> known (elem_name t)"
  by (cases t) simp_all

lemma is_elem_err_tree: "is_elem (\<lambda>_. True) (err_tree x)" "elem_name (err_tree x) = XName [] ''error''"
  by (simp_all add: err_tree_def)

lemma Message_known_names: "l \<in> {''body'', ''thread'', ''subject'', ''error''} \<Longrightarrow> Message_known (XName [] l)"
  by (auto simp: Message_known_def)

lemma Presence_known_names: "l \<in> {''show'', ''status'', ''priority'', ''error''} \<Longrightarrow> Presence_known (XName [] l)"
  by (auto simp: Presence_known_def)

text \<open>The extensions of messages that are printed, as the decoder finds them.\<close>

fun ext_elem :: "payload \<Rightarrow> xml" where
  "ext_elem (PMsgExt e) = extension_elem e"
| "ext_elem p = Text []"

fun ext_ok :: "payload \<Rightarrow> bool" where
  "ext_ok (PMsgExt e) = True"
| "ext_ok p = False"

lemma extension_registered:
  "GetExtensionType PKTMessage (elem_name (on_wire ns (extension_elem e))) TypeRegistry = Some (extension_type e)"
  by (cases e) (simp_all add: empty_elem_def id_elem_def extension_spaces registration_simps)

lemma Message_step_extension:
  "Message_step (on_wire ns (extension_elem e)) m = Inr (m\<lparr>msgExtensions := msgExtensions m @ [PMsgExt e]\<rparr>)"
proof -
  obtain dec where "map_of extension_decoders (extension_type e) = Some dec" "dec (on_wire ns (extension_elem e)) = Inr e"
    using decode_extension_elem by blast
  then have "payload_of (extension_type e) (on_wire ns (extension_elem e)) = Inr (PMsgExt e)"
    by (cases e) (simp_all add: payload_of_def)
  then show ?thesis by (simp add: Message_step_def extension_registered)
qed

lemma message_extensions:
  assumes "list_all ext_ok es"
  shows "concat (map (\<lambda>p. maybe id (payload_elem p)) es) = map ext_elem es"
    and "fold_result Message_step (map (on_wire ns \<circ> ext_elem) es) m = Inr (m\<lparr>msgExtensions := msgExtensions m @ es\<rparr>)"
    and "list_all (is_elem Message_known) (map (on_wire ns \<circ> ext_elem) es)"
proof -
  have ext: "\<exists>e. p = PMsgExt e" if "ext_ok p" for p using that by (cases p) auto
  show "concat (map (\<lambda>p. maybe id (payload_elem p)) es) = map ext_elem es"
    using assms by (induction es) (auto dest!: ext)
  show "fold_result Message_step (map (on_wire ns \<circ> ext_elem) es) m = Inr (m\<lparr>msgExtensions := msgExtensions m @ es\<rparr>)"
    using assms by (induction es arbitrary: m) (auto dest!: ext simp: Message_step_extension)
  show "list_all (is_elem Message_known) (map (on_wire ns \<circ> ext_elem) es)"
    using assms by (induction es) (auto dest!: ext simp: is_elem_name [of Message_known] Message_known_def extension_registered)
qed

text \<open>
  C25. A message is read as it was built: its addresses, subject, body, thread and error, and its
  chat markers, chat states, hints, receipts and out-of-band data, in their order; unless the
  reason of the error has the name of one of its other children.
\<close>

theorem message_roundtrip:
  assumes "error_ok (msgError m)" "list_all ext_ok (msgExtensions m)"
  shows "Unmarshal (DecodeMessage package_codec) (rescan [] (xml_tokens (message_elem m)))
    = Inr (m\<lparr>msgXMLName := XName [] ''message'', msgError := error_read (msgError m)\<rparr>)"
proof -
  let ?exts = "map (on_wire [] \<circ> ext_elem) (msgExtensions m)"
  let ?kids = "map (on_wire []) (opt_elem ''subject'' (msgSubject m) @ opt_elem ''body'' (msgBody m) @ opt_elem ''thread'' (msgThread m))
    @ (if errCode (msgError m) = 0 then [] else [err_tree (msgError m)]) @ ?exts"
  note exts = message_extensions [OF assms(2)]
  have "list_all (is_elem Message_known) ?kids"
    using exts(3) by (simp add: opt_elem_def is_elem_name [of Message_known] is_elem_err_tree Message_known_names)
  note kids = known_list [OF this]
  have "on_wire [] (message_elem m) = Elem (XName [] ''message'') (attrs_attrs (msgAttrs m)) ?kids"
    using exts(1) by (simp add: message_elem_def err_elems_wire)
  moreover have "msgError m = zero_err" if "errCode (msgError m) = 0"
    using assms(1) that by (simp add: error_ok_def)
  ultimately show ?thesis
    using assms kids [of "XName [] ''message''"] exts(2)
    by (cases m) (auto simp: Unmarshal_on_tree message_on_tree Message_start_def fold_attrs zero_message_def opt_elem_def
        Message_step_elem err_of_error_ok error_read_def fold_result_append)
qed

definition sample_pubsub_request :: iq where
  "sample_pubsub_request = zero_iq\<lparr>iqAttrs := zero_attrs\<lparr>aType := ''set'', aId := ''1'', aTo := ''pubsub.shakespeare.lit''\<rparr>,
     iqPayload := Some (PPubSub sample_pubsub)\<rparr>"

lemma sample_pubsub_ok: "pubsub_ok sample_pubsub"
  by (simp add: pubsub_ok_def sample_pubsub_def zero_pubsub_def form_ok_def sample_form_def NewForm_def zero_form_def
      fresh_or_named_def zero_form_item_def item_ok_def zero_item_def sample_node_def plain_attr_def not_xmlns_def
      xmlElementMaxDepth_def)

theorem request_roundtrip_witness:
  "over_wire sample_pubsub_request
    = Inr (sample_pubsub_request\<lparr>iqXMLName := XName [] ''iq'', iqPayload := Some (PPubSub (pubsub_read sample_pubsub))\<rparr>)"
  using request_roundtrip [of sample_pubsub_request "PPubSub sample_pubsub"] sample_pubsub_ok
  by (simp add: sample_pubsub_request_def zero_iq_def zero_attrs_def)

definition sample_message :: message where
  "sample_message = (NewMessage (zero_attrs\<lparr>aTo := ''romeo@example.net'', aLang := ''en''\<rparr>))
     \<lparr>msgBody := ''Wherefore art thou'', msgError := sample_err, msgExtensions := [PMsgExt ReceiptRequest, PMsgExt (OOB ''http://a'' ''b'')]\<rparr>"

theorem message_roundtrip_witness:
  "\<exists>m. Unmarshal (DecodeMessage package_codec) (rescan [] (xml_tokens (message_elem sample_message))) = Inr m
    \<and> msgBody m = ''Wherefore art thou'' \<and> errCode (msgError m) = 503
    \<and> msgExtensions m = [PMsgExt ReceiptRequest, PMsgExt (OOB ''http://a'' ''b'')]"
  using message_roundtrip [of sample_message]
  by (simp add: sample_message_def NewMessage_def zero_message_def error_ok_def sample_err_def error_read_def
      go_int_def int_min_def int_max_def)

lemma Presence_step_elem:
  "Presence_step (on_wire [] (text_elem ''show'' v)) p = Inr (p\<lparr>presShow := v\<rparr>)"
  "Presence_step (on_wire [] (text_elem ''status'' v)) p = Inr (p\<lparr>presStatus := v\<rparr>)"
  "-128 \<le> i \<Longrightarrow> i < 128 \<Longrightarrow> Presence_step (on_wire [] (int_elem ''priority'' i)) p = Inr (p\<lparr>presPriority := i\<rparr>)"
  "Presence_step (err_tree x) p = bind_result (err_of (presError p) (err_tree x)) (\<lambda>e. Inr (p\<lparr>presError := e\<rparr>))"
  by (simp_all add: Presence_step_def stanza_names decode_int8_def xml_int_Itoa_bits go_int_def int_min_def int_max_def,
      simp add: err_tree_def stanza_names)

text \<open>The same for a presence, whose priority is a signed byte.\<close>

theorem presence_roundtrip:
  assumes "error_ok (presError p)" "presExtensions p = []" "-128 \<le> presPriority p" "presPriority p < 128"
  shows "Unmarshal (DecodePresence package_codec) (rescan [] (xml_tokens (presence_elem p)))
    = Inr (p\<lparr>presXMLName := XName [] ''presence'', presError := error_read (presError p)\<rparr>)"
proof -
  let ?kids = "map (on_wire []) (opt_elem ''show'' (presShow p) @ opt_elem ''status'' (presStatus p)
      @ (if presPriority p = 0 then [] else [int_elem ''priority'' (presPriority p)]))
    @ (if errCode (presError p) = 0 then [] else [err_tree (presError p)])"
  have "list_all (is_elem Presence_known) ?kids"
    by (simp add: opt_elem_def is_elem_name [of Presence_known] is_elem_err_tree Presence_known_names)
  note kids = known_list [OF this]
  have "on_wire [] (presence_elem p) = Elem (XName [] ''presence'') (attrs_attrs (presAttrs p)) ?kids"
    using assms(2) by (simp add: presence_elem_def err_elems_wire)
  moreover have "presError p = zero_err" if "errCode (presError p) = 0"
    using assms(1) that by (simp add: error_ok_def)
  ultimately show ?thesis
    using assms kids [of "XName [] ''presence''"]
    by (cases p) (auto simp: Unmarshal_on_tree presence_on_tree Presence_start_def fold_attrs zero_presence_def opt_elem_def
        Presence_step_elem err_of_error_ok error_read_def)
qed

definition sample_presence :: presence where
  "sample_presence = (NewPresence zero_attrs)\<lparr>presShow := ''away'', presPriority := -7\<rparr>"

theorem presence_roundtrip_witness:
  "\<exists>p. Unmarshal (DecodePresence package_codec) (rescan [] (xml_tokens (presence_elem sample_presence))) = Inr p
    \<and> presPriority p = -7"
  using presence_roundtrip [of sample_presence]
  by (simp add: sample_presence_def NewPresence_def zero_presence_def error_ok_def)

subsection \<open>Extensions of a stanza\<close>

text \<open>
  \<^verbatim>\<open>Message.Get\<close> and \<^verbatim>\<open>Presence.Get\<close>: the first extension of the type of the target, which it
  is copied into. The caller passes a pointer, and the extensions are pointers.
\<close>

definition Message_Get :: "gotype \<Rightarrow> message \<Rightarrow> payload option" where
  "Message_Get ty m = find (\<lambda>e. payload_type e = ty) (msgExtensions m)"

definition Presence_Get :: "gotype \<Rightarrow> presence \<Rightarrow> payload option" where
  "Presence_Get ty p = find (\<lambda>e. payload_type e = ty) (presExtensions p)"

end
