(* ===== verification/Requests.thy ===== *)
theory Requests
  imports PayloadWire
begin

text \<open>
  The functions of the package \<^verbatim>\<open>stanza\<close> that build requests: publish-subscribe
  (\<^verbatim>\<open>pubsub.go\<close>), its owner use cases and commands (\<^verbatim>\<open>pubsub_owner.go\<close>), and the methods of
  \<^verbatim>\<open>IQ\<close> that put a query into it (\<^verbatim>\<open>iq_disco.go\<close>, \<^verbatim>\<open>iq_roster.go\<close>, \<^verbatim>\<open>iq_version.go\<close>); and
  \<^verbatim>\<open>GetFormFields\<close>, which reads the form of an answer. \<open>uuid\<close> is the outcome of
  \<^verbatim>\<open>uuid.NewRandom\<close>. A form, an item or a list is a value here: that a request shares it with
  its caller is not modelled.
\<close>

definition request :: "error + string \<Rightarrow> string \<Rightarrow> string \<Rightarrow> payload \<Rightarrow> error + iq" where
  "request uuid ty serviceId p =
     bind_result (NewIQ uuid (zero_attrs\<lparr>aType := ty, aTo := serviceId\<rparr>)) (\<lambda>i. Inr (i\<lparr>iqPayload := Some p\<rparr>))"

subsection \<open>Publish-subscribe\<close>

definition NewSubRq :: "error + string \<Rightarrow> string \<Rightarrow> sub_info \<Rightarrow> error + iq" where
  "NewSubRq uuid serviceId subInfo =
     bind_result (SubInfo_validate subInfo) (\<lambda>_.
       request uuid ''set'' serviceId (PPubSub (zero_pubsub\<lparr>psSubscribe := Some subInfo\<rparr>)))"

definition NewUnsubRq :: "error + string \<Rightarrow> string \<Rightarrow> sub_info \<Rightarrow> error + iq" where
  "NewUnsubRq uuid serviceId subInfo =
     bind_result (SubInfo_validate subInfo) (\<lambda>_.
       request uuid ''set'' serviceId (PPubSub (zero_pubsub\<lparr>psUnsubscribe := Some subInfo\<rparr>)))"

definition NewSubOptsRq :: "error + string \<Rightarrow> string \<Rightarrow> sub_info \<Rightarrow> error + iq" where
  "NewSubOptsRq uuid serviceId subInfo =
     bind_result (SubInfo_validate subInfo) (\<lambda>_.
       request uuid ''get'' serviceId (PPubSub (zero_pubsub\<lparr>psSubOptions := Some (zero_sub_options\<lparr>soSubInfo := subInfo\<rparr>)\<rparr>)))"

text \<open>Reading \<^verbatim>\<open>form.Type\<close> of a nil form panics.\<close>

definition expect_submit :: "form option \<Rightarrow> error + form" where
  "expect_submit fo =
     (case fo of
        None \<Rightarrow> Inl nil_pointer
      | Some f \<Rightarrow>
          if fmType f \<noteq> ''submit'' then Inl (Err (''form type was expected to be submit but was : '' @ fmType f))
          else Inr f)"

definition NewFormSubmission :: "error + string \<Rightarrow> string \<Rightarrow> sub_info \<Rightarrow> form option \<Rightarrow> error + iq" where
  "NewFormSubmission uuid serviceId subInfo fo =
     bind_result (SubInfo_validate subInfo) (\<lambda>_.
     bind_result (expect_submit fo) (\<lambda>f.
       request uuid ''set'' serviceId (PPubSub (zero_pubsub\<lparr>psSubOptions := Some \<lparr>soSubInfo = subInfo, soForm = Some f\<rparr>\<rparr>))))"

definition NewSubAndConfig :: "error + string \<Rightarrow> string \<Rightarrow> sub_info \<Rightarrow> form option \<Rightarrow> error + iq" where
  "NewSubAndConfig uuid serviceId subInfo fo =
     bind_result (SubInfo_validate subInfo) (\<lambda>_.
     bind_result (expect_submit fo) (\<lambda>f.
       request uuid ''set'' serviceId
         (PPubSub (zero_pubsub\<lparr>psSubscribe := Some subInfo,
            psSubOptions := Some \<lparr>soSubInfo = zero_sub_info\<lparr>siSubId := siSubId subInfo\<rparr>, soForm = Some f\<rparr>\<rparr>))))"

definition NewItemsRequest :: "error + string \<Rightarrow> string \<Rightarrow> string \<Rightarrow> int \<Rightarrow> error + iq" where
  "NewItemsRequest uuid serviceId node maxItems =
     request uuid ''get'' serviceId
       (PPubSub (zero_pubsub\<lparr>psItems := Some (zero_items\<lparr>isNode := node, isMaxItems := if maxItems \<noteq> 0 then maxItems else 0\<rparr>)\<rparr>))"

definition NewSpecificItemRequest :: "error + string \<Rightarrow> string \<Rightarrow> string \<Rightarrow> string \<Rightarrow> error + iq" where
  "NewSpecificItemRequest uuid serviceId node itemId =
     request uuid ''get'' serviceId
       (PPubSub (zero_pubsub\<lparr>psItems := Some (zero_items\<lparr>isNode := node, isList := [zero_item\<lparr>itId := itemId\<rparr>]\<rparr>)\<rparr>))"

definition NewPublishItemRq :: "error + string \<Rightarrow> string \<Rightarrow> string \<Rightarrow> string \<Rightarrow> item \<Rightarrow> error + iq" where
  "NewPublishItemRq uuid serviceId nodeID pubItemID item =
     (if TrimSpace_is_empty nodeID then Inl (Err ''cannot publish without a target node ID'')
      else
        let item' = (if \<not> TrimSpace_is_empty pubItemID then item\<lparr>itId := pubItemID\<rparr> else item) in
        request uuid ''set'' serviceId (PPubSub (zero_pubsub\<lparr>psPublish := Some \<lparr>pubNode = nodeID, pubItems = [item']\<rparr>\<rparr>)))"

definition NewPublishItemOptsRq ::
  "error + string \<Rightarrow> string \<Rightarrow> string \<Rightarrow> item list \<Rightarrow> form option option \<Rightarrow> error + iq" where
  "NewPublishItemOptsRq uuid serviceId nodeID items options =
     (if TrimSpace_is_empty nodeID then Inl (Err ''cannot publish without a target node ID'')
      else request uuid ''set'' serviceId
        (PPubSub (zero_pubsub\<lparr>psPublish := Some \<lparr>pubNode = nodeID, pubItems = items\<rparr>, psPublishOptions := options\<rparr>)))"

definition NewDelItemFromNode ::
  "error + string \<Rightarrow> string \<Rightarrow> string \<Rightarrow> string \<Rightarrow> bool option \<Rightarrow> error + iq" where
  "NewDelItemFromNode uuid serviceId nodeID itemId notify =
     (if TrimSpace_is_empty nodeID then Inl (Err ''cannot delete item without a target node ID'')
      else request uuid ''set'' serviceId
        (PPubSub (zero_pubsub\<lparr>psRetract := Some \<lparr>rtNode = nodeID, rtNotify = notify, rtItems = [zero_item\<lparr>itId := itemId\<rparr>]\<rparr>\<rparr>)))"

definition NewCreateAndConfigNode :: "error + string \<Rightarrow> string \<Rightarrow> string \<Rightarrow> form option \<Rightarrow> error + iq" where
  "NewCreateAndConfigNode uuid serviceId nodeID confForm =
     request uuid ''set'' serviceId (PPubSub (zero_pubsub\<lparr>psCreate := Some nodeID, psConfigure := Some confForm\<rparr>))"

definition NewCreateNode :: "error + string \<Rightarrow> string \<Rightarrow> string \<Rightarrow> error + iq" where
  "NewCreateNode uuid serviceId nodeName = request uuid ''set'' serviceId (PPubSub (zero_pubsub\<lparr>psCreate := Some nodeName\<rparr>))"

definition NewRetrieveAllSubsRequest :: "error + string \<Rightarrow> string \<Rightarrow> error + iq" where
  "NewRetrieveAllSubsRequest uuid serviceId = request uuid ''get'' serviceId (PPubSub (zero_pubsub\<lparr>psSubscriptions := Some []\<rparr>))"

definition NewRetrieveAllAffilsRequest :: "error + string \<Rightarrow> string \<Rightarrow> error + iq" where
  "NewRetrieveAllAffilsRequest uuid serviceId =
     request uuid ''get'' serviceId (PPubSub (zero_pubsub\<lparr>psAffiliations := Some zero_affiliations\<rparr>))"

subsection \<open>Owner use cases\<close>

definition owner_request :: "error + string \<Rightarrow> string \<Rightarrow> string \<Rightarrow> owner_use_case \<Rightarrow> error + iq" where
  "owner_request uuid ty serviceId u = request uuid ty serviceId (PPubSubOwner (zero_pubsub_owner\<lparr>poOwnerUseCase := Some u\<rparr>))"

definition NewConfigureNode :: "error + string \<Rightarrow> string \<Rightarrow> string \<Rightarrow> error + iq" where
  "NewConfigureNode uuid serviceId nodeName = owner_request uuid ''get'' serviceId (ConfigureOwner nodeName None)"

definition NewDelNode :: "error + string \<Rightarrow> string \<Rightarrow> string \<Rightarrow> error + iq" where
  "NewDelNode uuid serviceId nodeID =
     (if TrimSpace_is_empty nodeID then Inl (Err ''cannot delete a node without a target node ID'')
      else owner_request uuid ''set'' serviceId (DeleteOwner None nodeID))"

definition NewPurgeAllItems :: "error + string \<Rightarrow> string \<Rightarrow> string \<Rightarrow> error + iq" where
  "NewPurgeAllItems uuid serviceId nodeId = owner_request uuid ''set'' serviceId (PurgeOwner nodeId)"

definition NewRequestDefaultConfig :: "error + string \<Rightarrow> string \<Rightarrow> error + iq" where
  "NewRequestDefaultConfig uuid serviceId = owner_request uuid ''get'' serviceId (DefaultOwner None)"

definition NewApproveSubRequest :: "string \<Rightarrow> string \<Rightarrow> form option \<Rightarrow> error + message" where
  "NewApproveSubRequest serviceId reqID apprForm =
     (if serviceId = [] then Inl (Err ''need a target service serviceId send approval serviceId'')
      else if reqID = [] then Inl (Err ''the request ID is empty but must be used for the approval'')
      else
        (case apprForm of
           None \<Rightarrow> Inl (Err ''approval form is nil'')
         | Some f \<Rightarrow>
             let apprMess = NewMessage (zero_attrs\<lparr>aTo := serviceId\<rparr>) in
             Inr (apprMess\<lparr>msgExtensions := [PForm f], msgAttrs := (msgAttrs apprMess)\<lparr>aId := reqID\<rparr>\<rparr>)))"

definition get_pending :: string where
  "get_pending = ''http://jabber.org/protocol/pubsub#get-pending''"

definition NewGetPendingSubRequests :: "error + string \<Rightarrow> string \<Rightarrow> error + iq" where
  "NewGetPendingSubRequests uuid serviceId =
     request uuid ''set'' serviceId (PCommand (zero_command\<lparr>cmNode := get_pending, cmAction := ''execute''\<rparr>))"

definition pending_form :: "string \<Rightarrow> form" where
  "pending_form nodeId = zero_form\<lparr>fmType := ''submit'', fmFields := [zero_field\<lparr>fiVar := ''pubsub#node'', fiValuesList := [nodeId]\<rparr>]\<rparr>"

definition NewApprovePendingSubRequest :: "error + string \<Rightarrow> string \<Rightarrow> string \<Rightarrow> string \<Rightarrow> error + iq" where
  "NewApprovePendingSubRequest uuid serviceId sessionId nodeId =
     (if sessionId = [] then Inl (Err ''the sessionId must be maintained for the command'')
      else
        bind_result (Unmarshal DecodeNode (rescan [] (xml_tokens (form_elem (pending_form nodeId))))) (\<lambda>n.
          request uuid ''set'' serviceId
            (PCommand (zero_command\<lparr>cmNode := get_pending, cmAction := ''execute'', cmSessionId := sessionId,
               cmCommandElement := Some (CENode n)\<rparr>))))"

definition NewSubListRqPl :: "error + string \<Rightarrow> string \<Rightarrow> string \<Rightarrow> error + iq" where
  "NewSubListRqPl uuid serviceId nodeID = owner_request uuid ''get'' serviceId (SubscriptionsOwner [] nodeID)"

definition NewSubsForEntitiesRequest :: "error + string \<Rightarrow> string \<Rightarrow> string \<Rightarrow> subscription_owner list \<Rightarrow> error + iq" where
  "NewSubsForEntitiesRequest uuid serviceId nodeID subs = owner_request uuid ''set'' serviceId (SubscriptionsOwner subs nodeID)"

definition NewModifAffiliationRequest :: "error + string \<Rightarrow> string \<Rightarrow> string \<Rightarrow> affiliation_owner list \<Rightarrow> error + iq" where
  "NewModifAffiliationRequest uuid serviceId nodeID newAffils = owner_request uuid ''set'' serviceId (AffiliationsOwner newAffils nodeID)"

definition NewAffiliationListRequest :: "error + string \<Rightarrow> string \<Rightarrow> string \<Rightarrow> error + iq" where
  "NewAffiliationListRequest uuid serviceId nodeID = owner_request uuid ''get'' serviceId (AffiliationsOwner [] nodeID)"

definition NewFormSubmissionOwner :: "error + string \<Rightarrow> string \<Rightarrow> string \<Rightarrow> field list \<Rightarrow> error + iq" where
  "NewFormSubmissionOwner uuid serviceId nodeName fs =
     (if serviceId = [] \<or> nodeName = []
      then Inl (Err ''serviceId and nodeName must be filled for this request to be valid'')
      else owner_request uuid ''set'' serviceId (ConfigureOwner nodeName (Some (NewForm fs ''submit''))))"

subsection \<open>Queries\<close>

text \<open>
  \<^verbatim>\<open>IQ.DiscoInfo\<close> and its like store a fresh payload in the IQ and return a pointer to it; the
  program fills the payload in through that pointer, which is the argument \<open>fill\<close>.
\<close>

definition IQ_DiscoInfo :: "(disco_info \<Rightarrow> disco_info) \<Rightarrow> iq \<Rightarrow> iq" where
  "IQ_DiscoInfo fill i = i\<lparr>iqPayload := Some (PDiscoInfo (fill new_disco_info))\<rparr>"

definition IQ_DiscoItems :: "(disco_items \<Rightarrow> disco_items) \<Rightarrow> iq \<Rightarrow> iq" where
  "IQ_DiscoItems fill i = i\<lparr>iqPayload := Some (PDiscoItems (fill new_disco_items))\<rparr>"

definition IQ_RosterIQ :: "iq \<Rightarrow> iq" where
  "IQ_RosterIQ i = i\<lparr>iqPayload := Some (PRoster new_roster)\<rparr>"

definition IQ_RosterItems :: "(roster_items \<Rightarrow> roster_items) \<Rightarrow> iq \<Rightarrow> iq" where
  "IQ_RosterItems fill i = i\<lparr>iqPayload := Some (PRosterItems (fill new_roster_items))\<rparr>"

definition IQ_Version :: "(version \<Rightarrow> version) \<Rightarrow> iq \<Rightarrow> iq" where
  "IQ_Version fill i = i\<lparr>iqPayload := Some (PVersion (fill new_version))\<rparr>"

subsection \<open>The form of an answer\<close>

definition field_map :: "field list \<Rightarrow> string \<Rightarrow> field option" where
  "field_map fs = fold (\<lambda>f m. m(fiVar f \<mapsto> f)) fs (\<lambda>_. None)"

text \<open>\<^verbatim>\<open>xml.Marshal\<close> of a node and \<^verbatim>\<open>xml.Unmarshal\<close> into a field; an error skips the node.\<close>

definition field_of_node :: "node \<Rightarrow> field option" where
  "field_of_node n =
     (case Node_MarshalXML n of
        Inl _ \<Rightarrow> None
      | Inr ts \<Rightarrow> (case Unmarshal (decode_struct decode_field) (rescan [] ts) of Inl _ \<Rightarrow> None | Inr f \<Rightarrow> Some f))"

definition node_fields :: "node \<Rightarrow> field list" where
  "node_fields cmd =
     concat (map (\<lambda>nde. if nLocal (nodeXMLName nde) = ''x''
         then List.map_filter (\<lambda>n. if nLocal (nodeXMLName n) = ''field'' then field_of_node n else None) (nodeNodes nde)
         else []) (nodeNodes cmd))"

definition form_fields :: "form option \<Rightarrow> error + (string \<Rightarrow> field option)" where
  "form_fields fo = (case fo of None \<Rightarrow> Inl nil_pointer | Some f \<Rightarrow> Inr (field_map (fmFields f)))"

definition no_form :: error where
  "no_form = Err ''this IQ does not contain a form''"

definition IQ_GetFormFields :: "iq \<Rightarrow> error + (string \<Rightarrow> field option)" where
  "IQ_GetFormFields i =
     (if aType (iqAttrs i) \<noteq> ''result''
      then Inl (Err ''this IQ is not a result type IQ. Cannot extract the form from it'')
      else
        (case iqPayload i of
           Some (PPubSub p) \<Rightarrow> (case psConfigure p of None \<Rightarrow> Inl nil_pointer | Some fo \<Rightarrow> form_fields fo)
         | Some (PPubSubOwner p) \<Rightarrow>
             (case poOwnerUseCase p of
                Some (ConfigureOwner node fo) \<Rightarrow> form_fields fo
              | _ \<Rightarrow> Inl (Err ''this IQ does not contain a PubSub payload with a configure tag for the owner namespace''))
         | Some (PCommand c) \<Rightarrow>
             (case cmCommandElement c of
                Some (CEForm f) \<Rightarrow> form_fields (Some f)
              | _ \<Rightarrow> Inl (Err ''this IQ does not contain a command payload with a form''))
         | _ \<Rightarrow>
             (case iqAny i of
                None \<Rightarrow> Inl no_form
              | Some cmd \<Rightarrow>
                  if nLocal (nodeXMLName cmd) \<noteq> ''command'' then Inl no_form
                  else Inr (field_map (node_fields cmd)))))"

subsection \<open>Well-formed requests\<close>

lemma request_Inr:
  "request uuid ty s p = Inr i \<longleftrightarrow>
     \<not> StanzaType_IsEmpty ty
     \<and> i = zero_iq\<lparr>iqXMLName := XName [] ''iq'',
         iqAttrs := zero_attrs\<lparr>aType := ty, aId := (case uuid of Inr u \<Rightarrow> u | Inl _ \<Rightarrow> []), aTo := s\<rparr>, iqPayload := Some p\<rparr>"
  by (auto simp: request_def NewIQ_def Let_def zero_attrs_def zero_iq_def bind_result_Inr_iff split: sum.splits)

lemma type_nonempty [simp]: "\<not> StanzaType_IsEmpty ''get''" "\<not> StanzaType_IsEmpty ''set''"
  by (simp_all add: StanzaType_IsEmpty_def TrimSpace_is_empty_def runes_ascii is_ascii_def IsSpace_def)

definition well_formed :: "string \<Rightarrow> iq \<Rightarrow> bool" where
  "well_formed s i \<longleftrightarrow> aTo (iqAttrs i) = s \<and> aType (iqAttrs i) \<in> {''get'', ''set''} \<and> iqPayload i \<noteq> None \<and> fst (IQ_IsValid i)"

lemma request_well_formed:
  assumes "request (Inr u) ty s p = Inr i" "ty \<in> {''get'', ''set''}" "\<not> TrimSpace_is_empty u"
  shows "well_formed s i"
  using assms by (auto simp: request_Inr well_formed_def IQ_IsValid_def Let_def)

text \<open>All the requests of the package, with arguments of every kind; publish options may be absent.\<close>

definition requests ::
  "error + string \<Rightarrow> string \<Rightarrow> string \<Rightarrow> string \<Rightarrow> sub_info \<Rightarrow> form option \<Rightarrow> int \<Rightarrow> item \<Rightarrow> item list \<Rightarrow> bool option \<Rightarrow>
    subscription_owner list \<Rightarrow> affiliation_owner list \<Rightarrow> field list \<Rightarrow> (error + iq) list" where
  "requests uuid s n j si fo k it its nt subs afs fs =
     [NewSubRq uuid s si, NewUnsubRq uuid s si, NewSubOptsRq uuid s si, NewFormSubmission uuid s si fo,
      NewSubAndConfig uuid s si fo, NewItemsRequest uuid s n k, NewSpecificItemRequest uuid s n j,
      NewPublishItemRq uuid s n j it, NewPublishItemOptsRq uuid s n its (Some fo),
      NewPublishItemOptsRq uuid s n its None, NewDelItemFromNode uuid s n j nt,
      NewCreateAndConfigNode uuid s n fo, NewCreateNode uuid s n, NewRetrieveAllSubsRequest uuid s,
      NewRetrieveAllAffilsRequest uuid s, NewConfigureNode uuid s n, NewDelNode uuid s n, NewPurgeAllItems uuid s n,
      NewRequestDefaultConfig uuid s, NewGetPendingSubRequests uuid s, NewApprovePendingSubRequest uuid s j n,
      NewSubListRqPl uuid s n, NewSubsForEntitiesRequest uuid s n subs, NewModifAffiliationRequest uuid s n afs,
      NewAffiliationListRequest uuid s n, NewFormSubmissionOwner uuid s n fs]"

lemmas request_defs = NewSubRq_def NewUnsubRq_def NewSubOptsRq_def NewFormSubmission_def NewSubAndConfig_def
  NewItemsRequest_def NewSpecificItemRequest_def NewPublishItemRq_def NewPublishItemOptsRq_def NewDelItemFromNode_def
  NewCreateAndConfigNode_def NewCreateNode_def NewRetrieveAllSubsRequest_def NewRetrieveAllAffilsRequest_def
  NewConfigureNode_def NewDelNode_def NewPurgeAllItems_def NewRequestDefaultConfig_def NewGetPendingSubRequests_def
  NewApprovePendingSubRequest_def NewSubListRqPl_def NewSubsForEntitiesRequest_def NewModifAffiliationRequest_def
  NewAffiliationListRequest_def NewFormSubmissionOwner_def owner_request_def

definition made :: "error + string \<Rightarrow> string \<Rightarrow> error + iq \<Rightarrow> bool" where
  "made uuid s r \<longleftrightarrow> (\<forall>i. r = Inr i \<longrightarrow> (\<exists>ty p. ty \<in> {''get'', ''set''} \<and> request uuid ty s p = Inr i))"

lemma made_simps:
  "made uuid s (Inl e)"
  "made uuid s (request uuid ''get'' s p)"
  "made uuid s (request uuid ''set'' s p)"
  by (auto simp: made_def)

lemma made_bind: "(\<And>x. made uuid s (f x)) \<Longrightarrow> made uuid s (bind_result m f)"
  by (auto simp: made_def bind_result_Inr_iff)

lemma made_if: "made uuid s r \<Longrightarrow> made uuid s r' \<Longrightarrow> made uuid s (if b then r else r')"
  by (cases b) simp_all

lemma all_made: "list_all (made uuid s) (requests uuid s n j si fo k it its nt subs afs fs)"
  unfolding requests_def request_defs Let_def list.pred_inject
  by (intro conjI made_simps made_bind made_if list.pred_inject(1))

lemma made_by_request:
  assumes "Inr i \<in> set (requests uuid s n j si fo k it its nt subs afs fs)"
  shows "\<exists>ty p. ty \<in> {''get'', ''set''} \<and> request uuid ty s p = Inr i"
proof -
  have "made uuid s (Inr i)"
    by (rule bspec [OF all_made [unfolded list_all_iff] assms])
  then show ?thesis by (simp add: made_def)
qed

text \<open>
  C10. Every function of the package that builds a request returns, when it does not refuse its
  arguments, an IQ to the service asked for, of type get or set, with a payload, that passes the
  library's own check, provided that the random identifier is not blank.
\<close>

theorem requests_well_formed:
  assumes "Inr i \<in> set (requests (Inr u) s n j si fo k it its nt subs afs fs)" "\<not> TrimSpace_is_empty u"
  shows "well_formed s i"
  using made_by_request [OF assms(1)] request_well_formed assms(2) by blast

theorem requests_well_formed_witness:
  "\<exists>i. NewCreateNode (Inr ''u1'') ''pubsub.shakespeare.lit'' ''princely_musings'' = Inr i \<and> well_formed ''pubsub.shakespeare.lit'' i"
proof -
  obtain i where i: "NewCreateNode (Inr ''u1'') ''pubsub.shakespeare.lit'' ''princely_musings'' = Inr i"
    by (auto simp: NewCreateNode_def request_Inr)
  have "\<not> TrimSpace_is_empty ''u1''"
    by (simp add: TrimSpace_is_empty_def runes_ascii is_ascii_def IsSpace_def)
  then have "well_formed ''pubsub.shakespeare.lit'' i"
    by (intro requests_well_formed [where n = "''princely_musings''" and u = "''u1''" and j = "[]" and si = zero_sub_info
          and fo = None and k = 0 and it = zero_item and its = "[]" and nt = None and subs = "[]" and afs = "[]" and fs = "[]"])
      (simp add: requests_def flip: i)
  with i show ?thesis by blast
qed

subsection \<open>What the service reads\<close>

lemma request_over_wire:
  assumes "request uuid ty s p = Inr i" "payload_ok p"
  shows "over_wire i = Inr (i\<lparr>iqXMLName := XName [] ''iq'', iqPayload := Some (payload_read p)\<rparr>)"
proof -
  have "iqPayload i = Some p" "iqError i = None" "iqAny i = None" "(iqAttrs i)\<lparr>aLang := []\<rparr> = iqAttrs i"
    using assms(1) by (simp_all add: request_Inr zero_iq_def zero_attrs_def)
  with iq_roundtrip [OF this(1) assms(2) this(2,3)] show ?thesis by simp
qed

text \<open>
  C13. Subscribing with a configuration succeeds exactly for a valid subscriber, a node and a form
  of type submit (a missing form panics). The service then reads the subscription as it was
  asked for, and an element for the options that repeats neither the node nor the subscriber.
\<close>

theorem NewSubAndConfig_spec:
  assumes "all_opt form_ok fo"
  shows "case NewSubAndConfig uuid s si fo of
      Inl e \<Rightarrow> (if \<not> is_ok (NewJid (siJid si)) \<or> TrimSpace_is_empty (siNode si) then SubInfo_validate si = Inl e
         else if fo = None then e = nil_pointer
         else fmType (the fo) \<noteq> ''submit'' \<and> e = Err (''form type was expected to be submit but was : '' @ fmType (the fo)))
    | Inr i \<Rightarrow>
        (\<exists>f r p. fo = Some f \<and> fmType f = ''submit'' \<and> is_ok (NewJid (siJid si)) \<and> \<not> TrimSpace_is_empty (siNode si)
          \<and> over_wire i = Inr r \<and> aType (iqAttrs r) = ''set'' \<and> aTo (iqAttrs r) = s \<and> iqPayload r = Some (PPubSub p)
          \<and> psSubscribe p = Some si
          \<and> psSubOptions p = Some \<lparr>soSubInfo = \<lparr>siNode = [], siJid = [], siSubId = siSubId si\<rparr>, soForm = Some (named_form f)\<rparr>)"
proof (cases "SubInfo_validate si")
  case (Inl e)
  then show ?thesis
    by (auto simp: NewSubAndConfig_def SubInfo_validate_def is_ok_iff split: if_splits sum.splits)
next
  case (Inr u)
  then have v: "is_ok (NewJid (siJid si))" "\<not> TrimSpace_is_empty (siNode si)"
    by (auto simp: SubInfo_validate_def is_ok_iff bind_result_Inr_iff split: if_splits)
  show ?thesis
  proof (cases "expect_submit fo")
    case (Inl e)
    with Inr v show ?thesis by (auto simp: NewSubAndConfig_def expect_submit_def split: option.splits if_splits)
  next
    case sub: (Inr f)
    then have f: "fo = Some f" "fmType f = ''submit''" by (auto simp: expect_submit_def split: option.splits if_splits)
    let ?p = "zero_pubsub\<lparr>psSubscribe := Some si,
        psSubOptions := Some \<lparr>soSubInfo = zero_sub_info\<lparr>siSubId := siSubId si\<rparr>, soForm = Some f\<rparr>\<rparr>"
    obtain i where i: "request uuid ''set'' s (PPubSub ?p) = Inr i" by (simp add: request_Inr)
    have "payload_ok (PPubSub ?p)" using assms f by (simp add: pubsub_ok_def zero_pubsub_def)
    note r = request_over_wire [OF i this]
    have n: "NewSubAndConfig uuid s si fo = Inr i" using Inr sub i by (simp add: NewSubAndConfig_def)
    have "aType (iqAttrs i) = ''set''" "aTo (iqAttrs i) = s" using i by (simp_all add: request_Inr zero_attrs_def)
    then show ?thesis
      unfolding n using r f v by (simp add: pubsub_read_def zero_pubsub_def zero_sub_info_def)
  qed
qed

lemma sample_form_ok: "form_ok sample_form"
  by (simp add: form_ok_def sample_form_def NewForm_def zero_form_def fresh_or_named_def zero_form_item_def)

definition sample_subscriber :: sub_info where
  "sample_subscriber = \<lparr>siNode = ''princely_musings'', siJid = ''francisco@denmark.lit'', siSubId = None\<rparr>"

theorem NewSubAndConfig_spec_witness:
  "is_ok (NewSubAndConfig (Inr ''u1'') ''pubsub.shakespeare.lit'' sample_subscriber (Some sample_form))"
proof -
  have "is_ok (NewJid (siJid sample_subscriber))" "\<not> TrimSpace_is_empty (siNode sample_subscriber)"
    by (simp_all add: sample_subscriber_def is_ok_iff NewJid_def split_node_def split_resource_def SplitN2_def jid_eval
        TrimSpace_is_empty_def runes_ascii is_ascii_def IsSpace_def)
  moreover have "fmType sample_form = ''submit''" by (simp add: sample_form_def NewForm_def)
  ultimately show ?thesis
    using NewSubAndConfig_spec [where fo = "Some sample_form" and uuid = "Inr ''u1''" and s = "''pubsub.shakespeare.lit''" and si = sample_subscriber] sample_form_ok
    by (auto simp: is_ok_iff split: sum.splits)
qed

text \<open>
  Publishing an item needs a node; the service reads the one item, under the identifier that
  was asked for, or under the item's own when that is blank.
\<close>

theorem NewPublishItemRq_spec:
  assumes "item_ok it"
  shows "if TrimSpace_is_empty n then NewPublishItemRq uuid s n j it = Inl (Err ''cannot publish without a target node ID'')
    else \<exists>i r p. NewPublishItemRq uuid s n j it = Inr i \<and> over_wire i = Inr r \<and> aType (iqAttrs r) = ''set''
      \<and> iqPayload r = Some (PPubSub p)
      \<and> psPublish p = Some \<lparr>pubNode = n, pubItems = [it\<lparr>itId := if TrimSpace_is_empty j then itId it else j\<rparr>]\<rparr>"
proof (cases "TrimSpace_is_empty n")
  case False
  let ?it = "if \<not> TrimSpace_is_empty j then it\<lparr>itId := j\<rparr> else it"
  let ?p = "zero_pubsub\<lparr>psPublish := Some \<lparr>pubNode = n, pubItems = [?it]\<rparr>\<rparr>"
  obtain i where i: "request uuid ''set'' s (PPubSub ?p) = Inr i" by (simp add: request_Inr)
  have "payload_ok (PPubSub ?p)" using assms by (simp add: pubsub_ok_def zero_pubsub_def item_ok_def)
  from request_over_wire [OF i this] i False show ?thesis
    by (auto simp: NewPublishItemRq_def request_Inr zero_attrs_def pubsub_read_def zero_pubsub_def Let_def)
qed (simp add: NewPublishItemRq_def)

theorem NewPublishItemRq_spec_witness:
  "\<exists>i r p. NewPublishItemRq (Inr ''u1'') ''pubsub.shakespeare.lit'' ''blog'' ''item1'' zero_item = Inr i \<and> over_wire i = Inr r
    \<and> iqPayload r = Some (PPubSub p) \<and> psPublish p = Some \<lparr>pubNode = ''blog'', pubItems = [zero_item\<lparr>itId := ''item1''\<rparr>]\<rparr>"
proof -
  have "\<not> TrimSpace_is_empty ''blog''" "\<not> TrimSpace_is_empty ''item1''" "item_ok zero_item"
    by (simp_all add: TrimSpace_is_empty_def runes_ascii is_ascii_def IsSpace_def item_ok_def zero_item_def)
  with NewPublishItemRq_spec [of zero_item "''blog''" "Inr ''u1''" "''pubsub.shakespeare.lit''" "''item1''"]
  show ?thesis by auto
qed





text \<open>
  Looking for the fields of an answer panics exactly when the answer is a result with a
  publish-subscribe payload that lacks the configuration, or one whose configuration has no form.
\<close>

theorem GetFormFields_panics:
  "IQ_GetFormFields i = Inl nil_pointer \<longleftrightarrow>
     aType (iqAttrs i) = ''result''
     \<and> ((\<exists>p. iqPayload i = Some (PPubSub p) \<and> psConfigure p \<in> {None, Some None})
        \<or> (\<exists>p node. iqPayload i = Some (PPubSubOwner p) \<and> poOwnerUseCase p = Some (ConfigureOwner node None)))"
  by (auto simp: IQ_GetFormFields_def form_fields_def nil_pointer_def no_form_def
      split: option.splits payload.splits owner_use_case.splits command_element.splits if_splits)

text \<open>
  An answer to a discovery query is read with the node, the identities and the features that
  it was built with, in their order: \<^verbatim>\<open>SetFeatures\<close> replaces the features that were there and
  \<^verbatim>\<open>AddFeatures\<close> appends. A roster query is read as an empty list of roster items.
\<close>

theorem queries_read:
  assumes "iqError i = None" "iqAny i = None"
  shows "(\<exists>r d. over_wire (IQ_DiscoInfo (AddFeatures gs \<circ> SetFeatures fs \<circ> AddIdentity n c t \<circ> AddFeatures hs \<circ> DiscoInfo_SetNode node) i) = Inr r
      \<and> iqPayload r = Some (PDiscoInfo d) \<and> diNode d = node
      \<and> diIdentity d = [\<lparr>idName = n, idCategory = c, idType = t\<rparr>] \<and> diFeatures d = fs @ gs)
    \<and> (\<exists>r. over_wire (IQ_RosterIQ i) = Inr r \<and> iqPayload r = Some (PRosterItems new_roster_items))"
proof -
  define fill where "fill = AddFeatures gs \<circ> SetFeatures fs \<circ> AddIdentity n c t \<circ> AddFeatures hs \<circ> DiscoInfo_SetNode node"
  have f: "fill new_disco_info = new_disco_info\<lparr>diNode := node,
      diIdentity := [\<lparr>idName = n, idCategory = c, idType = t\<rparr>], diFeatures := fs @ gs\<rparr>"
    by (simp add: fill_def AddFeatures_append SetFeatures_set AddIdentity_def DiscoInfo_SetNode_def new_disco_info_def zero_disco_info_def)
  then have "payload_ok (PDiscoInfo (fill new_disco_info))"
    by (simp add: new_disco_info_def zero_disco_info_def)
  moreover have "iqPayload (IQ_DiscoInfo fill i) = Some (PDiscoInfo (fill new_disco_info))"
      "iqError (IQ_DiscoInfo fill i) = None" "iqAny (IQ_DiscoInfo fill i) = None"
    using assms by (simp_all add: IQ_DiscoInfo_def)
  ultimately have "\<exists>r d. over_wire (IQ_DiscoInfo fill i) = Inr r
      \<and> iqPayload r = Some (PDiscoInfo d) \<and> diNode d = node
      \<and> diIdentity d = [\<lparr>idName = n, idCategory = c, idType = t\<rparr>] \<and> diFeatures d = fs @ gs"
    using iq_roundtrip [of "IQ_DiscoInfo fill i"] by (simp add: f)
  moreover have "\<exists>r. over_wire (IQ_RosterIQ i) = Inr r \<and> iqPayload r = Some (PRosterItems new_roster_items)"
    using iq_roundtrip [of "IQ_RosterIQ i" "PRoster new_roster"] assms
    by (simp add: IQ_RosterIQ_def new_roster_def new_roster_items_def zero_roster_items_def)
  ultimately show ?thesis unfolding fill_def by simp
qed

theorem queries_read_witness:
  "\<exists>r d. over_wire (IQ_DiscoInfo (AddFeatures [''b''] \<circ> SetFeatures [''a''] \<circ> AddIdentity ''n'' ''client'' ''pc''
        \<circ> AddFeatures [''z''] \<circ> DiscoInfo_SetNode ''nd'') zero_iq) = Inr r
    \<and> iqPayload r = Some (PDiscoInfo d) \<and> diFeatures d = [''a'', ''b'']"
  using queries_read [of zero_iq "[''b'']" "[''a'']" "''n''" "''client''" "''pc''" "[''z'']" "''nd''"]
  by (auto simp: zero_iq_def)

text \<open>
  The form of a command's answer is lost when a note follows it, as XEP-0050 allows: the
  answer is decoded, but looking for its fields fails.
\<close>

theorem GetFormFields_note:
  assumes "form_ok f"
  shows "\<exists>r. on_tree (DecodeIQ package_codec)
      (Elem n [(plain_name ''type'', ''result'')]
        [Elem (XName NSCommands ''command'') at
          [on_wire NSCommands (form_elem f), Elem (XName NSCommands ''note'') nats [Text t]]]) = Inr r
    \<and> IQ_GetFormFields r = Inl (Err ''this IQ does not contain a command payload with a form'')"
proof -
  have "GetExtensionType PKTIQ (XName NSCommands ''command'') TypeRegistry = Some ''Command''"
    by (simp add: NSCommands_def registration_simps)
  then show ?thesis
    using assms
    by (simp add: iq_on_tree IQ_step_def payload_of_def command_of_def command_step_def command_element_of_def decode_form_ok
        xmlElementMaxDepth_def IQ_GetFormFields_def IQ_start_def IQ_attr_def zero_attrs_def)
qed

theorem GetFormFields_note_witness:
  "\<exists>r. on_tree (DecodeIQ package_codec)
      (Elem (XName ''jabber:client'' ''iq'') [(plain_name ''type'', ''result'')]
        [Elem (XName NSCommands ''command'') [] sample_command_kids]) = Inr r
    \<and> IQ_GetFormFields r = Inl (Err ''this IQ does not contain a command payload with a form'')"
  using GetFormFields_note [of sample_form]
  by (simp add: sample_command_kids_def form_ok_def sample_form_def NewForm_def zero_form_def fresh_or_named_def zero_form_item_def)

lemma pending_node:
  "Unmarshal DecodeNode (rescan [] (xml_tokens (form_elem (pending_form v)))) =
     Inr (Node (XName NSData ''x'') [(plain_name ''type'', ''submit'')] []
       [Node (XName NSData ''field'') [(plain_name ''var'', ''pubsub#node'')] []
         [Node (XName NSData ''value'') [] v []]])"
proof -
  have "on_tree DecodeNode (Elem n at kids) = node_of 1 (Elem n at kids)" for n at kids
    by (cases "node_of 1 (Elem n at kids)") (simp_all add: on_tree_def DecodeNode_tree del: node_of.simps)
  moreover have "not_xmlns (plain_name ''type'', x)" "not_xmlns (plain_name ''var'', x)" "\<not> not_xmlns (XName [] ''xmlns'', x)" for x
    by (simp_all add: not_xmlns_def)
  moreover have "Unmarshal DecodeNode (rescan [] (xml_tokens (form_elem (pending_form v))))
      = on_tree DecodeNode (on_wire [] (form_elem (pending_form v)))"
    by (rule Unmarshal_on_tree) (simp add: form_elem_def)
  ultimately show ?thesis
    by (simp add: form_elem_def pending_form_def zero_form_def field_elem_def zero_field_def opt_attr_def
        opt_elem_def text_elem_def chars_def xmlElementMaxDepth_def)
qed

lemma command_over_wire:
  assumes "request uuid ty s (PCommand c) = Inr i" "command_of (on_wire [] (command_elem c)) = Inr c'"
  shows "over_wire i = Inr (i\<lparr>iqXMLName := XName [] ''iq'', iqPayload := Some (PCommand c')\<rparr>)"
proof -
  let ?t = "on_wire [] (command_elem c)"
  have "elem_name ?t = XName NSCommands ''command''" by (simp add: command_elem_def NSCommands_def)
  moreover have "GetExtensionType PKTIQ (XName NSCommands ''command'') TypeRegistry = Some ''Command''"
    by (simp add: NSCommands_def registration_simps)
  ultimately have step: "IQ_step ?t x = Inr (x\<lparr>iqPayload := Some (PCommand c')\<rparr>)" for x
    using assms(2) by (simp add: IQ_step_def payload_of_def)
  have i: "iqPayload i = Some (PCommand c)" "iqError i = None" "iqAny i = None" "(iqAttrs i)\<lparr>aLang := []\<rparr> = iqAttrs i"
    using assms(1) by (simp_all add: request_Inr zero_iq_def zero_attrs_def)
  then have "on_wire [] (iq_elem i) = Elem (XName [] ''iq'') (attrs_attrs (iqAttrs i)) [?t]"
    by (simp add: iq_elem_def opt_payload_def)
  then show ?thesis
    using i step by (cases i) (simp add: over_wire_def Unmarshal_on_tree iq_on_tree IQ_start_elem zero_iq_def)
qed

text \<open>
  Approving the pending subscriptions of a node needs the session of the command. The service
  reads the command to execute, in that session, with the form that names the node.
\<close>

theorem approve_pending_spec:
  "if sid = [] then NewApprovePendingSubRequest uuid s sid v = Inl (Err ''the sessionId must be maintained for the command'')
   else \<exists>i r c. NewApprovePendingSubRequest uuid s sid v = Inr i \<and> over_wire i = Inr r \<and> iqPayload r = Some (PCommand c)
     \<and> cmNode c = get_pending \<and> cmAction c = ''execute'' \<and> cmSessionId c = sid
     \<and> cmCommandElement c = Some (CEForm (pending_form v))"
proof (cases "sid = []")
  case False
  let ?nd = "Node (XName NSData ''x'') [(plain_name ''type'', ''submit'')] []
       [Node (XName NSData ''field'') [(plain_name ''var'', ''pubsub#node'')] [] [Node (XName NSData ''value'') [] v []]]"
  let ?c = "zero_command\<lparr>cmNode := get_pending, cmAction := ''execute'', cmSessionId := sid, cmCommandElement := Some (CENode ?nd)\<rparr>"
  obtain i where i: "request uuid ''set'' s (PCommand ?c) = Inr i" by (simp add: request_Inr)
  then have n: "NewApprovePendingSubRequest uuid s sid v = Inr i"
    using False by (simp add: NewApprovePendingSubRequest_def pending_node)
  have ns: "NSCommands \<noteq> []" by (simp add: NSCommands_def)
  have f: "decode_form zero_form (on_wire NSCommands (node_elem ?nd)) = Inr (pending_form v)"
    by (simp add: decode_form_def decode_fields_def expect_name_def form_child_def decode_field_def field_child_def field_attr_def
        pending_form_def zero_form_def zero_field_def elem_text_def)
  have "elem_name (on_wire NSCommands (node_elem ?nd)) = XName NSData ''x''" by (simp add: NSData_def)
  with f have f: "command_element_of (on_wire NSCommands (node_elem ?nd)) = Inr (CEForm (pending_form v))"
    by (simp add: command_element_of_def Let_def del: on_wire.simps node_elem.simps)
  have el: "elements [on_wire NSCommands (node_elem ?nd)] = [on_wire NSCommands (node_elem ?nd)]" by simp
  define atts where "atts = (XName [] ''xmlns'', NSCommands) # elem_attrs (command_elem ?c)"
  have tree: "on_wire ns' (command_elem ?c) = Elem (XName NSCommands ''command'') atts [on_wire NSCommands (node_elem ?nd)]" for ns'
    using ns by (simp add: command_elem_def command_extras_def atts_def zero_command_def flag_elem_def)
  have "command_of (on_wire [] (command_elem ?c)) = Inr (?c\<lparr>cmXMLName := XName NSCommands ''command'',
      cmCommandElement := Some (CEForm (pending_form v))\<rparr>)"
    unfolding tree using f Command_start_elem [of ?c]
    by (simp add: command_of_def atts_def command_step_def zero_command_def el del: on_wire.simps node_elem.simps elements_simps)
  from command_over_wire [OF i this] n False show ?thesis
    by (simp add: request_Inr zero_command_def)
qed (simp add: NewApprovePendingSubRequest_def)

end
