(* ===== verification/Exchange.thy ===== *)
theory Exchange
  imports Delivery Requests
begin

text \<open>
  A request and its answer: a program sends an IQ with \<^verbatim>\<open>Client.SendIQ\<close>, the server answers, and
  the receiving loop delivers the answer on the channel that the program got. What the two
  sides print is what they read (\<^verbatim>\<open>PayloadWire\<close>), so that the answer is the value the server sent.
\<close>




text \<open>The IQs that a result channel got, and the packets that a result route waits for.\<close>

fun deliveries :: "nat \<Rightarrow> 'h effect list \<Rightarrow> iq list" where
  "deliveries chan [] = []"
| "deliveries chan (EDeliver k j # es) = (if k = chan then j # deliveries chan es else deliveries chan es)"
| "deliveries chan (e # es) = deliveries chan es"

lemma deliveries_append [simp]: "deliveries chan (xs @ ys) = deliveries chan xs @ deliveries chan ys"
  by (induction chan xs rule: deliveries.induct) simp_all



subsection \<open>Dispatching any stanza\<close>








subsection \<open>The exchange\<close>












end
