(* ===== verification/Delegation.thy ===== *)
theory Delegation
  imports PayloadWire Parser
begin

text \<open>
  Delegation of name spaces to components (XEP-0355), \<^verbatim>\<open>stanza/component.go\<close>: \<open>Delegation\<close>,
  \<open>Forwarded\<close> and \<open>Delegated\<close>. They hold packets, which hold payloads, so that they are read
  here from the element of the payload (\<open>PExt\<close>) that \<^verbatim>\<open>Stanza\<close> keeps. \<open>XMLName\<close> of a
  \<open>Forwarded\<close> is never set when it is read, and left out.
\<close>

definition NSForward :: string where "NSForward = ''urn:xmpp:forward:0''"
definition NSDelegation :: string where "NSDelegation = ''urn:xmpp:delegation:1''"

record forwarded =
  fwStanza :: "packet option"

record delegated =
  dlXMLName :: xname
  dlNamespace :: string

record delegation =
  dgXMLName :: xname
  dgForwarded :: "forwarded option"
  dgDelegated :: "delegated option"
  dgResultSet :: "result_set option"

definition zero_forwarded :: forwarded where
  "zero_forwarded = \<lparr>fwStanza = None\<rparr>"

definition zero_delegation :: delegation where
  "zero_delegation = \<lparr>dgXMLName = XName [] [], dgForwarded = None, dgDelegated = None, dgResultSet = None\<rparr>"

text \<open>
  A stanza that cannot be decoded is passed over without an error. Where the decoder then is, in the
  middle of the stanza, is not part of an error here: it is the parameter \<open>left\<close>. An element that
  is not a stanza is not consumed, so that its children are visited.
\<close>

definition Forwarded_child :: "(xname \<Rightarrow> xattr list \<Rightarrow> decoder \<Rightarrow> decoder) \<Rightarrow> codec \<Rightarrow> forwarded elem_handler" where
  "Forwarded_child left cdc n at s d =
     (case decodeClient cdc n at d of
        Inr (p, d') \<Rightarrow> Inr (s\<lparr>fwStanza := Some p\<rparr>, d')
      | Inl (Panic p) \<Rightarrow> Inl (Panic p)
      | Inl e \<Rightarrow> if nLocal n \<in> {''message'', ''presence'', ''iq''} then Inr (s, left n at d) else Inr (s, d))"

definition DecodeForwarded ::
  "(xname \<Rightarrow> xattr list \<Rightarrow> decoder \<Rightarrow> decoder) \<Rightarrow> codec \<Rightarrow> forwarded \<Rightarrow> xname \<Rightarrow> xattr list \<Rightarrow> decoder \<Rightarrow> error + forwarded \<times> decoder" where
  "DecodeForwarded left cdc v0 = unmarshalInterface ''*stanza.Forwarded'' (elem_unmarshal (\<lambda>_ _. v0) (Forwarded_child left cdc))"

definition decode_delegated :: "xml \<Rightarrow> error + delegated" where
  "decode_delegated t =
     bind_result (expect_name [] ''delegated'' t) (\<lambda>n.
       decode_fields (\<lambda>l v s. Inr (if l = ''namespace'' then s\<lparr>dlNamespace := v\<rparr> else s)) no_child t
         \<lparr>dlXMLName = n, dlNamespace = []\<rparr>)"

text \<open>A field without a tag has the name and the name space of its type's \<^verbatim>\<open>XMLName\<close>.\<close>

definition delegation_child ::
  "(xname \<Rightarrow> xattr list \<Rightarrow> decoder \<Rightarrow> decoder) \<Rightarrow> xml \<Rightarrow> delegation \<Rightarrow> error + delegation" where
  "delegation_child left k s =
     (let n = elem_name k in
      if n = XName NSForward ''forwarded'' then
        set_field (on_tree (DecodeForwarded left package_codec (or_zero zero_forwarded (dgForwarded s))) k)
          (\<lambda>v s. s\<lparr>dgForwarded := Some v\<rparr>) s
      else if nLocal n = ''delegated'' then set_field (decode_delegated k) (\<lambda>v s. s\<lparr>dgDelegated := Some v\<rparr>) s
      else if nLocal n = ''set'' then
        set_field (decode_result_set (or_zero zero_result_set (dgResultSet s)) k) (\<lambda>v s. s\<lparr>dgResultSet := Some v\<rparr>) s
      else Inr s)"

definition decode_delegation ::
  "(xname \<Rightarrow> xattr list \<Rightarrow> decoder \<Rightarrow> decoder) \<Rightarrow> delegation \<Rightarrow> xml \<Rightarrow> error + delegation" where
  "decode_delegation left v0 t =
     bind_result (expect_name NSDelegation ''delegation'' t) (\<lambda>n.
       fold_result (delegation_child left) (elements (xml_kids t)) (v0\<lparr>dgXMLName := n\<rparr>))"

text \<open>What is printed: the stanza under its own name, in the name space of what holds it.\<close>

fun stanza_elem :: "packet \<Rightarrow> xml option" where
  "stanza_elem (PktMessage m) = Some (message_elem m)"
| "stanza_elem (PktPresence p) = Some (presence_elem p)"
| "stanza_elem (PktIQ i) = Some (iq_elem i)"
| "stanza_elem p = None"

definition forwarded_elem :: "forwarded \<Rightarrow> xml" where
  "forwarded_elem f = Elem (XName NSForward ''forwarded'') [] (maybe id (Option.bind (fwStanza f) stanza_elem))"

definition delegated_elem :: "delegated \<Rightarrow> xml" where
  "delegated_elem v = Elem (plain_name ''delegated'') (opt_attr ''namespace'' (dlNamespace v)) []"

definition delegation_elem :: "delegation \<Rightarrow> xml" where
  "delegation_elem v =
     Elem (XName NSDelegation ''delegation'') []
       (maybe forwarded_elem (dgForwarded v) @ maybe delegated_elem (dgDelegated v) @ maybe result_set_elem (dgResultSet v))"

subsection \<open>Reading what was printed\<close>

lemma delegation_spaces [simp]: "NSForward \<noteq> []" "NSDelegation \<noteq> []"
  by (simp_all add: NSForward_def NSDelegation_def)

lemma is_elem_delegation [simp]:
  "is_elem (\<lambda>_. True) (forwarded_elem f)" "is_elem (\<lambda>_. True) (delegated_elem v)" "is_elem (\<lambda>_. True) (delegation_elem g)"
  by (simp_all add: forwarded_elem_def delegated_elem_def delegation_elem_def)

lemma forwarded_iq:
  assumes "iqPayload i = Some p" "payload_ok p" "iqError i = None" "iqAny i = None"
  shows "on_tree (DecodeForwarded left package_codec v0) (on_wire ns (forwarded_elem \<lparr>fwStanza = Some (PktIQ i)\<rparr>))
    = Inr \<lparr>fwStanza = Some (PktIQ (i\<lparr>iqXMLName := XName NSForward ''iq'', iqAttrs := (iqAttrs i)\<lparr>aLang := []\<rparr>,
        iqPayload := Some (payload_read p)\<rparr>))\<rparr>"
proof -
  obtain k where k: "on_wire NSForward (iq_elem i) = Elem (XName NSForward ''iq'') (attrs_attrs (iqAttrs i)) [k]" "elements [k] = [k]"
    "\<And>s. IQ_step k s = Inr (s\<lparr>iqPayload := Some (payload_read p)\<rparr>)"
    using iq_on_wire [OF assms] by metis
  let ?i = "i\<lparr>iqXMLName := XName NSForward ''iq'', iqAttrs := (iqAttrs i)\<lparr>aLang := []\<rparr>, iqPayload := Some (payload_read p)\<rparr>"
  let ?t = "Elem (XName NSForward ''iq'') (attrs_attrs (iqAttrs i)) [k]"
  have "fold_result IQ_step (elements [k]) (IQ_start (XName NSForward ''iq'') (attrs_attrs (iqAttrs i))) = Inr ?i"
    using assms k(2,3) by (cases i) (simp add: IQ_start_elem zero_iq_def)
  then have "exact_on (Forwarded_child left package_codec) (\<lambda>_ s. Inr (s\<lparr>fwStanza := Some (PktIQ ?i)\<rparr>)) ?t"
    by (simp add: exact_on_def Forwarded_child_def decodeClient_def client_decoders as_packet_def)
  then have "unmarshalInterface ''*stanza.Forwarded'' (elem_unmarshal (\<lambda>_ _. v0) (Forwarded_child left package_codec)) n at
      (inside [?t] n rest stk d) = with_decoder (after rest stk d) (Inr (v0\<lparr>fwStanza := Some (PktIQ ?i)\<rparr>))" for n at rest stk d
    by (subst unmarshalInterface_tree [where step = "\<lambda>_ s. Inr (s\<lparr>fwStanza := Some (PktIQ ?i)\<rparr>)"]) simp_all
  then show ?thesis
    by (cases v0) (simp add: forwarded_elem_def k(1) on_tree_def DecodeForwarded_def)
qed

text \<open>A message that confirms a delegation, or holds an empty one.\<close>

lemma decode_confirmation:
  "decode_delegation left zero_delegation (on_wire ns (delegation_elem (zero_delegation\<lparr>dgDelegated := v\<rparr>))) =
     Inr (zero_delegation\<lparr>dgXMLName := XName NSDelegation ''delegation'',
       dgDelegated := map_option (\<lambda>v. v\<lparr>dlXMLName := XName NSDelegation ''delegated''\<rparr>) v\<rparr>)"
proof (cases v)
  case (Some x)
  have "decode_delegated (on_wire NSDelegation (delegated_elem x)) = Inr (x\<lparr>dlXMLName := XName NSDelegation ''delegated''\<rparr>)"
    by (cases x) (simp add: decode_delegated_def delegated_elem_def expect_name_def decode_fields_def opt_attr_def)
  moreover have "elem_name (on_wire NSDelegation (delegated_elem x)) = XName NSDelegation ''delegated''"
    by (simp add: delegated_elem_def)
  ultimately show ?thesis
    using Some by (simp add: decode_delegation_def delegation_elem_def expect_name_def zero_delegation_def delegation_child_def set_field_def)
qed (simp add: decode_delegation_def delegation_elem_def expect_name_def zero_delegation_def)

lemma decode_delegation_elem:
  assumes "iqPayload i = Some p" "payload_ok p" "iqError i = None" "iqAny i = None" "all_opt go_ints r"
  shows "decode_delegation left zero_delegation (on_wire ns (delegation_elem
      \<lparr>dgXMLName = x, dgForwarded = Some \<lparr>fwStanza = Some (PktIQ i)\<rparr>, dgDelegated = None, dgResultSet = r\<rparr>))
    = Inr \<lparr>dgXMLName = XName NSDelegation ''delegation'',
        dgForwarded = Some \<lparr>fwStanza = Some (PktIQ (i\<lparr>iqXMLName := XName NSForward ''iq'', iqAttrs := (iqAttrs i)\<lparr>aLang := []\<rparr>,
          iqPayload := Some (payload_read p)\<rparr>))\<rparr>,
        dgDelegated = None, dgResultSet = map_option named_result_set r\<rparr>"
proof -
  let ?f = "\<lparr>fwStanza = Some (PktIQ i)\<rparr>"
  have fw: "elem_name (on_wire ns (forwarded_elem f)) = XName NSForward ''forwarded''" for ns f by (simp add: forwarded_elem_def)
  have rs: "fold_result (delegation_child left) (maybe (on_wire ns \<circ> result_set_elem) r) s
      = Inr (s\<lparr>dgResultSet := map_option named_result_set r\<rparr>)" if "dgResultSet s = None" for ns and s :: delegation
    using assms(5) that by (cases r) (simp_all add: delegation_child_def decode_result_set_elem)
  have "delegation_child left (on_wire NSDelegation (forwarded_elem ?f)) s = Inr (s\<lparr>dgForwarded := Some \<lparr>fwStanza = Some (PktIQ
      (i\<lparr>iqXMLName := XName NSForward ''iq'', iqAttrs := (iqAttrs i)\<lparr>aLang := []\<rparr>, iqPayload := Some (payload_read p)\<rparr>))\<rparr>\<rparr>)"
    for s :: delegation
    by (simp add: delegation_child_def fw forwarded_iq [OF assms(1-4)] set_field_def)
  then show ?thesis
    using rs by
      (simp_all add: decode_delegation_def delegation_elem_def expect_name_def fold_result_append zero_delegation_def)
qed

text \<open>
  A request that a server delegates to a component, wrapped in a forwarded element, reaches it with
  its addresses, type, identifier and payload.
\<close>

theorem delegation_roundtrip:
  assumes "iqPayload i = Some p" "payload_ok p" "iqError i = None" "iqAny i = None" "all_opt go_ints r"
  shows "Unmarshal (decode_struct (decode_delegation left zero_delegation)) (rescan [] (xml_tokens (delegation_elem
      \<lparr>dgXMLName = XName [] [], dgForwarded = Some \<lparr>fwStanza = Some (PktIQ i)\<rparr>, dgDelegated = None, dgResultSet = r\<rparr>)))
    = Inr \<lparr>dgXMLName = XName NSDelegation ''delegation'',
        dgForwarded = Some \<lparr>fwStanza = Some (PktIQ (i\<lparr>iqXMLName := XName NSForward ''iq'', iqAttrs := (iqAttrs i)\<lparr>aLang := []\<rparr>,
          iqPayload := Some (payload_read p)\<rparr>))\<rparr>,
        dgDelegated = None, dgResultSet = map_option named_result_set r\<rparr>"
  by (simp add: Unmarshal_wire decode_delegation_elem [OF assms])

theorem delegation_roundtrip_witness:
  "\<exists>g f i. Unmarshal (decode_struct (decode_delegation (\<lambda>_ _ d. d) zero_delegation)) (rescan [] (xml_tokens (delegation_elem
      (zero_delegation\<lparr>dgForwarded := Some \<lparr>fwStanza = Some (PktIQ sample_pubsub_request)\<rparr>\<rparr>)))) = Inr g
    \<and> dgForwarded g = Some f \<and> fwStanza f = Some (PktIQ i) \<and> iqPayload i = Some (PPubSub (pubsub_read sample_pubsub))"
proof -
  have "iqPayload sample_pubsub_request = Some (PPubSub sample_pubsub)" "payload_ok (PPubSub sample_pubsub)"
      "iqError sample_pubsub_request = None" "iqAny sample_pubsub_request = None" "all_opt go_ints None"
    by (simp_all add: sample_pubsub_request_def zero_iq_def sample_pubsub_ok)
  from delegation_roundtrip [OF this, of "\<lambda>_ _ d. d"] show ?thesis by (simp add: zero_delegation_def)
qed

end
