(* ===== verification/Services.thy ===== *)
theory Services
  imports Component Requests Delegation
begin

text \<open>
  Two components that are built with the library, \<^verbatim>\<open>_examples/xmpp_component/xmpp_component.go\<close> and
  \<^verbatim>\<open>_examples/delegation/delegation.go\<close>: their routers and handlers. A handler gives the IQs that it
  sends, in order, or a panic; what it prints on the terminal is left out, but for the name spaces
  that a delegation confirms. The outcomes of \<^verbatim>\<open>uuid.NewRandom\<close> are parameters, and
  \<open>lower\<close> is \<^verbatim>\<open>strings.ToLower\<close> of texts that are not ASCII.
\<close>

text \<open>The payload of an IQ that carries a delegation is the second argument: payloads of IQs hold its tree.\<close>

datatype sent = SentIQ iq | SentDelegation iq delegation

fun sent_elem :: "sent \<Rightarrow> xml" where
  "sent_elem (SentIQ i) = iq_elem i"
| "sent_elem (SentDelegation i g) = Elem (plain_name ''iq'') (attrs_attrs (iqAttrs i)) [delegation_elem g]"

definition reply_attrs :: "string \<Rightarrow> iq \<Rightarrow> attrs" where
  "reply_attrs lang i =
     \<lparr>aType = ''result'', aId = aId (iqAttrs i), aFrom = aTo (iqAttrs i), aTo = aFrom (iqAttrs i), aLang = lang\<rparr>"

definition Namespaces_route :: "(string \<Rightarrow> string) \<Rightarrow> string \<Rightarrow> 'h \<Rightarrow> 'h router \<Rightarrow> 'h router" where
  "Namespaces_route lower ns h r = with_route (\<lambda>rt. Route_Handler h (Route_IQNamespaces lower [ns] rt)) (NewRoute r)"

text \<open>Dispatching a packet and running the handler of its route.\<close>

fun run_handler :: "('h \<Rightarrow> packet \<Rightarrow> error + sent list) \<Rightarrow> 'h effect \<Rightarrow> error + sent list" where
  "run_handler run (EHandle h p) = run h p"
| "run_handler run (ESend i) = Inr [SentIQ i]"
| "run_handler run ENilHandler = Inl nil_pointer"
| "run_handler run e = Inr []"

fun run_handlers :: "('h \<Rightarrow> packet \<Rightarrow> error + sent list) \<Rightarrow> 'h effect list \<Rightarrow> error + sent list" where
  "run_handlers run [] = Inr []"
| "run_handlers run (e # es) =
     bind_result (run_handler run e) (\<lambda>xs. bind_result (run_handlers run es) (\<lambda>ys. Inr (xs @ ys)))"

definition serve :: "('h \<Rightarrow> packet \<Rightarrow> error + sent list) \<Rightarrow> 'h router \<Rightarrow> packet \<Rightarrow> error + sent list" where
  "serve run r p = run_handlers run (fst (Router_route SComponent p r))"

subsection \<open>The component of the example\<close>

datatype service_handler = HandleMessage | DiscoInfoHandler | DiscoItemsHandler | HandleVersion

definition service_options :: component_options where
  "service_options = \<lparr>coTransport = \<lparr>tcAddress = ''localhost:8888'', tcDomain = ''service2.localhost'', tcConnectTimeout = 0,
       tcServerName = [], tcInsecureSkipVerify = False\<rparr>, coDomain = ''service2.localhost'', coSecret = ''mypass'',
     coName = ''Test Component'', coCategory = ''gateway'', coType = ''service''\<rparr>"

definition service_router :: "(string \<Rightarrow> string) \<Rightarrow> service_handler router" where
  "service_router lower =
     Namespaces_route lower NSVersion HandleVersion
       (Namespaces_route lower NSDiscoItems DiscoItemsHandler
         (Namespaces_route lower NSDiscoInfo DiscoInfoHandler
           (Router_Handle lower ''message'' HandleMessage NewRouter)))"

definition service_features :: "string list" where
  "service_features = [NSDiscoInfo, NSDiscoItems, NSVersion, NSDelegation]"

definition service_identity :: "component_options \<Rightarrow> disco_info \<Rightarrow> disco_info" where
  "service_identity opts d = AddFeatures service_features (AddIdentity (coName opts) (coCategory opts) (coType opts) d)"

text \<open>A handler that cannot build its reply returns.\<close>

definition replying :: "error + string \<Rightarrow> string \<Rightarrow> iq \<Rightarrow> (iq \<Rightarrow> iq) \<Rightarrow> error + sent list" where
  "replying uuid lang i fill =
     (case NewIQ uuid (reply_attrs lang i) of Inl e \<Rightarrow> Inr [] | Inr r \<Rightarrow> Inr [SentIQ (fill r)])"

definition service_discoInfo :: "error + string \<Rightarrow> component_options \<Rightarrow> packet \<Rightarrow> error + sent list" where
  "service_discoInfo uuid opts p =
     (case p of
        PktIQ i \<Rightarrow>
          if aType (iqAttrs i) \<noteq> ''get'' then Inr [] else replying uuid ''en'' i (IQ_DiscoInfo (service_identity opts))
      | _ \<Rightarrow> Inr [])"

definition service_discoItems :: "error + string \<Rightarrow> packet \<Rightarrow> error + sent list" where
  "service_discoItems uuid p =
     (case p of
        PktIQ i \<Rightarrow>
          if aType (iqAttrs i) \<noteq> ''get'' then Inr []
          else
            (case iqPayload i of
               Some (PDiscoItems query) \<Rightarrow>
                 replying uuid ''en'' i
                   (IQ_DiscoItems (\<lambda>d. if dtNode query = [] then DiscoItems_AddItem ''service.localhost'' ''node1'' ''test node'' d else d))
             | _ \<Rightarrow> Inr [])
      | _ \<Rightarrow> Inr [])"

definition service_handleVersion :: "error + string \<Rightarrow> packet \<Rightarrow> error + sent list" where
  "service_handleVersion uuid p =
     (case p of
        PktIQ i \<Rightarrow> replying uuid ''en'' i (IQ_Version (SetInfo ''Fluux XMPP Component'' ''0.0.1'' []))
      | _ \<Rightarrow> Inr [])"

fun service_run :: "error + string \<Rightarrow> component_options \<Rightarrow> service_handler \<Rightarrow> packet \<Rightarrow> error + sent list" where
  "service_run uuid opts HandleMessage p = Inr []"
| "service_run uuid opts DiscoInfoHandler p = service_discoInfo uuid opts p"
| "service_run uuid opts DiscoItemsHandler p = service_discoItems uuid p"
| "service_run uuid opts HandleVersion p = service_handleVersion uuid p"

definition service :: "(string \<Rightarrow> string) \<Rightarrow> error + string \<Rightarrow> component_options \<Rightarrow> packet \<Rightarrow> error + sent list" where
  "service lower uuid opts = serve (service_run uuid opts) (service_router lower)"

subsection \<open>The component that takes part in delegation\<close>

definition pubsubNode :: string where "pubsubNode = ''urn:xmpp:delegation:1::http://jabber.org/protocol/pubsub''"
definition pepNode :: string where "pepNode = ''urn:xmpp:delegation:1:bare:http://jabber.org/protocol/pubsub''"

datatype delegator_handler = DelegatorMessage | DelegatorDiscoInfo | DelegatorDelegation

definition delegator_router :: "(string \<Rightarrow> string) \<Rightarrow> delegator_handler router" where
  "delegator_router lower =
     Namespaces_route lower NSDelegation DelegatorDelegation
       (Namespaces_route lower NSDiscoInfo DelegatorDiscoInfo
         (Router_Handle lower ''message'' DelegatorMessage NewRouter))"

text \<open>The type assertion to \<^verbatim>\<open>*stanza.Delegation\<close> of a payload that was read.\<close>

definition as_delegation :: "(xname \<Rightarrow> xattr list \<Rightarrow> decoder \<Rightarrow> decoder) \<Rightarrow> payload \<Rightarrow> delegation option" where
  "as_delegation left p =
     (case p of
        PExt ty t \<Rightarrow>
          if ty = ''Delegation'' then
            (case decode_delegation left zero_delegation t of Inl e \<Rightarrow> None | Inr g \<Rightarrow> Some g)
          else None
      | _ \<Rightarrow> None)"

text \<open>The name spaces that a message confirms; none when it is not about delegation.\<close>

fun confirmed :: "delegation list \<Rightarrow> error + string list" where
  "confirmed [] = Inr []"
| "confirmed (g # gs) =
     (case dgDelegated g of
        None \<Rightarrow> Inl nil_pointer
      | Some v \<Rightarrow> bind_result (confirmed gs) (\<lambda>ns. Inr (dlNamespace v # ns)))"

definition delegator_handleMessage :: "(xname \<Rightarrow> xattr list \<Rightarrow> decoder \<Rightarrow> decoder) \<Rightarrow> packet \<Rightarrow> error + string list" where
  "delegator_handleMessage left p =
     (case p of PktMessage m \<Rightarrow> confirmed (List.map_filter (as_delegation left) (msgExtensions m)) | _ \<Rightarrow> Inr [])"

definition discoInfoRoot :: "component_options \<Rightarrow> iq \<Rightarrow> iq" where
  "discoInfoRoot opts = IQ_DiscoInfo (service_identity opts)"

definition pubsub_features :: "string list" where
  "pubsub_features = map (\<lambda>f. NSPubSub @ f) [[], ''#publish'', ''#subscribe'', ''#publish-options'']"

definition discoInfoPubSub :: "iq \<Rightarrow> iq" where
  "discoInfoPubSub i = i\<lparr>iqPayload := Some (PDiscoInfo (new_disco_info\<lparr>diNode := pubsubNode, diFeatures := pubsub_features\<rparr>))\<rparr>"

definition pep_features :: "string list" where
  "pep_features = map (\<lambda>f. NSPubSub @ f) [''#access-presence'', ''#auto-create'', ''#auto-subscribe'', ''#config-node'',
     ''#create-and-configure'', ''#create-nodes'', ''#filtered-notifications'', ''#persistent-items'', ''#publish'',
     ''#retrieve-items'', ''#subscribe'']"

definition discoInfoPEP :: "iq \<Rightarrow> iq" where
  "discoInfoPEP i = i\<lparr>iqPayload := Some (PDiscoInfo (new_disco_info\<lparr>
     diIdentity := [\<lparr>idName = [], idCategory = ''pubsub'', idType = ''pep''\<rparr>], diNode := pepNode, diFeatures := pep_features\<rparr>))\<rparr>"

text \<open>\<^verbatim>\<open>log.Fatalf\<close>, when a reply cannot be built, ends the program: it is an error here.\<close>

definition delegator_discoInfo :: "error + string \<Rightarrow> component_options \<Rightarrow> packet \<Rightarrow> error + sent list" where
  "delegator_discoInfo uuid opts p =
     (case p of
        PktIQ i \<Rightarrow>
          (case iqPayload i of
             Some (PDiscoInfo info) \<Rightarrow>
               bind_result (NewIQ uuid (reply_attrs [] i)) (\<lambda>r.
                 Inr [SentIQ
                   (if diNode info = [] then discoInfoRoot opts r
                    else if diNode info = pubsubNode then discoInfoPubSub r
                    else if diNode info = pepNode then discoInfoPEP r
                    else r)])
           | _ \<Rightarrow> Inr [])
      | _ \<Rightarrow> Inr [])"

text \<open>
  A delegated request: only publishing is supported. The name of a \<^verbatim>\<open>Publish\<close> that was read is
  always \<^verbatim>\<open>publish\<close>; without one, its name cannot be asked for.
\<close>

definition delegator_handleDelegation ::
  "(xname \<Rightarrow> xattr list \<Rightarrow> decoder \<Rightarrow> decoder) \<Rightarrow> error + string \<Rightarrow> error + string \<Rightarrow> packet \<Rightarrow> error + sent list" where
  "delegator_handleDelegation left uuid uuid' p =
     (case p of
        PktIQ i \<Rightarrow>
          (case Option.bind (iqPayload i) (as_delegation left) of
             None \<Rightarrow> Inr []
           | Some g \<Rightarrow>
               (case dgForwarded g of
                  None \<Rightarrow> Inl nil_pointer
                | Some f \<Rightarrow>
                    (case fwStanza f of
                       Some (PktIQ fi) \<Rightarrow>
                         (case iqPayload fi of
                            Some (PPubSub pubsub) \<Rightarrow>
                              (case psPublish pubsub of
                                 None \<Rightarrow> Inl nil_pointer
                               | Some pub \<Rightarrow>
                                   bind_result (NewIQ uuid (reply_attrs [] fi)) (\<lambda>iqResp.
                                   bind_result (NewIQ uuid' (reply_attrs [] i)) (\<lambda>iqForward.
                                     Inr [SentDelegation iqForward
                                       (zero_delegation\<lparr>dgXMLName := XName NSDelegation ''delegation'',
                                          dgForwarded := Some \<lparr>fwStanza = Some (PktIQ (iqResp\<lparr>iqPayload :=
                                            Some (PPubSub (zero_pubsub\<lparr>psXMLName := XName NSPubSub ''pubsub''\<rparr>))\<rparr>))\<rparr>\<rparr>)])))
                          | _ \<Rightarrow> Inr [])
                     | _ \<Rightarrow> Inr [])))
      | _ \<Rightarrow> Inr [])"

fun delegator_run ::
  "(xname \<Rightarrow> xattr list \<Rightarrow> decoder \<Rightarrow> decoder) \<Rightarrow> error + string \<Rightarrow> error + string \<Rightarrow> component_options \<Rightarrow> delegator_handler \<Rightarrow> packet \<Rightarrow>
     error + sent list" where
  "delegator_run left uuid uuid' opts DelegatorMessage p = bind_result (delegator_handleMessage left p) (\<lambda>_. Inr [])"
| "delegator_run left uuid uuid' opts DelegatorDiscoInfo p = delegator_discoInfo uuid opts p"
| "delegator_run left uuid uuid' opts DelegatorDelegation p = delegator_handleDelegation left uuid uuid' p"

definition delegator ::
  "(xname \<Rightarrow> xattr list \<Rightarrow> decoder \<Rightarrow> decoder) \<Rightarrow> (string \<Rightarrow> string) \<Rightarrow> error + string \<Rightarrow> error + string \<Rightarrow>
     component_options \<Rightarrow> packet \<Rightarrow> error + sent list" where
  "delegator left lower uuid uuid' opts = serve (delegator_run left uuid uuid' opts) (delegator_router lower)"

subsection \<open>Dispatch\<close>

lemma lower_names:
  "ToLower lower NSVersion = NSVersion" "ToLower lower NSDiscoInfo = NSDiscoInfo" "ToLower lower NSDiscoItems = NSDiscoItems"
  "ToLower lower NSDelegation = NSDelegation" "ToLower lower ''message'' = ''message''"
  by (simp_all add: ToLower_def is_ascii_def lower_char_def NSVersion_def NSDiscoInfo_def NSDiscoItems_def NSDelegation_def)

lemma different_names:
  "NSVersion \<noteq> NSDiscoInfo" "NSVersion \<noteq> NSDiscoItems" "NSDiscoItems \<noteq> NSDiscoInfo" "NSDelegation \<noteq> NSDiscoInfo"
  by (simp_all add: NSVersion_def NSDiscoInfo_def NSDiscoItems_def NSDelegation_def)

lemmas router_simps = Namespaces_route_def Router_Handle_def with_route_def NewRoute_def NewRouter_def empty_route_def
  Route_Handler_def Route_IQNamespaces_def Route_Packet_def Route_AddMatcher_def lower_names

lemma service_router_eq:
  "service_router lower = \<lparr>rRoutes =
     [\<lparr>rtHandler = Some HandleMessage, rtMatchers = [NameMatcher ''message'']\<rparr>,
      \<lparr>rtHandler = Some DiscoInfoHandler, rtMatchers = [NsIQMatcher [NSDiscoInfo]]\<rparr>,
      \<lparr>rtHandler = Some DiscoItemsHandler, rtMatchers = [NsIQMatcher [NSDiscoItems]]\<rparr>,
      \<lparr>rtHandler = Some HandleVersion, rtMatchers = [NsIQMatcher [NSVersion]]\<rparr>],
     rIQResultRoutes = (\<lambda>_. None), rChannels = 0\<rparr>"
  by (simp add: service_router_def router_simps)

lemma delegator_router_eq:
  "delegator_router lower = \<lparr>rRoutes =
     [\<lparr>rtHandler = Some DelegatorMessage, rtMatchers = [NameMatcher ''message'']\<rparr>,
      \<lparr>rtHandler = Some DelegatorDiscoInfo, rtMatchers = [NsIQMatcher [NSDiscoInfo]]\<rparr>,
      \<lparr>rtHandler = Some DelegatorDelegation, rtMatchers = [NsIQMatcher [NSDelegation]]\<rparr>],
     rIQResultRoutes = (\<lambda>_. None), rChannels = 0\<rparr>"
  by (simp add: delegator_router_def router_simps)

lemma bind_result_return: "bind_result m Inr = m"
  by (cases m) simp_all

lemmas dispatch_simps = serve_def Router_route_def route_packet_def Router_Match_def Route_Match_def different_names

lemma service_dispatch:
  assumes "iqPayload i = Some p"
  shows "payload_Namespace p = NSDiscoInfo \<Longrightarrow> service lower uuid opts (PktIQ i) = service_discoInfo uuid opts (PktIQ i)"
    and "payload_Namespace p = NSDiscoItems \<Longrightarrow> service lower uuid opts (PktIQ i) = service_discoItems uuid (PktIQ i)"
    and "payload_Namespace p = NSVersion \<Longrightarrow> service lower uuid opts (PktIQ i) = service_handleVersion uuid (PktIQ i)"
  using assms different_names [symmetric]
  by (simp_all add: service_def service_router_eq dispatch_simps bind_result_return)

lemma delegator_dispatch:
  assumes "iqPayload i = Some p" "payload_Namespace p = NSDelegation"
  shows "delegator left lower uuid uuid' opts (PktIQ i) = delegator_handleDelegation left uuid uuid' (PktIQ i)"
  using assms by (simp add: delegator_def delegator_router_eq dispatch_simps bind_result_return)


subsection \<open>Queries and their answers\<close>

lemma not_blank_result: "\<not> StanzaType_IsEmpty ''result''"
  by (simp add: StanzaType_IsEmpty_def TrimSpace_is_empty_def runes_ascii is_ascii_def IsSpace_def)

lemma NewIQ_reply:
  "aId (iqAttrs i) \<noteq> [] \<Longrightarrow> NewIQ uuid (reply_attrs lang i) = Inr (zero_iq\<lparr>iqXMLName := XName [] ''iq'', iqAttrs := reply_attrs lang i\<rparr>)"
  using not_blank_result by (simp add: NewIQ_def reply_attrs_def Let_def)

text \<open>What is asked, and what the component answers.\<close>

fun service_answer :: "component_options \<Rightarrow> payload \<Rightarrow> payload option" where
  "service_answer opts (PDiscoInfo d) = Some (PDiscoInfo (new_disco_info\<lparr>
     diIdentity := [\<lparr>idName = coName opts, idCategory = coCategory opts, idType = coType opts\<rparr>],
     diFeatures := [NSDiscoInfo, NSDiscoItems, NSVersion, NSDelegation]\<rparr>))"
| "service_answer opts (PDiscoItems d) = Some (PDiscoItems (new_disco_items\<lparr>dtItems :=
     (if dtNode d = [] then [\<lparr>itmJID = ''service.localhost'', itmNode = ''node1'', itmName = ''test node''\<rparr>] else [])\<rparr>))"
| "service_answer opts (PVersion v) = Some (PVersion (new_version\<lparr>veName := ''Fluux XMPP Component'', veVersion := ''0.0.1''\<rparr>))"
| "service_answer opts p = None"

definition replied :: "iq \<Rightarrow> payload \<Rightarrow> iq" where
  "replied q a = zero_iq\<lparr>iqXMLName := XName [] ''iq'', iqAttrs := reply_attrs [] q, iqPayload := Some a\<rparr>"

lemma answer_over_wire:
  assumes "service_answer opts p = Some a"
  shows "over_wire (zero_iq\<lparr>iqXMLName := n, iqAttrs := reply_attrs l q, iqPayload := Some a\<rparr>) = Inr (replied q a)"
  using assms
  by (cases p) (auto simp: iq_roundtrip zero_iq_def replied_def reply_attrs_def new_disco_info_def zero_disco_info_def
      new_disco_items_def zero_disco_items_def new_version_def zero_version_def)

lemma service_answers:
  assumes "iqPayload q = Some (payload_read p)" "service_answer opts p = Some a" "aId (iqAttrs q) \<noteq> []"
    and "aType (iqAttrs q) = ''get'' \<or> (\<exists>v. p = PVersion v)"
  shows "service lower uuid opts (PktIQ q)
    = Inr [SentIQ (zero_iq\<lparr>iqXMLName := XName [] ''iq'', iqAttrs := reply_attrs ''en'' q, iqPayload := Some a\<rparr>)]"
proof (cases p)
  case (PDiscoInfo d)
  then show ?thesis using assms
    by (simp add: service_dispatch(1) service_discoInfo_def replying_def NewIQ_reply IQ_DiscoInfo_def service_identity_def
        AddFeatures_append AddIdentity_def service_features_def new_disco_info_def zero_disco_info_def zero_iq_def)
next
  case (PDiscoItems d)
  then show ?thesis using assms
    by (auto simp: service_dispatch(2) service_discoItems_def replying_def NewIQ_reply IQ_DiscoItems_def DiscoItems_AddItem_def
        new_disco_items_def zero_disco_items_def zero_iq_def)
next
  case (PVersion v)
  then show ?thesis using assms
    by (simp add: service_dispatch(3) service_handleVersion_def replying_def NewIQ_reply IQ_Version_def SetInfo_def
        new_version_def zero_version_def zero_iq_def)
qed (use assms in simp_all)

text \<open>
  C39. A query that reaches the component on the wire is answered with exactly one IQ: the requester
  reads from it, under the identifier of the query and with the addresses exchanged, the identity
  and features, the items or the version of the component.
\<close>

theorem service_answers_queries:
  assumes "iqPayload q = Some p" "payload_ok p" "iqError q = None" "iqAny q = None" "service_answer opts p = Some a"
    and "aType (iqAttrs q) = ''get''" "aId (iqAttrs q) \<noteq> []"
  shows "\<exists>q' r r'. over_wire q = Inr q' \<and> service lower uuid opts (PktIQ q') = Inr [SentIQ r] \<and> over_wire r = Inr r'
    \<and> iqAttrs r' = \<lparr>aType = ''result'', aId = aId (iqAttrs q), aFrom = aTo (iqAttrs q), aTo = aFrom (iqAttrs q), aLang = []\<rparr>
    \<and> iqPayload r' = Some a"
  using service_answers [OF _ assms(5), of "projr (over_wire q)" lower uuid] iq_roundtrip [OF assms(1-4)]
    answer_over_wire [OF assms(5)] assms(6,7)
  by (simp add: replied_def reply_attrs_def)

text \<open>
  \<open>conversation sv n i\<close> is the IQ on its way after \<open>i\<close> was sent and \<open>n\<close> times a component that behaves
  as \<open>sv\<close> received an IQ and sent another.
\<close>

fun conversation :: "(packet \<Rightarrow> error + sent list) \<Rightarrow> nat \<Rightarrow> iq \<Rightarrow> iq option" where
  "conversation sv 0 i = Some i"
| "conversation sv (Suc n) i =
     (case over_wire i of
        Inl e \<Rightarrow> None
      | Inr j \<Rightarrow> (case sv (PktIQ j) of Inr [SentIQ k] \<Rightarrow> conversation sv n k | _ \<Rightarrow> None))"

lemma conversation_version:
  assumes "iqPayload i = Some (PVersion v)" "all_opt go_ints (veResultSet v)" "iqError i = None" "iqAny i = None" "aId (iqAttrs i) \<noteq> []"
    and "aType (iqAttrs i) = ''result''"
  shows "\<exists>k w. conversation (service lower uuid opts) n i = Some k \<and> aType (iqAttrs k) = ''result'' \<and> aId (iqAttrs k) = aId (iqAttrs i)
    \<and> aTo (iqAttrs k) = (if even n then aTo (iqAttrs i) else aFrom (iqAttrs i)) \<and> iqPayload k = Some (PVersion w)"
  using assms
proof (induction n arbitrary: i v)
  case (Suc n)
  let ?a = "PVersion (new_version\<lparr>veName := ''Fluux XMPP Component'', veVersion := ''0.0.1''\<rparr>)"
  let ?q = "i\<lparr>iqXMLName := XName [] ''iq'', iqAttrs := (iqAttrs i)\<lparr>aLang := []\<rparr>, iqPayload := Some (payload_read (PVersion v))\<rparr>"
  let ?k = "zero_iq\<lparr>iqXMLName := XName [] ''iq'', iqAttrs := reply_attrs ''en'' ?q, iqPayload := Some ?a\<rparr>"
  have "over_wire i = Inr ?q" by (rule iq_roundtrip) (use Suc.prems in simp_all)
  moreover have "service lower uuid opts (PktIQ ?q) = Inr [SentIQ ?k]"
    by (rule service_answers [where p = "PVersion v"]) (use Suc.prems in simp_all)
  ultimately have eq: "conversation (service lower uuid opts) (Suc n) i = conversation (service lower uuid opts) n ?k" by simp
  have "\<exists>k w. conversation (service lower uuid opts) n ?k = Some k \<and> aType (iqAttrs k) = ''result'' \<and> aId (iqAttrs k) = aId (iqAttrs ?k)
    \<and> aTo (iqAttrs k) = (if even n then aTo (iqAttrs ?k) else aFrom (iqAttrs ?k)) \<and> iqPayload k = Some (PVersion w)"
    by (rule Suc.IH [where v = "new_version\<lparr>veName := ''Fluux XMPP Component'', veVersion := ''0.0.1''\<rparr>"])
      (use Suc.prems in \<open>simp_all add: zero_iq_def reply_attrs_def new_version_def zero_version_def\<close>)
  then show ?case unfolding eq by (auto simp: reply_attrs_def)
qed simp

text \<open>
  C40. The handler of version queries does not look at the type of the IQ: it answers a result with a
  result. Once one version result is sent to such a component from another one, the two send
  results to each other for ever.
\<close>

theorem version_replies_for_ever:
  assumes "iqPayload i = Some (PVersion v)" "all_opt go_ints (veResultSet v)" "iqError i = None" "iqAny i = None" "aId (iqAttrs i) \<noteq> []"
    and "aType (iqAttrs i) = ''result''"
  shows "\<exists>k w. conversation (service lower uuid opts) n i = Some k \<and> aType (iqAttrs k) = ''result'' \<and> aId (iqAttrs k) = aId (iqAttrs i)
    \<and> aTo (iqAttrs k) = (if even n then aTo (iqAttrs i) else aFrom (iqAttrs i)) \<and> iqPayload k = Some (PVersion w)"
  by (rule conversation_version [OF assms])

subsection \<open>Delegated requests\<close>

definition forwarding :: "iq \<Rightarrow> delegation" where
  "forwarding i = zero_delegation\<lparr>dgXMLName := XName NSDelegation ''delegation'', dgForwarded := Some \<lparr>fwStanza = Some (PktIQ i)\<rparr>\<rparr>"

definition forwarded_iq_read :: "iq \<Rightarrow> payload \<Rightarrow> iq" where
  "forwarded_iq_read i p =
     i\<lparr>iqXMLName := XName NSForward ''iq'', iqAttrs := (iqAttrs i)\<lparr>aLang := []\<rparr>, iqPayload := Some (payload_read p)\<rparr>"

definition delegation_over_wire :: "iq \<Rightarrow> delegation \<Rightarrow> error + iq" where
  "delegation_over_wire w g = Unmarshal (DecodeIQ package_codec) (rescan [] (xml_tokens (sent_elem (SentDelegation w g))))"

lemma payload_of_delegation: "payload_of ''Delegation'' t = Inr (PExt ''Delegation'' t)"
  by (simp add: payload_of_def extension_decoders_def marker_decoders_def state_decoders_def hint_decoders_def receipt_decoders_def)

lemma delegation_read:
  assumes "iqPayload i = Some p" "payload_ok p" "iqError i = None" "iqAny i = None"
  obtains q t where "delegation_over_wire w (forwarding i) = Inr q" "iqAttrs q = (iqAttrs w)\<lparr>aLang := []\<rparr>" "iqPayload q = Some t"
    "payload_Namespace t = NSDelegation" "as_delegation left t = Some (forwarding (forwarded_iq_read i p))"
proof -
  let ?t = "on_wire [] (delegation_elem (forwarding i))"
  let ?q = "(IQ_start (XName [] ''iq'') (attrs_attrs (iqAttrs w)))\<lparr>iqPayload := Some (PExt ''Delegation'' ?t)\<rparr>"
  have n: "elem_name ?t = XName NSDelegation ''delegation''" by (simp add: delegation_elem_def)
  have "GetExtensionType PKTIQ (XName NSDelegation ''delegation'') TypeRegistry = Some ''Delegation''"
    by (simp add: NSDelegation_def registration_simps)
  moreover have "payload_of ''Delegation'' ?t = Inr (PExt ''Delegation'' ?t)" by (rule payload_of_delegation)
  ultimately have "IQ_step ?t s = Inr (s\<lparr>iqPayload := Some (PExt ''Delegation'' ?t)\<rparr>)" for s
    by (simp add: IQ_step_def n)
  moreover have "elements [?t] = [?t]" using is_elem_wire [of "[]" "delegation_elem (forwarding i)"] by (simp add: elements_def)
  ultimately have "delegation_over_wire w (forwarding i) = Inr ?q"
    unfolding delegation_over_wire_def by (subst Unmarshal_on_tree) (simp_all add: iq_on_tree)
  moreover have "as_delegation left (PExt ''Delegation'' ?t) = Some (forwarding (forwarded_iq_read i p))"
    using decode_delegation_elem [OF assms, of None left "[]"] by (simp add: as_delegation_def forwarding_def forwarded_iq_read_def zero_delegation_def)
  moreover have "iqAttrs ?q = (iqAttrs w)\<lparr>aLang := []\<rparr>" by (simp add: IQ_start_elem zero_iq_def)
  ultimately show thesis using n by (intro that [of ?q "PExt ''Delegation'' ?t"]) simp_all
qed

definition published :: "iq \<Rightarrow> iq" where
  "published i = zero_iq\<lparr>iqXMLName := XName [] ''iq'', iqAttrs := reply_attrs [] i,
     iqPayload := Some (PPubSub (zero_pubsub\<lparr>psXMLName := XName NSPubSub ''pubsub''\<rparr>))\<rparr>"

lemma published_ok: "payload_ok (PPubSub (zero_pubsub\<lparr>psXMLName := x\<rparr>))"
  by (simp add: pubsub_ok_def zero_pubsub_def)

lemma delegator_publish:
  assumes "iqPayload q = Some t" "payload_Namespace t = NSDelegation" "as_delegation left t = Some (forwarding fi)"
    and "iqPayload fi = Some (PPubSub v)"
  shows "psPublish v = Some pub \<Longrightarrow> aId (iqAttrs fi) \<noteq> [] \<Longrightarrow> aId (iqAttrs q) \<noteq> [] \<Longrightarrow>
      delegator left lower uuid uuid' opts (PktIQ q)
        = Inr [SentDelegation (zero_iq\<lparr>iqXMLName := XName [] ''iq'', iqAttrs := reply_attrs [] q\<rparr>) (forwarding (published fi))]"
    and "psPublish v = None \<Longrightarrow> delegator left lower uuid uuid' opts (PktIQ q) = Inl nil_pointer"
  using assms
  by (simp_all add: delegator_dispatch delegator_handleDelegation_def forwarding_def NewIQ_reply published_def zero_delegation_def)

text \<open>
  C37. A request to publish that the server delegates to the component reaches it on the wire, and is
  answered with exactly one IQ, to the server, under the identifier of the server's request. The
  server reads from it the reply that it is to forward to the user: a result under the identifier
  of the user's request, with the addresses exchanged and an empty publish-subscribe payload.
\<close>

theorem delegated_publish:
  assumes "iqPayload i = Some (PPubSub v)" "pubsub_ok v" "iqError i = None" "iqAny i = None" "psPublish v = Some pub"
    and "aId (iqAttrs i) \<noteq> []" "aId (iqAttrs w) \<noteq> []"
  shows "\<exists>q r g r' t fr. delegation_over_wire w (forwarding i) = Inr q
    \<and> delegator left lower uuid uuid' opts (PktIQ q) = Inr [SentDelegation r g]
    \<and> delegation_over_wire r g = Inr r' \<and> iqAttrs r' = reply_attrs [] w
    \<and> iqPayload r' = Some t \<and> as_delegation left t = Some (forwarding fr)
    \<and> iqAttrs fr = reply_attrs [] i \<and> iqPayload fr = Some (PPubSub (zero_pubsub\<lparr>psXMLName := XName NSPubSub ''pubsub''\<rparr>))"
proof -
  have "payload_ok (PPubSub v)" using assms(2) by simp
  then obtain q t where q: "delegation_over_wire w (forwarding i) = Inr q" "iqAttrs q = (iqAttrs w)\<lparr>aLang := []\<rparr>" "iqPayload q = Some t"
      "payload_Namespace t = NSDelegation" "as_delegation left t = Some (forwarding (forwarded_iq_read i (PPubSub v)))"
    using delegation_read [OF assms(1) _ assms(3,4)] by metis
  let ?f = "forwarded_iq_read i (PPubSub v)"
  let ?w = "zero_iq\<lparr>iqXMLName := XName [] ''iq'', iqAttrs := reply_attrs [] q\<rparr>"
  have "iqPayload ?f = Some (PPubSub (pubsub_read v))" "psPublish (pubsub_read v) = Some pub" "aId (iqAttrs ?f) \<noteq> []" "aId (iqAttrs q) \<noteq> []"
    using assms(5-7) q(2) by (simp_all add: forwarded_iq_read_def pubsub_read_def)
  note serve = delegator_publish(1) [OF q(3-5) this]
  have pub: "iqPayload (published ?f) = Some (PPubSub (zero_pubsub\<lparr>psXMLName := XName NSPubSub ''pubsub''\<rparr>))"
      "iqError (published ?f) = None" "iqAny (published ?f) = None"
    by (simp_all add: published_def zero_iq_def)
  obtain r t' where r: "delegation_over_wire ?w (forwarding (published ?f)) = Inr r" "iqAttrs r = (iqAttrs ?w)\<lparr>aLang := []\<rparr>"
      "iqPayload r = Some t'" "as_delegation left t' = Some (forwarding (forwarded_iq_read (published ?f)
        (PPubSub (zero_pubsub\<lparr>psXMLName := XName NSPubSub ''pubsub''\<rparr>))))"
    using delegation_read [OF pub(1) published_ok pub(2,3)] by metis
  let ?fr = "forwarded_iq_read (published ?f) (PPubSub (zero_pubsub\<lparr>psXMLName := XName NSPubSub ''pubsub''\<rparr>))"
  have a: "iqAttrs r = reply_attrs [] w" using r(2) q(2) by (simp add: zero_iq_def reply_attrs_def)
  have "iqAttrs ?fr = reply_attrs [] i"
      "iqPayload ?fr = Some (PPubSub (zero_pubsub\<lparr>psXMLName := XName NSPubSub ''pubsub''\<rparr>))"
    by (simp_all add: forwarded_iq_read_def published_def zero_iq_def reply_attrs_def pubsub_read_def zero_pubsub_def)
  with q(1) serve [of lower uuid uuid' opts] r(1,3,4) a show ?thesis by metis
qed

text \<open>
  C38. A delegated publish-subscribe request of any other kind - asking for items, deleting them,
  creating a node - ends the program: the component dereferences the publish element that it does
  not have.
\<close>

theorem delegated_other_panics:
  assumes "iqPayload i = Some (PPubSub v)" "pubsub_ok v" "iqError i = None" "iqAny i = None" "psPublish v = None"
  shows "\<exists>q. delegation_over_wire w (forwarding i) = Inr q \<and> delegator left lower uuid uuid' opts (PktIQ q) = Inl nil_pointer"
proof -
  have "payload_ok (PPubSub v)" using assms(2) by simp
  then obtain q t where q: "delegation_over_wire w (forwarding i) = Inr q" "iqPayload q = Some t"
      "payload_Namespace t = NSDelegation" "as_delegation left t = Some (forwarding (forwarded_iq_read i (PPubSub v)))"
    using delegation_read [OF assms(1) _ assms(3,4)] by metis
  have "iqPayload (forwarded_iq_read i (PPubSub v)) = Some (PPubSub (pubsub_read v))" "psPublish (pubsub_read v) = None"
    using assms(5) by (simp_all add: forwarded_iq_read_def pubsub_read_def)
  with q(1) delegator_publish(2) [OF q(2-4)] show ?thesis by blast
qed

text \<open>
  A message that confirms a delegated name space is understood. A message with an empty delegation,
  from whomever it comes, ends the program.
\<close>

theorem delegation_confirmed:
  "\<exists>m. on_tree (DecodeMessage package_codec) (Elem n at [on_wire (nSpace n) (delegation_elem (zero_delegation\<lparr>dgDelegated := v\<rparr>))]) = Inr m
    \<and> delegator_handleMessage left (PktMessage m) = (case v of None \<Rightarrow> Inl nil_pointer | Some x \<Rightarrow> Inr [dlNamespace x])"
proof -
  let ?t = "on_wire (nSpace n) (delegation_elem (zero_delegation\<lparr>dgDelegated := v\<rparr>))"
  have n: "elem_name ?t = XName NSDelegation ''delegation''" by (simp add: delegation_elem_def)
  have reg: "GetExtensionType PKTMessage (XName NSDelegation ''delegation'') TypeRegistry = Some ''Delegation''"
    by (simp add: NSDelegation_def registration_simps)
  have "payload_of ''Delegation'' ?t = Inr (PExt ''Delegation'' ?t)" by (rule payload_of_delegation)
  then have step: "Message_step ?t m = Inr (m\<lparr>msgExtensions := msgExtensions m @ [PExt ''Delegation'' ?t]\<rparr>)" for m
    by (simp add: Message_step_def n reg)
  have "list_all (is_elem Message_known) [?t]"
    by (simp add: is_elem_name [of Message_known] Message_known_def n reg)
  note kids = known_list [OF this]
  let ?m = "Message_start n at"
  have "on_tree (DecodeMessage package_codec) (Elem n at [?t]) = Inr (?m\<lparr>msgExtensions := [PExt ''Delegation'' ?t]\<rparr>)"
    using kids [of n] step by (simp add: message_on_tree Message_start_def zero_message_def)
  moreover have "as_delegation left (PExt ''Delegation'' ?t) = Some (zero_delegation\<lparr>dgXMLName := XName NSDelegation ''delegation'',
      dgDelegated := map_option (\<lambda>v. v\<lparr>dlXMLName := XName NSDelegation ''delegated''\<rparr>) v\<rparr>)"
    by (simp add: as_delegation_def decode_confirmation)
  then have "delegator_handleMessage left (PktMessage (?m\<lparr>msgExtensions := [PExt ''Delegation'' ?t]\<rparr>)) =
      (case v of None \<Rightarrow> Inl nil_pointer | Some x \<Rightarrow> Inr [dlNamespace x])"
    by (cases v) (simp_all add: delegator_handleMessage_def List.map_filter_simps)
  ultimately show ?thesis by blast
qed

subsection \<open>Witnesses\<close>

definition sample_query :: iq where
  "sample_query = zero_iq\<lparr>iqAttrs := \<lparr>aType = ''get'', aId = ''1'', aFrom = ''a@b'', aTo = ''c.d'', aLang = []\<rparr>,
     iqPayload := Some (PVersion new_version)\<rparr>"

theorem service_answers_queries_witness:
  "\<exists>q' r r'. over_wire sample_query = Inr q' \<and> service id (Inr ''u'') service_options (PktIQ q') = Inr [SentIQ r]
    \<and> over_wire r = Inr r' \<and> aTo (iqAttrs r') = ''a@b'' \<and> aId (iqAttrs r') = ''1''"
proof -
  have "iqPayload sample_query = Some (PVersion new_version)" "payload_ok (PVersion new_version)" "iqError sample_query = None"
      "iqAny sample_query = None" "aType (iqAttrs sample_query) = ''get''" "aId (iqAttrs sample_query) \<noteq> []"
    by (simp_all add: sample_query_def zero_iq_def new_version_def zero_version_def)
  from service_answers_queries [OF this(1-4) _ this(5,6), of service_options _ id "Inr ''u''"]
  obtain q' r r' where "over_wire sample_query = Inr q'" "service id (Inr ''u'') service_options (PktIQ q') = Inr [SentIQ r]"
      "over_wire r = Inr r'" "iqAttrs r' = \<lparr>aType = ''result'', aId = aId (iqAttrs sample_query), aFrom = aTo (iqAttrs sample_query),
        aTo = aFrom (iqAttrs sample_query), aLang = []\<rparr>"
    by auto
  then show ?thesis
    by (intro exI [of _ q'] exI [of _ r] exI [of _ r']) (simp add: sample_query_def)
qed

theorem version_replies_for_ever_witness:
  "\<exists>k. conversation (service id (Inr ''u'') service_options) 100
     (sample_query\<lparr>iqAttrs := (iqAttrs sample_query)\<lparr>aType := ''result''\<rparr>\<rparr>) = Some k \<and> aTo (iqAttrs k) = ''c.d''"
  using version_replies_for_ever [of "sample_query\<lparr>iqAttrs := (iqAttrs sample_query)\<lparr>aType := ''result''\<rparr>\<rparr>" new_version id "Inr ''u''" service_options 100]
  by (auto simp: sample_query_def zero_iq_def new_version_def zero_version_def simp del: conversation.simps)

theorem delegated_publish_witness:
  "\<exists>q r g r'. delegation_over_wire sample_query (forwarding sample_pubsub_request) = Inr q
    \<and> delegator (\<lambda>_ _ d. d) id (Inr ''u'') (Inr ''u'') service_options (PktIQ q) = Inr [SentDelegation r g]
    \<and> delegation_over_wire r g = Inr r' \<and> aTo (iqAttrs r') = ''a@b''"
proof -
  have "iqPayload sample_pubsub_request = Some (PPubSub sample_pubsub)" "iqError sample_pubsub_request = None"
      "iqAny sample_pubsub_request = None" "\<exists>p. psPublish sample_pubsub = Some p"
      "aId (iqAttrs sample_pubsub_request) \<noteq> []" "aId (iqAttrs sample_query) \<noteq> []" "aFrom (iqAttrs sample_query) = ''a@b''"
    by (simp_all add: sample_pubsub_request_def zero_iq_def sample_pubsub_def sample_query_def)
  then obtain pub where h: "iqPayload sample_pubsub_request = Some (PPubSub sample_pubsub)" "iqError sample_pubsub_request = None"
      "iqAny sample_pubsub_request = None" "psPublish sample_pubsub = Some pub" "aId (iqAttrs sample_pubsub_request) \<noteq> []"
      "aId (iqAttrs sample_query) \<noteq> []" "aFrom (iqAttrs sample_query) = ''a@b''"
    by blast
  obtain q r g r' where "delegation_over_wire sample_query (forwarding sample_pubsub_request) = Inr q"
      "delegator (\<lambda>_ _ d. d) id (Inr ''u'') (Inr ''u'') service_options (PktIQ q) = Inr [SentDelegation r g]"
      "delegation_over_wire r g = Inr r'" "iqAttrs r' = reply_attrs [] sample_query"
    using delegated_publish [OF h(1) sample_pubsub_ok h(2-6), of "\<lambda>_ _ d. d" id "Inr ''u''" "Inr ''u''" service_options] by blast
  with h(7) show ?thesis by (auto simp: reply_attrs_def)
qed

theorem delegated_other_panics_witness:
  "\<exists>q. delegation_over_wire sample_query (forwarding (sample_pubsub_request\<lparr>iqPayload := Some (PPubSub zero_pubsub)\<rparr>)) = Inr q
    \<and> delegator (\<lambda>_ _ d. d) id (Inr ''u'') (Inr ''u'') service_options (PktIQ q) = Inl nil_pointer"
proof -
  let ?i = "sample_pubsub_request\<lparr>iqPayload := Some (PPubSub zero_pubsub)\<rparr>"
  have "iqPayload ?i = Some (PPubSub zero_pubsub)" "pubsub_ok zero_pubsub" "iqError ?i = None" "iqAny ?i = None" "psPublish zero_pubsub = None"
    by (simp_all add: sample_pubsub_request_def zero_iq_def zero_pubsub_def pubsub_ok_def)
  then show ?thesis by (rule delegated_other_panics)
qed

end
