(* ===== verification/ServiceStream.thy ===== *)
theory ServiceStream
  imports Services
begin

text \<open>
  A component program at work: the receiving loop of \<^verbatim>\<open>component.go\<close> with the handlers of its routes run,
  over a live stream. What the handlers give is sent with \<^verbatim>\<open>Component.Send\<close>, whose errors they ignore;
  \<open>msend\<close> is the marshalling of what they send.
\<close>

fun sent_iq :: "sent \<Rightarrow> iq" where
  "sent_iq (SentIQ i) = i"
| "sent_iq (SentDelegation i g) = i"

fun send_sents :: "(sent \<Rightarrow> error + string) \<Rightarrow> sent list \<Rightarrow> ('h component, unit) action" where
  "send_sents msend [] = skip"
| "send_sents msend (x # xs) =
     andThen (ignoring (Component_Send (\<lambda>_. msend x) (PktIQ (sent_iq x)))) (\<lambda>_. send_sents msend xs)"

fun perform ::
  "('h \<Rightarrow> packet \<Rightarrow> error + sent list) \<Rightarrow> (sent \<Rightarrow> error + string) \<Rightarrow> 'h effect list \<Rightarrow> ('h component, unit) action" where
  "perform run msend [] = skip"
| "perform run msend (e # es) =
     andThen (case e of
         EHandle h p \<Rightarrow> (case run h p of Inl er \<Rightarrow> giving (Inl er) | Inr xs \<Rightarrow> send_sents msend xs)
       | _ \<Rightarrow> skip)
       (\<lambda>_. perform run msend es)"

text \<open>A turn of the receiving loop, and the handlers that it has started.\<close>

definition program_step ::
  "codec \<Rightarrow> (packet \<Rightarrow> error + string) \<Rightarrow> 'h component_handler \<Rightarrow> ('h \<Rightarrow> packet \<Rightarrow> error + sent list) \<Rightarrow> (sent \<Rightarrow> error + string) \<Rightarrow>
     ('h component, bool) action" where
  "program_step cdc marshal evh run msend =
     inspect (\<lambda>c0. andThen (component_step cdc marshal evh) (\<lambda>go. inspect (\<lambda>c.
       andThen (perform run msend (drop (length (cpHandled c0)) (cpHandled c))) (\<lambda>_. giving (Inr go)))))"

definition program_loop ::
  "nat \<Rightarrow> codec \<Rightarrow> (packet \<Rightarrow> error + string) \<Rightarrow> 'h component_handler \<Rightarrow> ('h \<Rightarrow> packet \<Rightarrow> error + sent list) \<Rightarrow> (sent \<Rightarrow> error + string) \<Rightarrow>
     'h component \<Rightarrow> ((error + unit) \<times> 'h component) option" where
  "program_loop k cdc marshal evh run msend = run_loop k (program_step cdc marshal evh run msend)"

subsection \<open>One request\<close>

lemma NextPacket_component_iq:
  assumes "iqPayload i = Some p" "payload_ok p" "iqError i = None" "iqAny i = None" "not_at_eof stk"
  shows "NextPacket package_codec (after (xml_tokens (on_wire NSComponent (iq_elem i)) @ rest) stk d) =
    Inr (PktIQ (i\<lparr>iqXMLName := XName NSComponent ''iq'', iqAttrs := (iqAttrs i)\<lparr>aLang := []\<rparr>, iqPayload := Some (payload_read p)\<rparr>),
      after rest stk d)"
proof -
  obtain k where k: "on_wire NSComponent (iq_elem i) = Elem (XName NSComponent ''iq'') (attrs_attrs (iqAttrs i)) [k]" "elements [k] = [k]"
    "\<And>s. IQ_step k s = Inr (s\<lparr>iqPayload := Some (payload_read p)\<rparr>)"
    using iq_on_wire [OF assms(1-4)] by metis
  have ns: "NSComponent \<noteq> NSStream" "NSComponent \<noteq> NSSASL" "NSComponent \<noteq> NSClient" by (simp_all add: ns_defs)
  show ?thesis
    unfolding k(1) NextPacket_def NextXmppToken_elem [OF assms(5)]
    using assms k(2,3) ns
    by (cases i) (simp add: decode_packet_def decodeComponent_def client_decoders as_packet_def IQ_start_elem zero_iq_def)
qed

lemma component_iq_step:
  assumes "cpTransport c = Some (TCP t)" "NextPacket cdc (xtDecoder t) = Inr (PktIQ q, d)"
    and "Router_route SComponent (PktIQ q) (cpRouter c) = ([EHandle h (PktIQ q)], cpRouter c)"
  shows "component_step cdc marshal evh c =
    (Inr True, c\<lparr>cpTransport := Some (TCP (t\<lparr>xtDecoder := d\<rparr>)), cpHandled := cpHandled c @ [EHandle h (PktIQ q)]\<rparr>)"
  using assms
  by (simp add: component_step_def andThen_def attempt_def on_component_def tr_read_def component_packet_def
      Component_route_def component_effect_def)

lemma Component_Send_ready:
  assumes "cpTransport c = Some (TCP t)" "xt_ready ch t" "marshal p = Inr data"
  shows "Component_Send marshal p c = (Inr (), c\<lparr>cpTransport := Some (TCP (wrote ch (ORaw data) t))\<rparr>)"
  using assms
  by (simp add: Component_Send_def component_write_def andThen_def attempt_def on_component_def xt_Write_ready)

lemma program_iq_step:
  assumes "cpTransport c = Some (TCP t)" "xt_ready ch t" "NextPacket cdc (xtDecoder t) = Inr (PktIQ q, d)"
    and "Router_route SComponent (PktIQ q) (cpRouter c) = ([EHandle h (PktIQ q)], cpRouter c)"
    and "run h (PktIQ q) = Inr [x]" "msend x = Inr data"
  shows "program_step cdc marshal evh run msend c =
    (Inr True, c\<lparr>cpTransport := Some (TCP (wrote ch (ORaw data) (t\<lparr>xtDecoder := d\<rparr>))), cpHandled := cpHandled c @ [EHandle h (PktIQ q)]\<rparr>)"
proof -
  let ?c = "c\<lparr>cpTransport := Some (TCP (t\<lparr>xtDecoder := d\<rparr>)), cpHandled := cpHandled c @ [EHandle h (PktIQ q)]\<rparr>"
  have "xt_ready ch (t\<lparr>xtDecoder := d\<rparr>)" using assms(2) by simp
  then have "Component_Send (\<lambda>_. msend x) (PktIQ (sent_iq x)) ?c
      = (Inr (), ?c\<lparr>cpTransport := Some (TCP (wrote ch (ORaw data) (t\<lparr>xtDecoder := d\<rparr>)))\<rparr>)"
    by (intro Component_Send_ready) (simp_all add: assms(6))
  then show ?thesis
    using component_iq_step [OF assms(1,3,4), of marshal evh] assms(5)
    by (simp add: program_step_def andThen_def ignoring_def attempt_def)
qed

lemma service_routed:
  assumes "iqPayload i = Some p" "payload_Namespace p \<in> {NSDiscoInfo, NSDiscoItems, NSVersion}"
  shows "\<exists>h. Router_route SComponent (PktIQ i) (service_router lower) = ([EHandle h (PktIQ i)], service_router lower)
    \<and> service lower uuid opts (PktIQ i) = service_run uuid opts h (PktIQ i)"
  using assms different_names [symmetric]
  by (auto simp: service_def service_router_eq dispatch_simps bind_result_return)

subsection \<open>A stream of requests\<close>

text \<open>A query that the component of the example knows, and its answer.\<close>

definition known_query :: "component_options \<Rightarrow> iq \<Rightarrow> bool" where
  "known_query opts q \<longleftrightarrow>
     (case iqPayload q of None \<Rightarrow> False | Some p \<Rightarrow> payload_ok p \<and> service_answer opts p \<noteq> None)
     \<and> iqError q = None \<and> iqAny q = None \<and> aType (iqAttrs q) = ''get'' \<and> aId (iqAttrs q) \<noteq> []"

definition answer_to :: "component_options \<Rightarrow> iq \<Rightarrow> iq" where
  "answer_to opts q = zero_iq\<lparr>iqXMLName := XName [] ''iq'', iqAttrs := reply_attrs ''en'' q,
     iqPayload := Option.bind (iqPayload q) (service_answer opts)\<rparr>"

lemma known_query_step:
  assumes "cpTransport c = Some (TCP t)" "xt_ready ch t" "cpRouter c = service_router lower" "known_query opts q"
    and "xtDecoder t = after (xml_tokens (on_wire NSComponent (iq_elem q)) @ rest) stk d" "not_at_eof stk"
    and "msend (SentIQ (answer_to opts q)) = Inr data"
  shows "\<exists>c'. program_step package_codec marshal evh (service_run uuid opts) msend c = (Inr True, c')
    \<and> cpTransport c' = Some (TCP (wrote ch (ORaw data) (t\<lparr>xtDecoder := after rest stk d\<rparr>))) \<and> cpRouter c' = cpRouter c"
proof -
  obtain p a where p: "iqPayload q = Some p" "payload_ok p" "service_answer opts p = Some a"
    using assms(4) by (auto simp: known_query_def split: option.splits)
  have q: "iqError q = None" "iqAny q = None" "aType (iqAttrs q) = ''get''" "aId (iqAttrs q) \<noteq> []"
    using assms(4) by (simp_all add: known_query_def)
  let ?q = "q\<lparr>iqXMLName := XName NSComponent ''iq'', iqAttrs := (iqAttrs q)\<lparr>aLang := []\<rparr>, iqPayload := Some (payload_read p)\<rparr>"
  have ns: "payload_Namespace (payload_read p) \<in> {NSDiscoInfo, NSDiscoItems, NSVersion}"
    using p(3) by (cases p) simp_all
  have pl: "iqPayload ?q = Some (payload_read p)" by simp
  obtain h where h: "Router_route SComponent (PktIQ ?q) (cpRouter c) = ([EHandle h (PktIQ ?q)], cpRouter c)"
      "service lower uuid opts (PktIQ ?q) = service_run uuid opts h (PktIQ ?q)"
    using service_routed [OF pl ns, of lower uuid opts] unfolding assms(3) by blast
  have "service lower uuid opts (PktIQ ?q) = Inr [SentIQ (answer_to opts q)]"
    using service_answers [of ?q p opts a lower uuid] p q by (simp add: answer_to_def reply_attrs_def)
  then have "service_run uuid opts h (PktIQ ?q) = Inr [SentIQ (answer_to opts q)]" using h(2) by simp
  moreover have "NextPacket package_codec (xtDecoder t) = Inr (PktIQ ?q, after rest stk d)"
    unfolding assms(5) by (rule NextPacket_component_iq [OF p(1,2) q(1,2) assms(6)])
  ultimately have "program_step package_codec marshal evh (service_run uuid opts) msend c =
      (Inr True, c\<lparr>cpTransport := Some (TCP (wrote ch (ORaw data) (t\<lparr>xtDecoder := after rest stk d\<rparr>))),
        cpHandled := cpHandled c @ [EHandle h (PktIQ ?q)]\<rparr>)"
    using assms(1,2,7) h(1) by (intro program_iq_step [where run = "service_run uuid opts"])
  then show ?thesis by simp
qed

lemma program_answers_all:
  assumes "list_all (known_query opts) qs" "not_at_eof stk" "\<And>x. msend x = Inr (render x)"
  shows "cpTransport c = Some (TCP t) \<Longrightarrow> xt_ready ch t \<Longrightarrow> cpRouter c = service_router lower \<Longrightarrow>
    xtDecoder t = after (concat (map (\<lambda>q. xml_tokens (on_wire NSComponent (iq_elem q))) qs) @ rest) stk d \<Longrightarrow>
    \<exists>c' t'. (\<forall>k. program_loop (length qs + k) package_codec marshal evh (service_run uuid opts) msend c
        = program_loop k package_codec marshal evh (service_run uuid opts) msend c')
      \<and> cpTransport c' = Some (TCP t') \<and> xtDecoder t' = after rest stk d
      \<and> xtOut t' = xtOut t @ map (\<lambda>q. (ch, ORaw (render (SentIQ (answer_to opts q))))) qs"
  using assms(1)
proof (induction qs arbitrary: c t)
  case Nil
  then show ?case by (intro exI [of _ c] exI [of _ t]) simp
next
  case (Cons q qs)
  let ?more = "concat (map (\<lambda>q. xml_tokens (on_wire NSComponent (iq_elem q))) qs) @ rest"
  let ?t = "wrote ch (ORaw (render (SentIQ (answer_to opts q)))) (t\<lparr>xtDecoder := after ?more stk d\<rparr>)"
  obtain c1 where c1: "program_step package_codec marshal evh (service_run uuid opts) msend c = (Inr True, c1)"
      "cpTransport c1 = Some (TCP ?t)" "cpRouter c1 = cpRouter c"
    using known_query_step [OF Cons.prems(1-3) _ _ assms(2), of opts q ?more d msend "render (SentIQ (answer_to opts q))" marshal evh uuid]
      Cons.prems(4,5) assms(3) by auto
  obtain c' t' where c': "\<And>k. program_loop (length qs + k) package_codec marshal evh (service_run uuid opts) msend c1
        = program_loop k package_codec marshal evh (service_run uuid opts) msend c'"
      "cpTransport c' = Some (TCP t')" "xtDecoder t' = after rest stk d"
      "xtOut t' = xtOut ?t @ map (\<lambda>q. (ch, ORaw (render (SentIQ (answer_to opts q))))) qs"
    using Cons.IH [OF c1(2)] c1(3) Cons.prems(2,3,5) by auto
  have "program_loop (length (q # qs) + k) package_codec marshal evh (service_run uuid opts) msend c
      = program_loop k package_codec marshal evh (service_run uuid opts) msend c'" for k
    using c'(1) [of k] c1(1) by (simp add: program_loop_def)
  with c' show ?case by (intro exI [of _ c'] exI [of _ t']) simp
qed

text \<open>
  C4. A component on a live stream answers a sequence of queries, whatever their order and number, with
  exactly their answers, in order, and leaves the stream after the last of them.
\<close>

theorem component_answers_stream:
  assumes "list_all (known_query opts) qs" "not_at_eof stk" "\<And>x. msend x = Inr (render x)"
    and "cpTransport c = Some (TCP t)" "xt_ready ch t" "cpRouter c = service_router lower"
    and "xtDecoder t = after (concat (map (\<lambda>q. xml_tokens (on_wire NSComponent (iq_elem q))) qs) @ rest) stk d"
  shows "\<exists>c' t'. (\<forall>k. program_loop (length qs + k) package_codec marshal evh (service_run uuid opts) msend c
        = program_loop k package_codec marshal evh (service_run uuid opts) msend c')
      \<and> cpTransport c' = Some (TCP t') \<and> xtDecoder t' = after rest stk d
      \<and> xtOut t' = xtOut t @ map (\<lambda>q. (ch, ORaw (render (SentIQ (answer_to opts q))))) qs"
  by (rule program_answers_all [OF assms])

definition sample_service :: "xtoken list \<Rightarrow> service_handler component" where
  "sample_service ts = \<lparr>cpOptions = service_options, cpRouter = service_router id,
     cpTransport = Some (TCP (sample_reader Clear ts)), cpServers = [], cpCurrentState = StateSessionEstablished,
     cpEvents = [], cpErrors = [], cpHandled = []\<rparr>"

theorem component_answers_stream_witness:
  "\<exists>ts c' t'. program_loop 3 package_codec (\<lambda>_. Inr []) (\<lambda>_. skip) (service_run (Inr ''u'') service_options) (\<lambda>_. Inr ''x'') (sample_service ts)
      = program_loop 1 package_codec (\<lambda>_. Inr []) (\<lambda>_. skip) (service_run (Inr ''u'') service_options) (\<lambda>_. Inr ''x'') c'
    \<and> cpTransport c' = Some (TCP t') \<and> length (xtOut t') = 2"
proof -
  let ?qs = "[sample_query, sample_query]"
  let ?ts = "concat (map (\<lambda>q. xml_tokens (on_wire NSComponent (iq_elem q))) ?qs)"
  have "list_all (known_query service_options) ?qs"
    by (simp add: known_query_def sample_query_def zero_iq_def new_version_def zero_version_def)
  moreover have "not_at_eof []" by simp
  moreover have "cpTransport (sample_service ?ts) = Some (TCP (sample_reader Clear ?ts))" "cpRouter (sample_service ?ts) = service_router id"
    by (simp_all add: sample_service_def)
  moreover have "xt_ready Clear (sample_reader Clear ?ts)" by (rule sample_reader_ready)
  moreover have "xtDecoder (sample_reader Clear ?ts) = after (?ts @ []) [] no_decoder" by (simp add: sample_reader_ready)
  ultimately obtain c' t' where
    "\<forall>k. program_loop (length ?qs + k) package_codec (\<lambda>_. Inr []) (\<lambda>_. skip) (service_run (Inr ''u'') service_options) (\<lambda>_. Inr ''x'') (sample_service ?ts)
      = program_loop k package_codec (\<lambda>_. Inr []) (\<lambda>_. skip) (service_run (Inr ''u'') service_options) (\<lambda>_. Inr ''x'') c'"
    "cpTransport c' = Some (TCP t')" "xtOut t' = xtOut (sample_reader Clear ?ts) @ map (\<lambda>q. (Clear, ORaw ''x'')) ?qs"
    using component_answers_stream [where msend = "\<lambda>_. Inr ''x''" and render = "\<lambda>_. ''x''" and rest = "[]" and marshal = "\<lambda>_. Inr []"
        and evh = "\<lambda>_. skip" and uuid = "Inr ''u''"] by blast
  moreover have "length ?qs + 1 = 3" by simp
  ultimately show ?thesis
    by (metis (no_types, lifting) sample_reader_ready(3) append_Nil length_map One_nat_def Suc_eq_plus1 add_2_eq_Suc' list.size(3,4) numeral_2_eq_2)
qed

end
