(* ===== verification/Jukebox.thy ===== *)
theory Jukebox
  imports Services
begin

text \<open>
  The client program \<^verbatim>\<open>_examples/xmpp_jukebox/xmpp_jukebox.go\<close>: a player that is controlled by messages
  and by control requests. The player and the service that finds songs are other people's packages:
  \<open>GetSongID\<close> and \<open>FormatStreamURL\<close> are parameters, and what is done to the player and what is sent is
  recorded, in order.
\<close>

text \<open>\<open>SendSetResponse\<close> sends an IQ with an empty \<^verbatim>\<open>ControlSetResponse\<close>.\<close>

datatype jukebox_effect = PlayURL string | StopPlayer | SendTune iq | SendSetResponse attrs

text \<open>\<^verbatim>\<open>strings.Trim(s, " ")\<close>, and \<^verbatim>\<open>strings.ReplaceAll\<close> of a text that is not empty.\<close>

definition Trim_spaces :: "string \<Rightarrow> string" where
  "Trim_spaces s = rev (dropWhile (\<lambda>c. c = CHR '' '') (rev (dropWhile (\<lambda>c. c = CHR '' '') s)))"

function ReplaceAll :: "string \<Rightarrow> string \<Rightarrow> string \<Rightarrow> string" where
  "ReplaceAll old new s =
     (case s of
        [] \<Rightarrow> []
      | c # cs \<Rightarrow>
          if old \<noteq> [] \<and> take (length old) s = old then new @ ReplaceAll old new (drop (length old) s)
          else c # ReplaceAll old new cs)"
  by pat_completeness auto
termination
  by (relation "measure (\<lambda>(old, new, s). length s)") auto

declare ReplaceAll.simps [simp del]

definition scClientID :: string where "scClientID = ''dde6a0075614ac4f3bea423863076b22''"

definition playSCURL :: "(string \<Rightarrow> 'id) \<Rightarrow> ('id \<Rightarrow> string) \<Rightarrow> string \<Rightarrow> jukebox_effect" where
  "playSCURL GetSongID FormatStreamURL rawURL =
     PlayURL (ReplaceAll ''YOUR_SOUNDCLOUD_CLIENTID'' scClientID (FormatStreamURL (GetSongID rawURL)))"

definition tune_node :: "string \<Rightarrow> string \<Rightarrow> node" where
  "tune_node artist title =
     Node (XName [] []) [] [] [Node (XName [] ''artist'') [] artist [], Node (XName [] ''title'') [] title []]"

definition sendUserTune :: "error + string \<Rightarrow> string \<Rightarrow> string \<Rightarrow> jukebox_effect list" where
  "sendUserTune uuid artist title =
     (case NewPublishItemRq uuid ''localhost'' ''http://jabber.org/protocol/tune'' []
         (zero_item\<lparr>itAny := Some (tune_node artist title)\<rparr>) of
        Inl e \<Rightarrow> []
      | Inr rq \<Rightarrow> [SendTune rq])"

definition jukebox_handleMessage ::
  "(string \<Rightarrow> 'id) \<Rightarrow> ('id \<Rightarrow> string) \<Rightarrow> error + string \<Rightarrow> packet \<Rightarrow> jukebox_effect list" where
  "jukebox_handleMessage gid fmt uuid p =
     (case p of
        PktMessage m \<Rightarrow>
          let command = Trim_spaces (msgBody m) in
          if command = ''stop'' then [StopPlayer]
          else playSCURL gid fmt command # sendUserTune uuid ''Radiohead'' ''Spectre''
      | _ \<Rightarrow> [])"

text \<open>The first field that is called \<^verbatim>\<open>url\<close> and is a string; no text when there is none.\<close>

fun url_field :: "control_field list \<Rightarrow> string" where
  "url_field [] = []"
| "url_field (f # fs) =
     (if nLocal (cfdXMLName f) = ''string'' \<and> cfdName f = ''url'' then Trim_spaces (cfdValue f) else url_field fs)"

definition jukebox_handleIQ ::
  "(string \<Rightarrow> 'id) \<Rightarrow> ('id \<Rightarrow> string) \<Rightarrow> error + string \<Rightarrow> packet \<Rightarrow> jukebox_effect list" where
  "jukebox_handleIQ gid fmt uuid p =
     (case p of
        PktIQ i \<Rightarrow>
          (case iqPayload i of
             Some (PControlSet payload) \<Rightarrow>
               playSCURL gid fmt (url_field (csFields payload))
               # SendSetResponse \<lparr>aType = ''result'', aId = aId (iqAttrs i), aFrom = [], aTo = aFrom (iqAttrs i), aLang = []\<rparr>
               # sendUserTune uuid ''Radiohead'' ''Spectre''
           | _ \<Rightarrow> [])
      | _ \<Rightarrow> [])"

datatype jukebox_handler = JukeboxMessage | JukeboxIQ

definition jukebox_router :: "(string \<Rightarrow> string) \<Rightarrow> jukebox_handler router" where
  "jukebox_router lower = Router_Handle lower ''iq'' JukeboxIQ (Router_Handle lower ''message'' JukeboxMessage NewRouter)"

fun jukebox_run ::
  "(string \<Rightarrow> 'id) \<Rightarrow> ('id \<Rightarrow> string) \<Rightarrow> error + string \<Rightarrow> jukebox_handler effect \<Rightarrow> jukebox_effect list" where
  "jukebox_run gid fmt uuid (EHandle JukeboxMessage p) = jukebox_handleMessage gid fmt uuid p"
| "jukebox_run gid fmt uuid (EHandle JukeboxIQ p) = jukebox_handleIQ gid fmt uuid p"
| "jukebox_run gid fmt uuid e = []"

definition jukebox ::
  "(string \<Rightarrow> 'id) \<Rightarrow> ('id \<Rightarrow> string) \<Rightarrow> (string \<Rightarrow> string) \<Rightarrow> error + string \<Rightarrow> packet \<Rightarrow> jukebox_effect list" where
  "jukebox gid fmt lower uuid p =
     concat (map (jukebox_run gid fmt uuid) (fst (Router_route SClient p (jukebox_router lower))))"

lemma jukebox_router_eq:
  "jukebox_router lower = \<lparr>rRoutes =
     [\<lparr>rtHandler = Some JukeboxMessage, rtMatchers = [NameMatcher ''message'']\<rparr>,
      \<lparr>rtHandler = Some JukeboxIQ, rtMatchers = [NameMatcher ''iq'']\<rparr>],
     rIQResultRoutes = (\<lambda>_. None), rChannels = 0\<rparr>"
proof -
  have "ToLower lower ''iq'' = ''iq''" by (simp add: ToLower_def is_ascii_def lower_char_def)
  then show ?thesis by (simp add: jukebox_router_def router_simps)
qed

lemma jukebox_dispatch:
  "jukebox gid fmt lower uuid (PktMessage m) = jukebox_handleMessage gid fmt uuid (PktMessage m)"
  "jukebox gid fmt lower uuid (PktIQ i) = jukebox_handleIQ gid fmt uuid (PktIQ i)"
  by (simp_all add: jukebox_def jukebox_router_eq dispatch_simps)

lemma sendUserTune_sends:
  "\<exists>rq v. sendUserTune uuid artist title = [SendTune rq] \<and> iqPayload rq = Some (PPubSub v)
    \<and> psPublish v = Some \<lparr>pubNode = ''http://jabber.org/protocol/tune'', pubItems = [zero_item\<lparr>itAny := Some (tune_node artist title)\<rparr>]\<rparr>"
proof -
  have "\<not> TrimSpace_is_empty ''http://jabber.org/protocol/tune''" "TrimSpace_is_empty []"
    by (simp_all add: TrimSpace_is_empty_def runes_ascii is_ascii_def IsSpace_def)
  moreover let ?p = "PPubSub (zero_pubsub\<lparr>psPublish := Some \<lparr>pubNode = ''http://jabber.org/protocol/tune'',
    pubItems = [zero_item\<lparr>itAny := Some (tune_node artist title)\<rparr>]\<rparr>\<rparr>)"
  obtain rq where rq: "request uuid ''set'' ''localhost'' ?p = Inr rq" by (simp add: request_Inr)
  ultimately have "sendUserTune uuid artist title = [SendTune rq]" by (simp add: sendUserTune_def NewPublishItemRq_def)
  moreover have "iqPayload rq = Some ?p" using rq by (auto simp: request_Inr)
  ultimately show ?thesis by (simp add: zero_pubsub_def)
qed

text \<open>
  A control request that reaches the jukebox on the wire plays the song of its first \<^verbatim>\<open>url\<close> field, and is
  answered under its identifier; a message is a command. Then the program publishes the tune.
\<close>

theorem jukebox_plays:
  assumes "iqPayload i = Some (PControlSet c)" "control_ok c" "iqError i = None" "iqAny i = None"
  shows "\<exists>q rq. over_wire i = Inr q \<and> jukebox gid fmt lower uuid (PktIQ q) =
      [playSCURL gid fmt (url_field (csFields c)),
       SendSetResponse \<lparr>aType = ''result'', aId = aId (iqAttrs i), aFrom = [], aTo = aFrom (iqAttrs i), aLang = []\<rparr>, SendTune rq]"
proof -
  have "payload_ok (PControlSet c)" using assms(2) by simp
  note r = iq_roundtrip [OF assms(1) this assms(3,4)]
  obtain rq where "sendUserTune uuid ''Radiohead'' ''Spectre'' = [SendTune rq]" using sendUserTune_sends by blast
  with r show ?thesis by (simp add: jukebox_dispatch jukebox_handleIQ_def)
qed

text \<open>
  The tune is never published: its element has no name, so that the encoder refuses the request.
\<close>

theorem tune_refused:
  "\<exists>rq v it n. sendUserTune uuid artist title = [SendTune rq] \<and> iqPayload rq = Some (PPubSub v)
    \<and> map_option pubItems (psPublish v) = Some [it] \<and> itAny it = Some n
    \<and> Node_MarshalXML n = Inl (LibErr ''xml: start tag with no name'')"
proof -
  obtain rq v where "sendUserTune uuid artist title = [SendTune rq]" "iqPayload rq = Some (PPubSub v)"
      "psPublish v = Some \<lparr>pubNode = ''http://jabber.org/protocol/tune'', pubItems = [zero_item\<lparr>itAny := Some (tune_node artist title)\<rparr>]\<rparr>"
    using sendUserTune_sends by blast
  then show ?thesis
    by (intro exI [of _ rq] exI [of _ v] exI [of _ "zero_item\<lparr>itAny := Some (tune_node artist title)\<rparr>"] exI [of _ "tune_node artist title"])
      (simp add: Node_MarshalXML_def tune_node_def)
qed

theorem jukebox_plays_witness:
  "\<exists>q rq. over_wire (zero_iq\<lparr>iqPayload := Some (PControlSet (zero_control_set\<lparr>csFields :=
       [\<lparr>cfdXMLName = XName NSControl ''string'', cfdName = ''url'', cfdValue = '' u ''\<rparr>]\<rparr>))\<rparr>) = Inr q
    \<and> hd (jukebox id (\<lambda>u. u @ ''?k=YOUR_SOUNDCLOUD_CLIENTID'') id (Inr ''1'') (PktIQ q))
      = PlayURL ''u?k=dde6a0075614ac4f3bea423863076b22''"
proof -
  let ?c = "zero_control_set\<lparr>csFields := [\<lparr>cfdXMLName = XName NSControl ''string'', cfdName = ''url'', cfdValue = '' u ''\<rparr>]\<rparr>"
  have "playSCURL id (\<lambda>u. u @ ''?k=YOUR_SOUNDCLOUD_CLIENTID'') (url_field (csFields ?c)) = PlayURL ''u?k=dde6a0075614ac4f3bea423863076b22''"
    by (simp add: playSCURL_def Trim_spaces_def ReplaceAll.simps scClientID_def zero_control_set_def)
  moreover have "control_ok ?c" by (simp add: control_ok_def zero_control_set_def)
  ultimately show ?thesis
    using jukebox_plays [of "zero_iq\<lparr>iqPayload := Some (PControlSet ?c)\<rparr>" ?c id "\<lambda>u. u @ ''?k=YOUR_SOUNDCLOUD_CLIENTID''" id "Inr ''1''"]
    by (auto simp: zero_iq_def)
qed

end
