(* ===== verification/CustomPayload.thy ===== *)
theory CustomPayload
  imports Requests
begin

text \<open>
  A program that brings a payload of its own, \<^verbatim>\<open>_examples/custom_stanza/custom_stanza.go\<close>: it registers
  the type with the package, prints an IQ with it and parses it again. The decoder of the package then
  runs with the extended registry; the payload is the tree of its element, which is read here by the
  tags of its struct.
\<close>

record custom_payload =
  cuXMLName :: xname
  cuNode :: string

definition custom_name :: xname where
  "custom_name = XName ''my:custom:payload'' ''query''"

definition custom_codec :: codec where
  "custom_codec = package_codec\<lparr>cdcRegistry := MapExtension PKTIQ custom_name ''CustomPayload'' TypeRegistry\<rparr>"

definition decode_custom :: "xml \<Rightarrow> error + custom_payload" where
  "decode_custom t =
     bind_result (expect_name ''my:custom:payload'' ''query'' t) (\<lambda>n.
       decode_fields (\<lambda>l v s. Inr (if l = ''node'' then s\<lparr>cuNode := v\<rparr> else s)) no_child t \<lparr>cuXMLName = n, cuNode = []\<rparr>)"

definition custom_elem :: "custom_payload \<Rightarrow> xml" where
  "custom_elem v = Elem custom_name (opt_attr ''node'' (cuNode v)) []"

text \<open>An IQ whose payload is printed as the element \<open>k\<close>.\<close>

definition iq_with :: "iq \<Rightarrow> xml \<Rightarrow> xml" where
  "iq_with i k = Elem (plain_name ''iq'') (attrs_attrs (iqAttrs i)) [k]"

definition custom_over_wire :: "iq \<Rightarrow> xml \<Rightarrow> error + iq" where
  "custom_over_wire i k = Unmarshal (DecodeIQ custom_codec) (rescan [] (xml_tokens (iq_with i k)))"

text \<open>The program; every error is \<^verbatim>\<open>log.Fatalf\<close>.\<close>

definition custom_main :: "error + string \<Rightarrow> error + custom_payload" where
  "custom_main uuid =
     bind_result (NewIQ uuid (zero_attrs\<lparr>aType := ''get'', aTo := ''service.localhost'', aId := ''custom-pl-1''\<rparr>)) (\<lambda>iq.
       bind_result (custom_over_wire iq (custom_elem \<lparr>cuXMLName = custom_name, cuNode = ''test''\<rparr>)) (\<lambda>parsedIQ.
         case iqPayload parsedIQ of
           Some (PExt ty t) \<Rightarrow>
             if ty = ''CustomPayload'' then
               bind_result (decode_custom t) (\<lambda>parsedPayload.
                 if cuNode parsedPayload \<noteq> ''test'' then Inl (Err (''Incorrect node value: '' @ cuNode parsedPayload))
                 else Inr parsedPayload)
             else Inl (Err ''Incorrect payload type'')
         | _ \<Rightarrow> Inl (Err ''Incorrect payload type'')))"

subsection \<open>Reading with an extended registry\<close>

lemma custom_registered: "GetExtensionType PKTIQ custom_name (cdcRegistry custom_codec) = Some ''CustomPayload''"
  by (simp add: custom_codec_def GetExtensionType_get MapExtension_register reg.get_registered)

lemma custom_keeps:
  "nSpace n \<noteq> ''my:custom:payload'' \<Longrightarrow> GetExtensionType PKTIQ n (cdcRegistry custom_codec) = GetExtensionType PKTIQ n TypeRegistry"
  by (simp add: custom_codec_def custom_name_def GetExtensionType_get MapExtension_register reg.get_other_key)

lemma custom_on_wire:
  assumes "is_elem (\<lambda>_. True) k" "nLocal (elem_name (on_wire [] k)) \<noteq> ''error''"
    and "GetExtensionType PKTIQ (elem_name (on_wire [] k)) (cdcRegistry custom_codec) = Some ty" "payload_of ty (on_wire [] k) = Inr p"
  shows "custom_over_wire i k = Inr (zero_iq\<lparr>iqXMLName := XName [] ''iq'', iqAttrs := (iqAttrs i)\<lparr>aLang := []\<rparr>, iqPayload := Some p\<rparr>)"
proof -
  let ?k = "on_wire [] k" and ?step = "\<lambda>_ s. Inr (s\<lparr>iqPayload := Some p\<rparr>)"
  have "is_elem (\<lambda>_. True) ?k" using assms(1) by (simp add: is_elem_wire)
  then obtain n at kids where k: "?k = Elem n at kids" by (cases ?k) auto
  have "GetIQExtension (cdcIsIQPayload custom_codec) n (cdcRegistry custom_codec) = Some ty"
    using assms(3) k by (simp add: GetIQExtension_def custom_codec_def)
  moreover have "cdcDecode custom_codec ty = decode_payload ty" by (simp add: custom_codec_def)
  ultimately have "exact_on (IQ_child custom_codec) ?step ?k"
    using assms(2,4) k by (simp add: exact_on_def IQ_child_def child_payload)
  then have "on_tree (DecodeIQ custom_codec) (Elem (XName [] ''iq'') at' [?k])
      = fold_result ?step (elements [?k]) (IQ_start (XName [] ''iq'') at')" for at'
    unfolding on_tree_def DecodeIQ_def IQ_UnmarshalXML_def xml.case
    by (subst unmarshalInterface_tree [where step = ?step])
      (simp_all, cases "fold_result ?step (elements [?k]) (IQ_start (XName [] ''iq'') at')", simp_all)
  moreover have "elements [?k] = [?k]" using k by (simp add: elements_def)
  moreover have "is_elem (\<lambda>_. True) (iq_with i k)" by (simp add: iq_with_def)
  ultimately show ?thesis
    unfolding custom_over_wire_def by (subst Unmarshal_on_tree) (simp_all add: iq_with_def IQ_start_elem zero_iq_def)
qed

text \<open>A program's own payload is read as it was printed.\<close>

theorem custom_payload_read:
  "\<exists>t. custom_over_wire i (custom_elem v)
      = Inr (zero_iq\<lparr>iqXMLName := XName [] ''iq'', iqAttrs := (iqAttrs i)\<lparr>aLang := []\<rparr>, iqPayload := Some (PExt ''CustomPayload'' t)\<rparr>)
    \<and> decode_custom t = Inr (v\<lparr>cuXMLName := custom_name\<rparr>)"
proof -
  let ?t = "on_wire [] (custom_elem v)"
  have n: "elem_name ?t = custom_name" by (simp add: custom_elem_def custom_name_def)
  have "payload_of ''CustomPayload'' ?t = Inr (PExt ''CustomPayload'' ?t)"
    by (simp add: payload_of_def extension_decoders_def marker_decoders_def state_decoders_def hint_decoders_def receipt_decoders_def)
  moreover have "is_elem (\<lambda>_. True) (custom_elem v)" "nLocal (elem_name ?t) \<noteq> ''error''"
    by (simp_all add: custom_elem_def custom_name_def)
  moreover have "GetExtensionType PKTIQ (elem_name ?t) (cdcRegistry custom_codec) = Some ''CustomPayload''"
    unfolding n by (rule custom_registered)
  moreover have "decode_custom ?t = Inr (v\<lparr>cuXMLName := custom_name\<rparr>)"
    by (cases v) (simp add: decode_custom_def custom_elem_def custom_name_def expect_name_def decode_fields_def opt_attr_def)
  ultimately show ?thesis using custom_on_wire by blast
qed

text \<open>The payloads of the package are still read as before.\<close>

theorem package_payloads_kept:
  assumes "payload_ok p" "payload_elem p = Some k"
  shows "custom_over_wire i k
    = Inr (zero_iq\<lparr>iqXMLName := XName [] ''iq'', iqAttrs := (iqAttrs i)\<lparr>aLang := []\<rparr>, iqPayload := Some (payload_read p)\<rparr>)"
proof -
  have k: "is_elem (\<lambda>_. True) k" "elem_name (on_wire [] k) = payload_name p" "nLocal (payload_name p) \<noteq> ''error''"
    using payload_named [OF assms(1), of "[]"] assms(2) by auto
  have "nSpace (payload_name p) \<noteq> ''my:custom:payload''"
    using assms(1) by (cases p) (simp_all add: payload_name_def bind_elem_def stream_session_elem_def pubsub_elem_def
        pubsub_owner_elem_def command_elem_def disco_info_elem_def disco_items_elem_def roster_elem_def roster_items_elem_def
        version_elem_def control_set_elem_def NSControl_def NSBind_def NSSession_def NSPubSub_def NSPubSubOwner_def NSCommands_def
        NSDiscoInfo_def NSDiscoItems_def NSRoster_def NSVersion_def)
  then have "GetExtensionType PKTIQ (elem_name (on_wire [] k)) (cdcRegistry custom_codec) = Some (payload_type (payload_read p))"
    by (simp add: k(2) custom_keeps payload_registered [OF assms(1)])
  from custom_on_wire [OF k(1) _ this payload_of_elem [OF assms]] k(2,3) show ?thesis by simp
qed

text \<open>The program succeeds.\<close>

theorem custom_main_succeeds:
  "custom_main uuid = Inr \<lparr>cuXMLName = custom_name, cuNode = ''test''\<rparr>"
proof -
  let ?v = "\<lparr>cuXMLName = custom_name, cuNode = ''test''\<rparr>"
  let ?a = "zero_attrs\<lparr>aType := ''get'', aTo := ''service.localhost'', aId := ''custom-pl-1''\<rparr>"
  let ?i = "zero_iq\<lparr>iqXMLName := XName [] ''iq'', iqAttrs := ?a\<rparr>"
  have "NewIQ uuid ?a = Inr ?i" by (simp add: NewIQ_def Let_def)
  moreover obtain t where "custom_over_wire ?i (custom_elem ?v)
      = Inr (zero_iq\<lparr>iqXMLName := XName [] ''iq'', iqAttrs := (iqAttrs ?i)\<lparr>aLang := []\<rparr>, iqPayload := Some (PExt ''CustomPayload'' t)\<rparr>)"
      "decode_custom t = Inr ?v"
    using custom_payload_read [of ?i ?v] by auto
  ultimately show ?thesis by (simp add: custom_main_def)
qed

end
