(* ===== verification/WsReader.thy ===== *)
theory WsReader
  imports Prelude
begin

text \<open>
  The goroutine that reads a websocket, \<^verbatim>\<open>startReader\<close> in \<^verbatim>\<open>websocket_transport.go\<close>, the channel
  \<^verbatim>\<open>queue\<close> between it and \<^verbatim>\<open>Read\<close>, which the XML decoder calls, and \<^verbatim>\<open>Close\<close>, which another goroutine
  may call at any time: a step relation in which their steps interleave in every order. What the
  websocket library gives to the reader is a script: an error of \<^verbatim>\<open>Reader\<close>, an error of \<^verbatim>\<open>Read\<close> with the
  bytes that came with it, or a message with the number of bytes that the one call of \<^verbatim>\<open>Read\<close> returns.
\<close>

definition maxPacketSize :: nat where "maxPacketSize = 32768"
definition queueCapacity :: nat where "queueCapacity = 256"

datatype ws_arrival = ReaderErr | ReadErr string | Message string nat

record ws_link =
  wlArrivals :: "ws_arrival list"
  wlRunning :: bool
  wlHeld :: "string option"
  wlQueue :: "string list"
  wlClosed :: bool
  wlCancelled :: bool
  wlGot :: string
  wlPanic :: bool

definition ws_start :: "ws_arrival list \<Rightarrow> ws_link" where
  "ws_start ms = \<lparr>wlArrivals = ms, wlRunning = True, wlHeld = None, wlQueue = [], wlClosed = False, wlCancelled = False, wlGot = [], wlPanic = False\<rparr>"

text \<open>
  The bytes that the reader takes from its one call of \<^verbatim>\<open>Read\<close>: those that come with an error are in
  its buffer and are dropped.
\<close>

fun read_bytes :: "ws_arrival \<Rightarrow> string" where
  "read_bytes (Message m n) = take (min n maxPacketSize) m"
| "read_bytes _ = []"

text \<open>
  A pass of the loop up to the send: once the connection is closed and the context cancelled, \<^verbatim>\<open>Reader\<close> fails. The copy
  that is sent is held until the channel takes it.
\<close>

definition reader_receive :: "ws_link \<Rightarrow> ws_link" where
  "reader_receive s =
     (if wlCancelled s then s\<lparr>wlRunning := False\<rparr>
      else
        (case wlArrivals s of
           [] \<Rightarrow> s
         | ReaderErr # ms \<Rightarrow> s\<lparr>wlArrivals := ms, wlRunning := False\<rparr>
         | ReadErr m # ms \<Rightarrow> s\<lparr>wlArrivals := ms, wlRunning := False\<rparr>
         | Message m n # ms \<Rightarrow>
             let data = read_bytes (Message m n) in
             s\<lparr>wlArrivals := ms, wlHeld := (if data = [] then None else Some data)\<rparr>))"

text \<open>\<^verbatim>\<open>t.queue <- tmp\<close> blocks while the channel is full, and panics when it is closed.\<close>

definition reader_send :: "ws_link \<Rightarrow> ws_link option" where
  "reader_send s =
     (case wlHeld s of
        None \<Rightarrow> None
      | Some data \<Rightarrow>
          if wlClosed s then Some (s\<lparr>wlPanic := True\<rparr>)
          else if length (wlQueue s) < queueCapacity then Some (s\<lparr>wlQueue := wlQueue s @ [data], wlHeld := None\<rparr>)
          else None)"

text \<open>
  \<^verbatim>\<open>Read\<close> into a slice of length \<open>k\<close>: the number that is returned is the length of the data, also when
  not all of it was copied; a closed and empty channel gives no bytes and no error. The \<^verbatim>\<open>select\<close> may
  also take the branch of the cancelled context, when \<open>cancelled\<close> holds.
\<close>

definition ws_Read :: "bool \<Rightarrow> nat \<Rightarrow> ws_link \<Rightarrow> ((error + nat) \<times> ws_link) option" where
  "ws_Read cancelled k s =
     (if cancelled then (if wlCancelled s then Some (Inl (Err ''context canceled''), s) else None)
      else
        (case wlQueue s of
           [] \<Rightarrow> if wlClosed s then Some (Inr 0, s) else None
         | data # q \<Rightarrow> Some (Inr (length data), s\<lparr>wlQueue := q, wlGot := wlGot s @ take k data\<rparr>)))"

text \<open>
  \<^verbatim>\<open>cleanup\<close> first closes the channel, then the connection and the context. \<^verbatim>\<open>Close\<close> works on a copy of
  the transport, whose fields it clears, so that a second one closes the channel again, which panics.
\<close>

definition ws_close_queue :: "ws_link \<Rightarrow> ws_link" where
  "ws_close_queue s = (if wlClosed s then s\<lparr>wlPanic := True\<rparr> else s\<lparr>wlClosed := True\<rparr>)"

definition ws_close_conn :: "ws_link \<Rightarrow> ws_link" where
  "ws_close_conn s = s\<lparr>wlCancelled := True\<rparr>"

inductive ws_step :: "nat \<Rightarrow> ws_link \<Rightarrow> ws_link \<Rightarrow> bool" for k where
  receive: "\<not> wlPanic s \<Longrightarrow> wlRunning s \<Longrightarrow> wlHeld s = None \<Longrightarrow> ws_step k s (reader_receive s)"
| send: "\<not> wlPanic s \<Longrightarrow> wlRunning s \<Longrightarrow> reader_send s = Some s' \<Longrightarrow> ws_step k s s'"
| read: "\<not> wlPanic s \<Longrightarrow> ws_Read cancelled k s = Some (r, s') \<Longrightarrow> ws_step k s s'"
| close: "\<not> wlPanic s \<Longrightarrow> ws_step k s (ws_close_queue s)"
| cancel: "\<not> wlPanic s \<Longrightarrow> wlClosed s \<Longrightarrow> ws_step k s (ws_close_conn s)"

inductive_cases ws_stepE: "ws_step k s s'"

abbreviation ws_reaches :: "nat \<Rightarrow> ws_link \<Rightarrow> ws_link \<Rightarrow> bool" where
  "ws_reaches k \<equiv> (ws_step k)\<^sup>*\<^sup>*"

subsection \<open>No byte is lost, repeated or moved\<close>

definition held_bytes :: "ws_link \<Rightarrow> string" where
  "held_bytes s = (case wlHeld s of None \<Rightarrow> [] | Some data \<Rightarrow> data)"

definition ws_inv :: "ws_arrival list \<Rightarrow> ws_link \<Rightarrow> bool" where
  "ws_inv ms s \<longleftrightarrow>
     (\<exists>seen. ms = seen @ wlArrivals s \<and> wlGot s @ concat (wlQueue s) @ held_bytes s = concat (map read_bytes seen))
     \<and> list_all (\<lambda>data. data \<noteq> [] \<and> length data \<le> maxPacketSize) (wlQueue s)
     \<and> length (held_bytes s) \<le> maxPacketSize \<and> wlHeld s \<noteq> Some [] \<and> length (wlQueue s) \<le> queueCapacity"

lemma read_bytes_length: "length (read_bytes a) \<le> maxPacketSize"
  by (cases a) simp_all

lemma ws_inv_start: "ws_inv ms (ws_start ms)"
  by (simp add: ws_inv_def ws_start_def held_bytes_def)

lemma ws_inv_receive:
  assumes "ws_inv ms s" "wlHeld s = None"
  shows "ws_inv ms (reader_receive s)"
proof (cases "\<not> wlCancelled s \<and> (\<exists>m n as. wlArrivals s = Message m n # as)")
  case True
  then obtain m n as where a: "\<not> wlCancelled s" "wlArrivals s = Message m n # as" by blast
  let ?data = "read_bytes (Message m n)"
  have r: "reader_receive s = s\<lparr>wlArrivals := as, wlHeld := if ?data = [] then None else Some ?data\<rparr>"
    using a by (simp add: reader_receive_def Let_def)
  obtain seen where seen: "ms = seen @ Message m n # as" "wlGot s @ concat (wlQueue s) = concat (map read_bytes seen)"
    using assms a(2) by (auto simp: ws_inv_def held_bytes_def)
  have h: "held_bytes (reader_receive s) = ?data" by (simp only: r) (simp add: held_bytes_def)
  have "ms = (seen @ [Message m n]) @ as" "wlGot s @ concat (wlQueue s) @ ?data = concat (map read_bytes (seen @ [Message m n]))"
    using seen by (simp_all flip: append_assoc)
  then have "\<exists>seen. ms = seen @ as \<and> wlGot s @ concat (wlQueue s) @ ?data = concat (map read_bytes seen)" by blast
  then show ?thesis
    using assms(1) h read_bytes_length [of "Message m n"]
    unfolding ws_inv_def h by (simp only: r) simp
next
  case False
  then consider "reader_receive s = s" | "reader_receive s = s\<lparr>wlRunning := False\<rparr>"
    | a as where "wlArrivals s = a # as" "read_bytes a = []" "reader_receive s = s\<lparr>wlArrivals := as, wlRunning := False\<rparr>"
    by (cases "wlCancelled s"; cases "wlArrivals s"; cases "hd (wlArrivals s)") (auto simp: reader_receive_def)
  then show ?thesis
  proof cases
    case 3
    obtain seen where seen: "ms = seen @ wlArrivals s"
      "wlGot s @ concat (wlQueue s) @ held_bytes s = concat (map read_bytes seen)" using assms(1) by (auto simp: ws_inv_def)
    have "ms = (seen @ [a]) @ as" "wlGot s @ concat (wlQueue s) @ held_bytes s = concat (map read_bytes (seen @ [a]))"
      using seen 3 by simp_all
    then have "\<exists>seen. ms = seen @ as \<and> wlGot s @ concat (wlQueue s) @ held_bytes s = concat (map read_bytes seen)" by blast
    then show ?thesis using assms(1) unfolding ws_inv_def 3(3) by (simp add: held_bytes_def)
  qed (use assms(1) in \<open>auto simp: ws_inv_def held_bytes_def\<close>)
qed

lemma ws_inv_send: "ws_inv ms s \<Longrightarrow> reader_send s = Some s' \<Longrightarrow> ws_inv ms s'"
  by (auto simp: ws_inv_def reader_send_def held_bytes_def split: option.splits if_splits)

lemma ws_inv_read:
  assumes "ws_inv ms s" "ws_Read cancelled k s = Some (r, s')" "maxPacketSize \<le> k"
  shows "ws_inv ms s'"
  using assms by (auto simp: ws_inv_def ws_Read_def held_bytes_def split: list.splits if_splits)

lemma ws_inv_reaches:
  "ws_reaches k (ws_start ms) s \<Longrightarrow> maxPacketSize \<le> k \<Longrightarrow> ws_inv ms s"
proof (induction rule: rtranclp_induct)
  case base
  show ?case by (rule ws_inv_start)
next
  case (step s s')
  from step.hyps(2) step.IH [OF step.prems] show ?case
  proof (cases rule: ws_step.cases)
    case close
    then show ?thesis using step.IH [OF step.prems] by (auto simp: ws_close_queue_def ws_inv_def held_bytes_def)
  next
    case cancel
    then show ?thesis using step.IH [OF step.prems] by (auto simp: ws_close_conn_def ws_inv_def held_bytes_def)
  qed (auto intro: ws_inv_receive ws_inv_send ws_inv_read [OF _ _ step.prems])
qed

text \<open>
  C35. However the reader, the decoder and closing interleave, the bytes that the decoder got, those in the
  channel and those that the reader holds are, in this order, what the reader took from the messages seen so
  far (bytes that come with an error are not taken); the channel never holds more than 256 messages. The decoder's buffer of 32768 bytes is
  large enough.
\<close>

theorem ws_reader_fifo:
  assumes "ws_reaches k (ws_start ms) s" "maxPacketSize \<le> k"
  shows "\<exists>seen. ms = seen @ wlArrivals s \<and> wlGot s @ concat (wlQueue s) @ held_bytes s = concat (map read_bytes seen)
    \<and> length (wlQueue s) \<le> 256"
  using ws_inv_reaches [OF assms] by (auto simp: ws_inv_def queueCapacity_def)

subsection \<open>Every message can be delivered\<close>

lemma ws_deliver_one:
  assumes "\<not> wlPanic s" "wlRunning s" "\<not> wlClosed s" "\<not> wlCancelled s" "wlHeld s = None" "wlQueue s = []"
    and "wlArrivals s = Message m n # as" "maxPacketSize \<le> k"
  shows "ws_reaches k s (s\<lparr>wlArrivals := as, wlGot := wlGot s @ read_bytes (Message m n)\<rparr>)"
proof -
  let ?data = "read_bytes (Message m n)"
  let ?s1 = "s\<lparr>wlArrivals := as, wlHeld := if ?data = [] then None else Some ?data\<rparr>"
  have "reader_receive s = ?s1" using assms by (simp add: reader_receive_def Let_def)
  then have 1: "ws_step k s ?s1" using ws_step.receive [of s k] assms by simp
  show ?thesis
  proof (cases "?data = []")
    case True
    then have "?s1 = s\<lparr>wlArrivals := as, wlGot := wlGot s @ ?data\<rparr>" using assms(5) by simp
    with 1 show ?thesis by (metis r_into_rtranclp)
  next
    case False
    let ?s2 = "s\<lparr>wlArrivals := as, wlHeld := None, wlQueue := [?data]\<rparr>"
    let ?s3 = "s\<lparr>wlArrivals := as, wlHeld := None, wlQueue := [], wlGot := wlGot s @ ?data\<rparr>"
    have "ws_step k ?s1 ?s2"
      by (rule ws_step.send) (use assms False in \<open>simp_all add: reader_send_def queueCapacity_def\<close>)
    moreover have "ws_step k ?s2 ?s3"
      by (rule ws_step.read [where cancelled = False and r = "Inr (length ?data)"])
        (use assms read_bytes_length [of "Message m n"] in \<open>simp_all add: ws_Read_def\<close>)
    moreover have "?s3 = s\<lparr>wlArrivals := as, wlGot := wlGot s @ ?data\<rparr>" using assms(5,6) by simp
    ultimately show ?thesis using 1 by (metis converse_rtranclp_into_rtranclp r_into_rtranclp)
  qed
qed

lemma ws_deliver_all:
  "list_all (\<lambda>a. \<exists>m n. a = Message m n) ms \<Longrightarrow> maxPacketSize \<le> k \<Longrightarrow>
     \<not> wlPanic s \<Longrightarrow> wlRunning s \<Longrightarrow> \<not> wlClosed s \<Longrightarrow> \<not> wlCancelled s \<Longrightarrow> wlHeld s = None \<Longrightarrow> wlQueue s = [] \<Longrightarrow> wlArrivals s = ms \<Longrightarrow>
     ws_reaches k s (s\<lparr>wlArrivals := [], wlGot := wlGot s @ concat (map read_bytes ms)\<rparr>)"
proof (induction ms arbitrary: s)
  case Nil
  then have "s\<lparr>wlArrivals := [], wlGot := wlGot s @ concat (map read_bytes [])\<rparr> = s" by simp
  then show ?case by simp
next
  case (Cons a ms)
  then obtain m n where a: "a = Message m n" by auto
  let ?s = "s\<lparr>wlArrivals := ms, wlGot := wlGot s @ read_bytes a\<rparr>"
  have "ws_reaches k s ?s" unfolding a by (rule ws_deliver_one) (use Cons.prems a in simp_all)
  moreover have "ws_reaches k ?s (?s\<lparr>wlArrivals := [], wlGot := wlGot ?s @ concat (map read_bytes ms)\<rparr>)"
    by (rule Cons.IH) (use Cons.prems in simp_all)
  ultimately show ?case by simp
qed

text \<open>
  The decoder can get all that was read; it is the text of the messages exactly when every single
  read returned its whole message. What a read leaves behind, of a message in several frames or one
  that is longer than the buffer, is gone.
\<close>

theorem ws_reader_delivers:
  assumes "maxPacketSize \<le> k" "list_all (\<lambda>(m, n). m \<noteq> [] \<and> 0 < n) ms"
  shows "\<exists>s. ws_reaches k (ws_start (map (\<lambda>(m, n). Message m n) ms)) s \<and> wlArrivals s = [] \<and> wlQueue s = [] \<and> wlHeld s = None
    \<and> wlGot s = concat (map (\<lambda>(m, n). take (min n maxPacketSize) m) ms)
    \<and> (wlGot s = concat (map fst ms) \<longleftrightarrow> list_all (\<lambda>(m, n). length m \<le> n \<and> length m \<le> maxPacketSize) ms)"
proof -
  let ?ms = "map (\<lambda>(m, n). Message m n) ms"
  let ?got = "concat (map (\<lambda>(m, n). take (min n maxPacketSize) m) ms)"
  let ?s = "(ws_start ?ms)\<lparr>wlArrivals := [], wlGot := ?got\<rparr>"
  have got: "map read_bytes ?ms = map (\<lambda>(m, n). take (min n maxPacketSize) m) ms" by (induction ms) auto
  have "ws_reaches k (ws_start ?ms) ((ws_start ?ms)\<lparr>wlArrivals := [], wlGot := wlGot (ws_start ?ms) @ concat (map read_bytes ?ms)\<rparr>)"
    by (rule ws_deliver_all) (use assms(1) in \<open>auto simp: ws_start_def list_all_iff\<close>)
  then have "ws_reaches k (ws_start ?ms) ?s" unfolding got by (simp add: ws_start_def)
  moreover have "?got = concat (map fst ms) \<longleftrightarrow> list_all (\<lambda>(m, n). length m \<le> n \<and> length m \<le> maxPacketSize) ms"
  proof
    have le: "length (concat (map (\<lambda>(m, n). take (min n maxPacketSize) m) xs)) \<le> length (concat (map fst xs))" for xs :: "(string \<times> nat) list"
      by (induction xs) auto
    show "list_all (\<lambda>(m, n). length m \<le> n \<and> length m \<le> maxPacketSize) ms" if "?got = concat (map fst ms)"
      using that
    proof (induction ms)
      case (Cons a ms)
      obtain m n where a: "a = (m, n)" by (cases a)
      have eq: "take (min n maxPacketSize) m @ concat (map (\<lambda>(m, n). take (min n maxPacketSize) m) ms) = m @ concat (map fst ms)"
        using Cons.prems a by simp
      from arg_cong [OF eq, of length] le [of ms] have len: "length m \<le> n" "length m \<le> maxPacketSize" by auto
      with eq have "concat (map (\<lambda>(m, n). take (min n maxPacketSize) m) ms) = concat (map fst ms)" by simp
      with len Cons.IH a show ?case by simp
    qed simp
    show "?got = concat (map fst ms)" if "list_all (\<lambda>(m, n). length m \<le> n \<and> length m \<le> maxPacketSize) ms"
      using that by (induction ms) auto
  qed
  ultimately show ?thesis by (intro exI [of _ ?s]) (simp add: ws_start_def)
qed

subsection \<open>Closing while a message is held\<close>

text \<open>The reader runs as long as it holds a message.\<close>

definition ws_running :: "ws_link \<Rightarrow> bool" where
  "ws_running s \<longleftrightarrow> (wlHeld s \<noteq> None \<longrightarrow> wlRunning s)"

lemma ws_running_reaches: "ws_reaches k s s' \<Longrightarrow> ws_running s \<Longrightarrow> ws_running s'"
proof (induction rule: rtranclp_induct)
  case (step s' s'')
  from step.hyps(2) step.IH [OF step.prems] show ?case
    by (cases rule: ws_step.cases)
      (auto simp: ws_running_def reader_receive_def reader_send_def ws_Read_def ws_close_queue_def ws_close_conn_def Let_def
        split: list.splits option.splits if_splits ws_arrival.splits)
qed

text \<open>Once the channel is closed, the message that is held stays held until the panic.\<close>

lemma ws_closed_holds:
  "ws_reaches k s s' \<Longrightarrow> wlClosed s \<Longrightarrow> wlHeld s = Some data \<Longrightarrow> wlClosed s' \<and> wlHeld s' = Some data"
proof (induction rule: rtranclp_induct)
  case (step s' s'')
  from step.hyps(2) step.IH [OF step.prems] show ?case
    by (cases rule: ws_step.cases)
      (auto simp: reader_send_def ws_Read_def ws_close_queue_def ws_close_conn_def split: list.splits if_splits)
qed simp

text \<open>
  C36. When the transport is closed at any moment at which the reader holds a message, between reading
  it and putting it into the channel or waiting for room in the full channel, then whatever the others
  do, in every later state in which the program still runs the reader can only send on the closed
  channel, and that panics, which ends the program.
\<close>

theorem ws_close_panics:
  assumes "ws_reaches k (ws_start ms) s" "\<not> wlPanic s" "\<not> wlClosed s" "wlHeld s = Some data"
  shows "ws_step k s (ws_close_queue s) \<and> \<not> wlPanic (ws_close_queue s)
    \<and> (\<forall>s'. ws_reaches k (ws_close_queue s) s' \<longrightarrow> \<not> wlPanic s' \<longrightarrow>
         wlHeld s' = Some data \<and> reader_send s' = Some (s'\<lparr>wlPanic := True\<rparr>) \<and> ws_step k s' (s'\<lparr>wlPanic := True\<rparr>))"
proof (intro conjI allI impI)
  show close: "ws_step k s (ws_close_queue s)" using assms(2) by (rule ws_step.close)
  show "\<not> wlPanic (ws_close_queue s)" using assms(2,3) by (simp add: ws_close_queue_def)
  fix s' assume s': "ws_reaches k (ws_close_queue s) s'" "\<not> wlPanic s'"
  have held: "wlClosed s'" "wlHeld s' = Some data"
    using ws_closed_holds [OF s'(1), of data] assms(3,4) by (simp_all add: ws_close_queue_def)
  then show "wlHeld s' = Some data" "reader_send s' = Some (s'\<lparr>wlPanic := True\<rparr>)"
    by (simp_all add: reader_send_def)
  have "ws_running (ws_start ms)" by (simp add: ws_running_def ws_start_def)
  then have "wlRunning s'"
    using ws_running_reaches [OF rtranclp_trans [OF rtranclp.rtrancl_into_rtrancl [OF assms(1) close] s'(1)]] held
    by (simp add: ws_running_def)
  then show "ws_step k s' (s'\<lparr>wlPanic := True\<rparr>)"
    by (intro ws_step.send s'(2)) (simp_all add: reader_send_def held)
qed

subsection \<open>Witnesses\<close>

theorem ws_reader_delivers_witness:
  "\<exists>s. ws_reaches maxPacketSize (ws_start [Message ''<a/>'' 4, Message ''<b/>'' 2]) s \<and> wlGot s = ''<a/><b''"
  using ws_reader_delivers [of maxPacketSize "[(''<a/>'', 4), (''<b/>'', 2)]"] by (auto simp: maxPacketSize_def)

theorem ws_reader_fifo_witness:
  "\<exists>s. ws_reaches maxPacketSize (ws_start [Message ''<a/>'' 4]) s \<and> wlHeld s = Some ''<a/>''
    \<and> wlGot s @ concat (wlQueue s) @ held_bytes s = ''<a/>''"
proof -
  let ?s = "reader_receive (ws_start [Message ''<a/>'' 4])"
  have s: "?s = (ws_start [])\<lparr>wlHeld := Some ''<a/>''\<rparr>"
    by (simp add: reader_receive_def ws_start_def Let_def maxPacketSize_def)
  have r: "ws_reaches maxPacketSize (ws_start [Message ''<a/>'' 4]) ?s"
    by (intro r_into_rtranclp ws_step.receive) (simp_all add: ws_start_def)
  from ws_reader_fifo [OF r] s show ?thesis
    using r by (intro exI [of _ ?s]) (auto simp: ws_start_def maxPacketSize_def)
qed

theorem ws_close_panics_witness:
  "\<exists>s. ws_reaches maxPacketSize (ws_start [Message ''<a/>'' 4]) s \<and> wlHeld s = Some ''<a/>''
    \<and> ws_reaches maxPacketSize s (ws_close_conn (ws_close_queue s))
    \<and> reader_send (ws_close_conn (ws_close_queue s)) = Some ((ws_close_conn (ws_close_queue s))\<lparr>wlPanic := True\<rparr>)"
proof -
  let ?s = "reader_receive (ws_start [Message ''<a/>'' 4])"
  have s: "?s = (ws_start [])\<lparr>wlHeld := Some ''<a/>''\<rparr>"
    by (simp add: reader_receive_def ws_start_def Let_def maxPacketSize_def)
  have r: "ws_reaches maxPacketSize (ws_start [Message ''<a/>'' 4]) ?s"
    by (intro r_into_rtranclp ws_step.receive) (simp_all add: ws_start_def)
  have p: "\<not> wlPanic ?s" "\<not> wlClosed ?s" "wlHeld ?s = Some ''<a/>''" unfolding s by (simp_all add: ws_start_def)
  have cancel: "ws_step maxPacketSize (ws_close_queue ?s) (ws_close_conn (ws_close_queue ?s))"
    by (rule ws_step.cancel) (use p in \<open>simp_all add: ws_close_queue_def\<close>)
  have "\<not> wlPanic (ws_close_conn (ws_close_queue ?s))" using p by (simp add: ws_close_queue_def ws_close_conn_def)
  with ws_close_panics [OF r p] cancel r p(3) show ?thesis
    by (intro exI [of _ ?s]) (blast intro: rtranclp_trans)
qed

end
