(* ===== verification/Spec2Isabelle.thy ===== *)
theory Spec2Isabelle
  imports StreamManager CertCheck Exchange ServiceStream Jukebox CustomPayload WsReader
begin

text \<open>
  A model of the XMPP library of this repository: the package \<^verbatim>\<open>stanza\<close> (what goes over the wire) and
  the package \<^verbatim>\<open>xmpp\<close> (clients, components and what keeps them connected), with the theorems that
  make them correct and those that show where they are not.

  \<^bold>\<open>The program.\<close> A \<^emph>\<open>client\<close> or an external \<^emph>\<open>component\<close> opens a \<^emph>\<open>transport\<close> (TCP with TLS, or a
  websocket), negotiates a \<^emph>\<open>session\<close> on it (features, TLS, SASL, resuming or binding, stream
  management), and then runs a receiving loop: the \<^emph>\<open>parser\<close> turns the elements of the stream into
  \<^emph>\<open>packets\<close>, whose payloads the \<^emph>\<open>registry\<close> knows by their names, and the \<^emph>\<open>router\<close> hands each packet
  to the goroutine that waits for it, to the first route that matches, or answers it with an error.
  With stream management every stanza that is sent is kept in a queue until the server has
  acknowledged it. A \<^emph>\<open>stream manager\<close> reconnects with growing delays.

  \<^bold>\<open>The conventions.\<close> A struct is a \<open>record\<close>, a sum of types a \<open>datatype\<close>, a pointer that may be nil an
  \<open>option\<close>, a string a list of bytes. A function that returns an error gives \<open>error + 'a\<close>; a panic is
  the error \<open>Panic\<close>, so that it ends whatever calls it. A method that changes the object it is called
  on is an \<open>action\<close>, a function from the state to a result and the new state, composed with \<open>andThen\<close>:
  what was done before an error stays done. Counters keep their width (\<open>gouint\<close> is a 64 bit word); other
  integers carry the bounds of \<^verbatim>\<open>int\<close> where the code parses or prints them.

  \<^bold>\<open>The theories\<close>, each on the ones before it:

  \<^item> \<open>Prelude\<close>: errors and \<^verbatim>\<open>conn_error.go\<close>, results and actions with their rules (what a step keeps, that a
    loop ends), \<open>run_loop\<close>, a loop with a bound on its passes, and the locale \<open>consuming_loop\<close>.
  \<^item> \<open>GoStrings\<close>, \<open>GoStrconv\<close>: what the code uses of \<^verbatim>\<open>strings\<close>, \<^verbatim>\<open>unicode\<close>, \<^verbatim>\<open>strconv\<close>, base64 and hex, with
    the round trips of printing and parsing.
  \<^item> \<open>Jid\<close> (\<^verbatim>\<open>stanza/jid.go\<close>) and \<open>Network\<close> (\<^verbatim>\<open>network.go\<close>, the choice among SRV records, the addresses of
    \<^verbatim>\<open>cert_checker.go\<close>).
  \<^item> \<open>UnAckQueue\<close> (\<^verbatim>\<open>stanza/stream_management.go\<close>, \<^verbatim>\<open>fifo_queue.go\<close>): the queue, refined to a first in, first
    out queue of the locale \<open>fifo_queue\<close>, and what acknowledgements leave in it.
  \<^item> \<open>Xml\<close>: the decoder of \<^verbatim>\<open>encoding/xml\<close> on tokens, with name spaces, and encoding. \<open>XmlNode\<close>
    (\<^verbatim>\<open>stanza/node.go\<close>): generic elements. \<open>ElemLoop\<close>: the loop that every custom \<^verbatim>\<open>UnmarshalXML\<close> runs over
    tokens, and the theorem that makes it a fold over the children of a tree.
  \<^item> \<open>Registry\<close> (\<^verbatim>\<open>stanza/registry.go\<close>) with every registration of the package.
  \<^item> \<open>StanzaError\<close> (\<^verbatim>\<open>error.go\<close>), \<open>ResultSets\<close> (\<^verbatim>\<open>results_sets.go\<close>, and how struct tags are read and printed),
    \<open>Forms\<close> (\<^verbatim>\<open>form.go\<close>), \<open>PubSub\<close>, \<open>PubSubOwner\<close> (\<^verbatim>\<open>pubsub_owner.go\<close>, \<^verbatim>\<open>commands.go\<close>), \<open>PubSubEvent\<close>,
    \<open>Extensions\<close> (markers, states, hints, receipts, out-of-band data, control sets), \<open>Disco\<close> (discovery,
    roster, version), \<open>Muc\<close> (\<^verbatim>\<open>pres_muc.go\<close>, \<^verbatim>\<open>datetime_profiles.go\<close>): per payload a record, the
    decoder that the struct's tags or its own method give it, what is printed, and that the one reads the other.
  \<^item> \<open>Stanza\<close> (\<^verbatim>\<open>iq.go\<close>, \<^verbatim>\<open>message.go\<close>, \<^verbatim>\<open>presence.go\<close>, \<^verbatim>\<open>packet.go\<close>): the three stanzas over an open codec of
    payloads. \<open>PayloadWire\<close>: whole stanzas over the wire. \<open>Requests\<close>: every builder of requests, well
    formed and read by the service as meant, and \<^verbatim>\<open>GetFormFields\<close>. \<open>Delegation\<close> (\<^verbatim>\<open>stanza/component.go\<close>):
    stanzas inside payloads.
  \<^item> \<open>Packets\<close> (\<^verbatim>\<open>stream_features.go\<close>, the nonzas, \<^verbatim>\<open>stanza_errors.go\<close>) and \<open>Parser\<close> (\<^verbatim>\<open>parser.go\<close>).
  \<^item> \<open>Transport\<close> (\<^verbatim>\<open>xmpp_transport.go\<close>, \<^verbatim>\<open>websocket_transport.go\<close>, \<^verbatim>\<open>stream_logger.go\<close>): the state of both, with
    the channel each text was written on. \<open>WsReader\<close>: the goroutine that reads a websocket, its channel
    and closing, as a step relation over all interleavings.
  \<^item> \<open>Auth\<close> (\<^verbatim>\<open>auth.go\<close>) and \<open>Session\<close> (\<^verbatim>\<open>session.go\<close>): the negotiation.
  \<^item> \<open>Router\<close> (\<^verbatim>\<open>router.go\<close>): matching and dispatch, sequential and as a step relation of concurrent
    goroutines.
  \<^item> \<open>Client\<close> (\<^verbatim>\<open>client.go\<close>) with the step relation \<open>client_runs\<close> of its receiving loop and of the goroutines that
    dispatch the stanzas, \<open>Delivery\<close> (stream management end to end) and \<open>Exchange\<close> (a request and its answer)
    over all interleavings, \<open>ClientSecurity\<close> (what is written in the clear), \<open>Component\<close> (\<^verbatim>\<open>component.go\<close>).
  \<^item> Programs under \<^verbatim>\<open>_examples\<close> that are built on all of this: \<open>Services\<close> (two components), \<open>ServiceStream\<close>
    (the loop of a component with its handlers running), \<open>Jukebox\<close> (a client
    that plays music on request), \<open>CustomPayload\<close> (a program that registers a payload of its own).
  \<^item> \<open>Backoff\<close> (\<^verbatim>\<open>backoff.go\<close>, with the widths and the rounding of Go's numbers), \<open>StreamManager\<close> (\<^verbatim>\<open>stream_manager.go\<close>), \<open>CertCheck\<close> (\<^verbatim>\<open>cert_checker.go\<close>).

  \<^bold>\<open>What the theorems show.\<close>

  \<^item> \<^emph>\<open>Confidentiality\<close>: a first connection writes nothing in the clear but stream openings, the request for TLS and
    stream closes, whatever the server does; a reconnection breaks this, because the flag of the first
    connection is never reset.
  \<^item> \<^emph>\<open>Establishing\<close>: against a server that plays its part a session is established by exactly the messages of the
    protocol, and so are SCRAM, resuming and the handshake of a component. SCRAM with a server
    that does not know the password is accepted as well.
  \<^item> \<^emph>\<open>Delivery\<close>: with stream management stanzas are queued, counted, acknowledged and sent again in order;
    in every interleaving each stanza reaches its handler at most once, and a request gets the answer that was
    printed for it at most once, and both can always still happen; handlers may run out of order. The initial presence and an empty
    queue make the two sides' counts diverge.
  \<^item> \<^emph>\<open>The wire\<close>: what is read of every payload that the library prints for an IQ, and which
    parts of it are lost; decoders of trees are folds, nesting is bounded, a sequence of stanzas is read in order.
  \<^item> \<^emph>\<open>Dispatch\<close>: the first matching route, one effect per request, no double delivery with distinct
    identifiers; two answers with one identifier can panic.
  \<^item> \<^emph>\<open>Ending\<close>: the receiving loops end for every input, the reconnection loop at the first success or permanent
    error.
  \<^item> \<^emph>\<open>Composition\<close>: the example programs, from the printed request to what the other side reads of the answer, and
    the requests that make them panic or answer each other for ever.

  \<^bold>\<open>Bounds and fuel.\<close> \<open>xmlElementMaxDepth\<close> is 128 as in the code. \<open>run_loop k\<close> makes at most \<open>k\<close> passes and is
  \<open>None\<close> when they do not suffice: \<open>recv_loop_ends\<close> and \<open>component_recv_ends\<close> show that more passes
  than there are tokens left suffice, for each pass that goes on consumes one (the locale \<open>consuming_loop\<close>).
  The reconnection loop is bounded by the number of attempts, of which its theorem says how many are
  made. Decoding is by functions with their own termination proofs, measured by the tokens left. The
  channel of a websocket holds 256 messages of at most 32768 bytes.

  \<^bold>\<open>Interfaces.\<close> \<open>consuming_loop\<close> (a loop whose passes consume input) is interpreted for the receiving
  loops of client and component, \<open>fifo_queue\<close> for the queue of stanzas, \<open>extension_registry\<close> for the registry,
  \<open>transport_writer\<close> (what writing and reading leave of a transport) for TCP, websocket and
  the choice of both, \<open>resumable\<close> (what the stream manager relies on) for client and component.

  \<^bold>\<open>Parameters.\<close> Code that is not in the repository is an argument: hash functions, PBKDF2 and
  randomness (the record \<open>crypto\<close>), parsing and formatting of times, Unicode lower case, UUIDs, the
  registry that a program extends (\<open>codec\<close>), what \<^verbatim>\<open>xml.Marshal\<close> gives (\<open>marshal\<close>, in the operations that
  only pass its result on), the handlers of users, and where the XML decoder stands after an error that is
  ignored (\<open>left\<close>, in \<open>Delegation\<close>). The network is a script: the tokens that will arrive and the
  errors that reads, writes, dials and TLS will give.

  \<^bold>\<open>Not modelled.\<close>

  \<^item> The reading of bytes by the tokenizer of \<^verbatim>\<open>encoding/xml\<close>: streams are tokens. A field tagged \<^verbatim>\<open>innerxml\<close> holds
    the character data of its element; \<^verbatim>\<open>HTML\<close>, which holds markup in it, and \<^verbatim>\<open>MucPresence\<close> inside a
    presence are kept as trees.
  \<^item> \<^verbatim>\<open>LogTraffic\<close>, the byte-level \<^verbatim>\<open>Read\<close> of TCP, the metrics of the stream manager (they read the clock), \<^verbatim>\<open>wait\<close> of
    the backoff (it sleeps).
  \<^item> The types of \<^verbatim>\<open>pep.go\<close>, \<^verbatim>\<open>iot.go\<close> and \<^verbatim>\<open>pubsub.go\<close> that the package neither registers nor uses.
  \<^item> Interleavings of goroutines other than those of the receiving loop with its dispatches, of the steps of
    concurrent dispatches, of the registry's two critical sections and of the websocket's reader. A dispatch
    is one step in \<open>client_runs\<close> and taken apart in \<open>Router\<close>. The goroutine that awaits the close of a stream
    runs at once, and locks are left out, their critical sections being whole operations.
  \<^item> The mock server of the tests, the command line tool, and the examples that are user interfaces or
    straight-line calls.
\<close>

end
